(* ===== verification/Prelude.thy ===== *)
theory Prelude
  imports Main "HOL-Library.Word" "HOL-Library.Monad_Syntax"
begin

text \<open>
  What every theory of the development shares: the machine types, byte arrays and the two ways
  the code touches them (\<open>memcpy\<close> into and out of a buffer, with the undefined behaviour of an
  out-of-bounds access made the value \<open>None\<close>), the little-endian byte images that
  \<open>memcpy(&buf[i], &x, n)\<close> leaves on the targets of the project, and C strings.
\<close>

unbundle bit_operations_syntax

type_synonym byte = "8 word"
type_synonym bytes = "byte list"
type_synonym uint32 = "32 word"
type_synonym uint64 = "64 word"

text \<open>\<open>size_t\<close> of the firmware: 32 bits on the esp32s3 reference target.\<close>
type_synonym size_t = "32 word"

text \<open>The bit pattern of a C \<open>double\<close>; \<open>memcpy\<close> moves patterns, not numbers.\<close>
type_synonym f64 = "64 word"
type_synonym f32 = "32 word"

named_theorems mem_simps \<open>reads and writes of byte buffers\<close>
named_theorems le_simps \<open>little-endian images of words\<close>

subsection \<open>Buffers\<close>

definition blit :: "'a list \<Rightarrow> nat \<Rightarrow> 'a list \<Rightarrow> 'a list" where
  "blit buf off src = take off buf @ src @ drop (off + length src) buf"

definition mem_write :: "'a list \<Rightarrow> nat \<Rightarrow> 'a list \<Rightarrow> 'a list option" where
  "mem_write buf off src =
     (if off + length src \<le> length buf then Some (blit buf off src) else None)"

definition mem_read :: "'a list \<Rightarrow> nat \<Rightarrow> nat \<Rightarrow> 'a list option" where
  "mem_read buf off n = (if off + n \<le> length buf then Some (take n (drop off buf)) else None)"

lemma length_blit [simp]: "off + length src \<le> length buf \<Longrightarrow> length (blit buf off src) = length buf"
  by (simp add: blit_def)

lemma mem_write_Some_iff [mem_simps]:
  "mem_write buf off src = Some b' \<longleftrightarrow> off + length src \<le> length buf \<and> b' = blit buf off src"
  by (auto simp: mem_write_def)

lemma mem_write_None_iff [mem_simps]:
  "mem_write buf off src = None \<longleftrightarrow> length buf < off + length src"
  by (auto simp: mem_write_def)

lemma mem_read_Some_iff [mem_simps]:
  "mem_read buf off n = Some bs \<longleftrightarrow> off + n \<le> length buf \<and> bs = take n (drop off buf)"
  by (auto simp: mem_read_def)

lemma mem_write_length: "mem_write buf off src = Some b' \<Longrightarrow> length b' = length buf"
  by (simp add: mem_simps)

text \<open>A write between two known parts of a buffer replaces exactly the middle.\<close>

lemma blit_append: "length old = length src \<Longrightarrow> blit (xs @ old @ ys) (length xs) src = xs @ src @ ys"
  by (simp add: blit_def)

lemma mem_write_append [mem_simps]:
  "length old = length src \<Longrightarrow> off = length xs \<Longrightarrow>
   mem_write (xs @ old @ ys) off src = Some (xs @ src @ ys)"
  by (simp add: mem_write_def blit_append)

lemma mem_read_append [mem_simps]:
  "off = length xs \<Longrightarrow> n = length old \<Longrightarrow> mem_read (xs @ old @ ys) off n = Some old"
  by (simp add: mem_read_def)

lemma read_blit_same:
  "off + length src \<le> length buf \<Longrightarrow> take (length src) (drop off (blit buf off src)) = src"
  by (simp add: blit_def)

lemma take_blit: "off + length src \<le> length buf \<Longrightarrow> take n (drop i (blit buf off src)) =
   (if i + n \<le> off then take n (drop i buf) else take n (drop i (blit buf off src)))"
  by (auto simp: blit_def take_drop min_def)

lemma nth_blit:
  "off + length src \<le> length buf \<Longrightarrow> i < length buf \<Longrightarrow>
   blit buf off src ! i =
     (if off \<le> i \<and> i < off + length src then src ! (i - off) else buf ! i)"
  by (auto simp: blit_def nth_append min_def)

lemma read_blit_other:
  assumes "off + length src \<le> length buf" and "i + n \<le> length buf"
    and "i + n \<le> off \<or> off + length src \<le> i"
  shows "take n (drop i (blit buf off src)) = take n (drop i buf)"
proof (rule nth_equalityI)
  show "length (take n (drop i (blit buf off src))) = length (take n (drop i buf))"
    using assms(1) by simp
next
  fix k assume "k < length (take n (drop i (blit buf off src)))"
  with assms show "take n (drop i (blit buf off src)) ! k = take n (drop i buf) ! k"
    by (auto simp: nth_blit)
qed

lemma mem_read_write_same:
  "mem_write buf off src = Some b' \<Longrightarrow> mem_read b' off (length src) = Some src"
  by (simp add: mem_simps read_blit_same)

lemma mem_read_write_other:
  assumes "mem_write buf off src = Some b'" and "i + n \<le> off \<or> off + length src \<le> i"
  shows "mem_read b' i n = mem_read buf i n"
  using assms by (cases "i + n \<le> length buf") (auto simp: mem_simps mem_read_def read_blit_other)

lemma blit_blit_same:
  "off + length a \<le> length buf \<Longrightarrow> length a = length b \<Longrightarrow>
   blit (blit buf off a) off b = blit buf off b"
  by (rule nth_equalityI) (auto simp: nth_blit)

subsection \<open>Little-endian images\<close>

primrec le_encode :: "nat \<Rightarrow> nat \<Rightarrow> bytes" where
  "le_encode 0 x = []"
| "le_encode (Suc n) x = word_of_nat (x mod 256) # le_encode n (x div 256)"

primrec le_decode :: "bytes \<Rightarrow> nat" where
  "le_decode [] = 0"
| "le_decode (b # bs) = unat b + 256 * le_decode bs"

lemma length_le_encode [simp, le_simps]: "length (le_encode n x) = n"
  by (induction n arbitrary: x) auto

lemma unat_byte_of_nat: "unat (word_of_nat (x mod 256) :: byte) = x mod 256"
  by (simp add: unat_of_nat)

lemma le_decode_encode [le_simps]: "le_decode (le_encode n x) = x mod 256 ^ n"
proof (induction n arbitrary: x)
  case 0
  then show ?case by simp
next
  case (Suc n)
  have "x mod 256 ^ Suc n = x mod 256 + 256 * (x div 256 mod 256 ^ n)"
    by (simp add: mod_mult2_eq)
  then show ?case by (simp add: Suc unat_byte_of_nat)
qed

lemma unat_byte_less: "unat (b :: byte) < 256"
  using unsigned_less [of b] by simp

lemma le_decode_less: "le_decode bs < 256 ^ length bs"
proof (induction bs)
  case Nil
  then show ?case by simp
next
  case (Cons b bs)
  have "unat b < 256" by (rule unat_byte_less)
  with Cons show ?case by simp
qed

lemma le_encode_decode [le_simps]: "le_encode (length bs) (le_decode bs) = bs"
proof (induction bs)
  case Nil
  then show ?case by simp
next
  case (Cons b bs)
  have b: "unat b < 256" by (rule unat_byte_less)
  then have "(unat b + 256 * le_decode bs) mod 256 = unat b"
    and "(unat b + 256 * le_decode bs) div 256 = le_decode bs" by simp_all
  with Cons show ?case by simp
qed

definition le16 :: "16 word \<Rightarrow> bytes" where "le16 w = le_encode 2 (unat w)"
definition le32 :: "32 word \<Rightarrow> bytes" where "le32 w = le_encode 4 (unat w)"
definition le64 :: "64 word \<Rightarrow> bytes" where "le64 w = le_encode 8 (unat w)"

definition of_le16 :: "bytes \<Rightarrow> 16 word" where "of_le16 bs = word_of_nat (le_decode bs)"
definition of_le32 :: "bytes \<Rightarrow> 32 word" where "of_le32 bs = word_of_nat (le_decode bs)"
definition of_le64 :: "bytes \<Rightarrow> 64 word" where "of_le64 bs = word_of_nat (le_decode bs)"

lemma length_le16 [simp]: "length (le16 w) = 2" by (simp add: le16_def)
lemma length_le32 [simp]: "length (le32 w) = 4" by (simp add: le32_def)
lemma length_le64 [simp]: "length (le64 w) = 8" by (simp add: le64_def)

lemma of_le16_le16 [simp]: "of_le16 (le16 w) = w"
proof -
  have "unat w < 2 ^ 16" using unsigned_less [of w] by simp
  then show ?thesis by (simp add: of_le16_def le16_def le_simps)
qed

lemma of_le32_le32 [simp]: "of_le32 (le32 w) = w"
proof -
  have "unat w < 2 ^ 32" using unsigned_less [of w] by simp
  then show ?thesis by (simp add: of_le32_def le32_def le_simps)
qed

lemma of_le64_le64 [simp]: "of_le64 (le64 w) = w"
proof -
  have "unat w < 2 ^ 64" using unsigned_less [of w] by simp
  then show ?thesis by (simp add: of_le64_def le64_def le_simps)
qed

lemma le32_of_le32: "length bs = 4 \<Longrightarrow> le32 (of_le32 bs) = bs"
  using le_decode_less [of bs] le_encode_decode [of bs]
  by (simp add: of_le32_def le32_def unat_of_nat)

lemma le64_of_le64: "length bs = 8 \<Longrightarrow> le64 (of_le64 bs) = bs"
  using le_decode_less [of bs] le_encode_decode [of bs]
  by (simp add: of_le64_def le64_def unat_of_nat)

text \<open>Arrays of doubles: \<open>memcpy(buf, values, 8 * n)\<close>.\<close>

definition le64s :: "f64 list \<Rightarrow> bytes" where "le64s ds = concat (map le64 ds)"

fun of_le64s :: "nat \<Rightarrow> bytes \<Rightarrow> f64 list" where
  "of_le64s 0 bs = []"
| "of_le64s (Suc n) bs = of_le64 (take 8 bs) # of_le64s n (drop 8 bs)"

lemma le64s_simps [simp]: "le64s [] = []" "le64s (d # ds) = le64 d @ le64s ds"
  by (simp_all add: le64s_def)

lemma length_le64s [simp]: "length (le64s ds) = 8 * length ds"
  by (induction ds) auto

lemma of_le64s_le64s [simp]: "length ds = n \<Longrightarrow> of_le64s n (le64s ds) = ds"
  by (induction ds arbitrary: n) auto

lemma length_of_le64s [simp]: "length (of_le64s n bs) = n"
  by (induction n arbitrary: bs) auto

lemma le_encode_0: "le_encode n 0 = replicate n 0"
  by (induction n) simp_all

lemma le64s_zeros: "le64s (replicate n 0) = replicate (8 * n) 0"
proof (induction n)
  case 0
  then show ?case by simp
next
  case (Suc n)
  have "le64 0 = replicate 8 0" by (simp add: le64_def le_encode_0)
  with Suc show ?case by (simp add: replicate_add)
qed

subsection \<open>C strings\<close>

text \<open>A C string is the list of its characters before the terminator; \<open>c_str\<close> is its image.\<close>

definition c_str :: "string \<Rightarrow> bytes" where
  "c_str s = map of_char s @ [0]"

lemma length_c_str [simp]: "length (c_str s) = length s + 1"
  by (simp add: c_str_def)

lemma unat_word32_of_nat: "n < 2 ^ 32 \<Longrightarrow> unat (word_of_nat n :: 32 word) = n"
  by (simp add: unat_of_nat)

text \<open>Writing back what a field already holds.\<close>

lemma map_update_same: "f (xs ! i) = y \<Longrightarrow> (map f xs)[i := y] = map f xs"
  by (auto simp flip: map_update)

lemma bind_Some_iff: "(x \<bind> f) = Some y \<longleftrightarrow> (\<exists>z. x = Some z \<and> f z = Some y)"
  by (cases x) auto

text \<open>Digits, and the decimal rendering of an unsigned number.\<close>

definition digit :: "nat \<Rightarrow> char" where
  "digit d = ''0123456789abcdef'' ! (d mod 16)"

fun fmt_u :: "nat \<Rightarrow> string" where
  "fmt_u n = (if n < 10 then [digit n] else fmt_u (n div 10) @ [digit (n mod 10)])"

declare fmt_u.simps [simp del]

lemma fmt_u_length: "n < 10 ^ k \<Longrightarrow> 0 < k \<Longrightarrow> length (fmt_u n) \<le> k"
proof (induction k arbitrary: n)
  case 0
  then show ?case by simp
next
  case (Suc k)
  show ?case
  proof (cases "n < 10")
    case False
    then have "n div 10 < 10 ^ k" using Suc.prems by (simp add: less_mult_imp_div_less)
    moreover have "0 < k" using False Suc.prems by (cases k) auto
    ultimately show ?thesis using Suc.IH [of "n div 10"] False by (simp add: fmt_u.simps [of n])
  qed (simp add: fmt_u.simps [of n])
qed

text \<open>\<open>snprintf\<close> into a buffer of \<open>n\<close> bytes keeps \<open>n - 1\<close> characters.\<close>

definition snprintf :: "nat \<Rightarrow> string \<Rightarrow> string" where
  "snprintf n s = take (n - 1) s"

lemma snprintf_fits: "length s < n \<Longrightarrow> snprintf n s = s"
  by (simp add: snprintf_def)

subsection \<open>Error numbers (\<open>errno.h\<close>)\<close>

definition EINVAL :: int where "EINVAL = 22"
definition ENODEV :: int where "ENODEV = 19"
definition ENOMEM :: int where "ENOMEM = 12"
definition EIO :: int where "EIO = 5"
definition ETIMEDOUT :: int where "ETIMEDOUT = 116"
definition EALREADY :: int where "EALREADY = 120"
definition ENOTSUP :: int where "ENOTSUP = 134"
definition ENOTCONN :: int where "ENOTCONN = 128"
definition ENETDOWN :: int where "ENETDOWN = 115"
definition ENOSPC :: int where "ENOSPC = 28"

end
