(* ===== verification/Double_Buffer.thy ===== *)
theory Double_Buffer
  imports Prelude
begin

text \<open>
  The double buffers through which the transport callbacks, the control thread and the
  application exchange payloads (\<open>zenbedded_rcl/double_buffer.hpp\<close>): \<open>DoubleByteBuffer\<close> (prefix
  \<open>dbb_\<close>) holds raw bytes up to a capacity, \<open>DoubleBuffer<T>\<close> (prefix \<open>db_\<close>) holds values.
  First the operations, run one at a time; then an interface (\<open>latest_cell\<close>) that the rest of the
  client relies on, interpreted on both classes; then the concurrent behaviour, where a writer
  copies byte by byte outside the lock while readers copy byte by byte inside it.
\<close>

section \<open>The operations\<close>

record 'a double_buffer =
  slots :: "'a list"
  active_idx :: int

definition nth_slot :: "'a list \<Rightarrow> int \<Rightarrow> 'a option" where
  "nth_slot xs i = (if 0 \<le> i \<and> nat i < length xs then Some (xs ! nat i) else None)"

definition set_slot :: "'a list \<Rightarrow> int \<Rightarrow> 'a \<Rightarrow> 'a list option" where
  "set_slot xs i x = (if 0 \<le> i \<and> nat i < length xs then Some (xs[nat i := x]) else None)"

text \<open>\<open>DoubleByteBuffer<Capacity>\<close>. A null pointer argument is \<open>None\<close>, as is an access out of
  bounds, at the level of the whole call.\<close>

definition dbb_reset :: "nat \<Rightarrow> bytes double_buffer" where
  "dbb_reset cap = \<lparr>slots = [replicate cap 0, replicate cap 0], active_idx = 0\<rparr>"

definition prepare_write :: "'a double_buffer \<Rightarrow> int" where
  "prepare_write s = active_idx s XOR 1"

definition commit_write :: "int \<Rightarrow> 'a double_buffer \<Rightarrow> 'a double_buffer" where
  "commit_write i s = s\<lparr>active_idx := i\<rparr>"

definition dbb_slot :: "bytes double_buffer \<Rightarrow> nat \<Rightarrow> bytes option" where
  "dbb_slot s idx = nth_slot (slots s) (int idx)"

definition dbb_write ::
  "nat \<Rightarrow> bytes option \<Rightarrow> nat \<Rightarrow> bytes double_buffer \<Rightarrow> (bool \<times> bytes double_buffer) option"
where
  "dbb_write cap data sz s =
     (case data of
        None \<Rightarrow> Some (False, s)
      | Some d \<Rightarrow>
          if cap < sz then Some (False, s)
          else do {
            let i = prepare_write s;
            dst \<leftarrow> nth_slot (slots s) i;
            src \<leftarrow> mem_read d 0 sz;
            dst' \<leftarrow> mem_write dst 0 src;
            sl \<leftarrow> set_slot (slots s) i dst';
            Some (True, commit_write i (s\<lparr>slots := sl\<rparr>))
          })"

definition dbb_read_latest ::
  "nat \<Rightarrow> bytes double_buffer \<Rightarrow> bytes option \<Rightarrow> nat \<Rightarrow> (bool \<times> bytes option) option"
where
  "dbb_read_latest cap s out sz =
     (case out of
        None \<Rightarrow> Some (False, None)
      | Some dst \<Rightarrow>
          if cap < sz then Some (False, Some dst)
          else do {
            b \<leftarrow> nth_slot (slots s) (active_idx s);
            src \<leftarrow> mem_read b 0 sz;
            dst' \<leftarrow> mem_write dst 0 src;
            Some (True, Some dst')
          })"

definition active_index :: "'a double_buffer \<Rightarrow> int" where
  "active_index s = active_idx s"

text \<open>\<open>DoubleBuffer<T>\<close>; \<open>zero\<close> is the value-initialised \<open>T{}\<close>.\<close>

definition db_reset :: "'a \<Rightarrow> 'a double_buffer" where
  "db_reset zero = \<lparr>slots = [zero, zero], active_idx = 0\<rparr>"

definition db_slot :: "'a double_buffer \<Rightarrow> nat \<Rightarrow> 'a option" where
  "db_slot s idx = nth_slot (slots s) (int idx)"

definition db_write :: "'a \<Rightarrow> 'a double_buffer \<Rightarrow> 'a double_buffer option" where
  "db_write v s = do {
     let i = prepare_write s;
     sl \<leftarrow> set_slot (slots s) i v;
     Some (commit_write i (s\<lparr>slots := sl\<rparr>))
   }"

definition db_read_latest :: "'a double_buffer \<Rightarrow> 'a option" where
  "db_read_latest s = nth_slot (slots s) (active_idx s)"

text \<open>Well-formedness: two slots, an index that names one of them, and, for bytes, slots of the
  declared capacity.\<close>

definition db_wf :: "'a double_buffer \<Rightarrow> bool" where
  "db_wf s \<longleftrightarrow> length (slots s) = 2 \<and> active_idx s \<in> {0, 1}"

definition dbb_wf :: "nat \<Rightarrow> bytes double_buffer \<Rightarrow> bool" where
  "dbb_wf cap s \<longleftrightarrow> db_wf s \<and> (\<forall>b \<in> set (slots s). length b = cap)"

lemma xor_one_bit: "(0 :: int) XOR 1 = 1" "(1 :: int) XOR 1 = 0"
  by simp_all

lemma db_wfE:
  assumes "db_wf s"
  obtains a b where "s = \<lparr>slots = [a, b], active_idx = 0\<rparr>"
    | a b where "s = \<lparr>slots = [a, b], active_idx = 1\<rparr>"
  using assms
  by (cases s) (auto simp: db_wf_def length_Suc_conv numeral_2_eq_2)

lemma db_wf_reset [simp]: "db_wf (db_reset z)" "dbb_wf cap (dbb_reset cap)"
  by (simp_all add: db_wf_def dbb_wf_def db_reset_def dbb_reset_def)

lemmas db_ops = prepare_write_def commit_write_def nth_slot_def set_slot_def

lemma db_write_latest:
  assumes "db_wf s"
  shows "\<exists>s'. db_write v s = Some s' \<and> db_wf s' \<and> db_read_latest s' = Some v"
  using assms
  by (cases rule: db_wfE) (auto simp: db_write_def db_read_latest_def db_ops db_wf_def)

lemma dbb_write_latest:
  assumes wf: "dbb_wf cap s" and n: "n \<le> cap" "n \<le> length d"
  shows "\<exists>s'. dbb_write cap (Some d) n s = Some (True, s') \<and> dbb_wf cap s' \<and>
           (\<exists>b. nth_slot (slots s') (active_idx s') = Some b \<and> take n b = take n d)"
proof -
  have "db_wf s" using wf by (simp add: dbb_wf_def)
  then show ?thesis
  proof (cases rule: db_wfE)
    case (1 a b)
    with wf n show ?thesis
      by (auto simp: dbb_write_def db_ops dbb_wf_def db_wf_def mem_write_def mem_read_def blit_def)
  next
    case (2 a b)
    with wf n show ?thesis
      by (auto simp: dbb_write_def db_ops dbb_wf_def db_wf_def mem_write_def mem_read_def blit_def)
  qed
qed

lemma dbb_write_rejects: "cap < n \<Longrightarrow> dbb_write cap d n s = Some (False, s)"
  by (auto simp: dbb_write_def split: option.splits)

lemma dbb_read_latest_active:
  assumes "dbb_wf cap s" "n \<le> cap" "n \<le> length out"
    and b: "nth_slot (slots s) (active_idx s) = Some b"
  shows "dbb_read_latest cap s (Some out) n = Some (True, Some (take n b @ drop n out))"
proof -
  have "length b = cap"
    using assms by (auto simp: dbb_wf_def nth_slot_def split: if_splits)
  then show ?thesis
    using assms by (simp add: dbb_read_latest_def mem_read_def mem_write_def blit_def)
qed

lemma dbb_active_ex:
  "dbb_wf cap s \<Longrightarrow> \<exists>b. nth_slot (slots s) (active_idx s) = Some b \<and> length b = cap"
  by (force simp: dbb_wf_def db_wf_def nth_slot_def)

section \<open>The interface: a cell that holds the latest value\<close>

text \<open>
  What the client relies on. \<open>store\<close> and \<open>fetch\<close> are total on well-formed states and on values
  that fit, and \<open>fetch\<close> returns what \<open>store\<close> put there last.
\<close>

locale latest_cell =
  fixes inv :: "'s \<Rightarrow> bool"
    and fits :: "'v \<Rightarrow> bool"
    and store :: "'v \<Rightarrow> 's \<Rightarrow> 's option"
    and fetch :: "'s \<Rightarrow> 'v option"
  assumes store_total: "inv s \<Longrightarrow> fits v \<Longrightarrow> \<exists>s'. store v s = Some s' \<and> inv s'"
    and fetch_store: "inv s \<Longrightarrow> fits v \<Longrightarrow> store v s = Some s' \<Longrightarrow> fetch s' = Some v"
    and fetch_fits: "inv s \<Longrightarrow> \<exists>v. fetch s = Some v \<and> fits v"
begin

primrec store_all :: "'v list \<Rightarrow> 's \<Rightarrow> 's option" where
  "store_all [] s = Some s"
| "store_all (v # vs) s = Option.bind (store v s) (store_all vs)"

lemma store_all_total:
  "inv s \<Longrightarrow> \<forall>v \<in> set vs. fits v \<Longrightarrow> \<exists>s'. store_all vs s = Some s' \<and> inv s'"
proof (induction vs arbitrary: s)
  case Nil
  then show ?case by simp
next
  case (Cons v vs)
  then obtain s1 where "store v s = Some s1" "inv s1"
    using store_total by force
  with Cons show ?case by simp
qed

lemma store_all_append:
  "store_all (us @ vs) s = Option.bind (store_all us s) (store_all vs)"
  by (induction us arbitrary: s) (auto split: Option.bind_splits)

lemma fetch_store_all:
  assumes "inv s" "\<forall>v \<in> set vs. fits v" "fits v"
  shows "\<exists>s'. store_all (vs @ [v]) s = Some s' \<and> inv s' \<and> fetch s' = Some v"
proof -
  obtain s1 where s1: "store_all vs s = Some s1" "inv s1"
    using store_all_total assms by blast
  obtain s2 where s2: "store v s1 = Some s2" "inv s2"
    using store_total s1 assms by blast
  have "fetch s2 = Some v"
    using fetch_store s1 s2 assms by blast
  with s1 s2 show ?thesis
    by (auto simp: store_all_append)
qed

lemma fetch_store_again:
  assumes "inv s" "fits u" "fits v" "store u s = Some s1" "store v s1 = Some s2"
  shows "fetch s2 = Some v"
  using assms fetch_store store_total by (metis option.inject)

end

text \<open>Both classes are such cells; for bytes, the cell of a payload size that does not exceed the
  capacity, which is how the client and the hardware interface use it.\<close>

interpretation value_cell: latest_cell db_wf "\<lambda>_. True" db_write db_read_latest
proof
  fix s :: "'a double_buffer" and v
  assume wf: "db_wf s"
  show "\<exists>s'. db_write v s = Some s' \<and> db_wf s'"
    using db_write_latest [OF wf] by blast
  show "db_read_latest s' = Some v" if "db_write v s = Some s'" for s'
    using db_write_latest [OF wf, of v] that by auto
  show "\<exists>v. db_read_latest s = Some v \<and> True"
    using wf by (cases rule: db_wfE) (auto simp: db_read_latest_def db_ops)
qed

definition dbb_store :: "nat \<Rightarrow> nat \<Rightarrow> bytes \<Rightarrow> bytes double_buffer \<Rightarrow> bytes double_buffer option"
where
  "dbb_store cap n v s =
     (case dbb_write cap (Some v) n s of Some (True, s') \<Rightarrow> Some s' | _ \<Rightarrow> None)"

definition dbb_fetch :: "nat \<Rightarrow> nat \<Rightarrow> bytes double_buffer \<Rightarrow> bytes option" where
  "dbb_fetch cap n s =
     (case dbb_read_latest cap s (Some (replicate n 0)) n of Some (True, Some b) \<Rightarrow> Some b | _ \<Rightarrow> None)"

lemma dbb_fetch_active:
  assumes "dbb_wf cap s" "n \<le> cap" "nth_slot (slots s) (active_idx s) = Some b"
  shows "dbb_fetch cap n s = Some (take n b)"
  using dbb_read_latest_active [of cap s n "replicate n 0" b] assms
  by (simp add: dbb_fetch_def)

interpretation byte_cell: latest_cell "\<lambda>s. dbb_wf cap s \<and> n \<le> cap" "\<lambda>v. length v = n"
  "dbb_store cap n" "dbb_fetch cap n" for cap n
proof
  fix s :: "bytes double_buffer" and v :: bytes
  assume wf: "dbb_wf cap s \<and> n \<le> cap"
  show "\<exists>v. dbb_fetch cap n s = Some v \<and> length v = n"
    using dbb_active_ex [of cap s] dbb_fetch_active [of cap s n] wf by fastforce
  assume v: "length v = n"
  obtain s1 b where s1: "dbb_write cap (Some v) n s = Some (True, s1)" "dbb_wf cap s1"
    "nth_slot (slots s1) (active_idx s1) = Some b" "take n b = v"
    using dbb_write_latest [of cap s n v] wf v by auto
  show "\<exists>s'. dbb_store cap n v s = Some s' \<and> dbb_wf cap s' \<and> n \<le> cap"
    using s1 wf by (simp add: dbb_store_def)
  show "dbb_fetch cap n s' = Some v" if "dbb_store cap n v s = Some s'" for s'
    using that s1 wf dbb_fetch_active [of cap s1 n b] by (simp add: dbb_store_def)
qed

section \<open>Concurrency: the writer outside the lock, the readers inside\<close>

text \<open>
  \<open>write\<close> takes the spinlock twice, to learn the inactive index and to publish it, and copies the
  payload between the two without the lock, byte by byte as far as other threads can tell. A
  reader holds the lock for its whole copy, so at most one reader is in its critical section and
  no index changes meanwhile, but bytes of the other slot may. A state is the buffer, the list of
  threads that write, the reader that holds the lock (if one does), and two ghost components: the
  payloads committed so far, and for each finished read the number of commits before it and the
  bytes it returned.
\<close>

datatype writer_pc = Writer_Idle | Copying int bytes nat

record buffer_sys =
  buf :: "bytes double_buffer"
  writers :: "writer_pc list"
  reader :: "bytes option"
  committed :: "bytes list"
  finished_reads :: "(nat \<times> bytes) list"

definition put_byte :: "bytes double_buffer \<Rightarrow> int \<Rightarrow> nat \<Rightarrow> byte \<Rightarrow> bytes double_buffer" where
  "put_byte s i k x = s\<lparr>slots := (slots s)[nat i := (slots s ! nat i)[k := x]]\<rparr>"

definition buffer_start :: "nat \<Rightarrow> nat \<Rightarrow> buffer_sys" where
  "buffer_start cap w =
     \<lparr>buf = dbb_reset cap, writers = replicate w Writer_Idle, reader = None,
      committed = [], finished_reads = []\<rparr>"

inductive buffer_step :: "nat \<Rightarrow> buffer_sys \<Rightarrow> buffer_sys \<Rightarrow> bool" for n :: nat where
  Prepare: "\<lbrakk>reader S = None; w < length (writers S); writers S ! w = Writer_Idle; length d = n;
             i = prepare_write (buf S)\<rbrakk> \<Longrightarrow>
            buffer_step n S (S\<lparr>writers := (writers S)[w := Copying i d 0]\<rparr>)"
| Copy: "\<lbrakk>w < length (writers S); writers S ! w = Copying i d k; k < length d\<rbrakk> \<Longrightarrow>
         buffer_step n S (S\<lparr>buf := put_byte (buf S) i k (d ! k),
                            writers := (writers S)[w := Copying i d (Suc k)]\<rparr>)"
| Commit: "\<lbrakk>reader S = None; w < length (writers S); writers S ! w = Copying i d k; k = length d\<rbrakk> \<Longrightarrow>
           buffer_step n S (S\<lparr>buf := commit_write i (buf S),
                              writers := (writers S)[w := Writer_Idle],
                              committed := committed S @ [d]\<rparr>)"
| Lock: "reader S = None \<Longrightarrow> buffer_step n S (S\<lparr>reader := Some []\<rparr>)"
| Read: "\<lbrakk>reader S = Some acc; length acc < n\<rbrakk> \<Longrightarrow>
         buffer_step n S
           (S\<lparr>reader := Some (acc @ [slots (buf S) ! nat (active_idx (buf S)) ! length acc])\<rparr>)"
| Unlock: "\<lbrakk>reader S = Some acc; length acc = n\<rbrakk> \<Longrightarrow>
           buffer_step n S
             (S\<lparr>reader := None,
               finished_reads := finished_reads S @ [(length (committed S), acc)]\<rparr>)"

inductive_cases buffer_stepE: "buffer_step n S S'"

text \<open>What a reader should see after \<open>k\<close> commits: the last of them, or the zeroed buffer.\<close>

definition published :: "nat \<Rightarrow> bytes list \<Rightarrow> bytes" where
  "published n cs = (if cs = [] then replicate n 0 else last cs)"

definition writer_ok :: "nat \<Rightarrow> bytes double_buffer \<Rightarrow> writer_pc \<Rightarrow> bool" where
  "writer_ok n s w =
     (case w of
        Writer_Idle \<Rightarrow> True
      | Copying i d k \<Rightarrow>
          i = active_idx s XOR 1 \<and> length d = n \<and> k \<le> n \<and> take k (slots s ! nat i) = take k d)"

definition single_writer_inv :: "nat \<Rightarrow> nat \<Rightarrow> buffer_sys \<Rightarrow> bool" where
  "single_writer_inv cap n S \<longleftrightarrow>
     n \<le> cap \<and> dbb_wf cap (buf S) \<and>
     (\<exists>w. writers S = [w] \<and> writer_ok n (buf S) w) \<and>
     take n (slots (buf S) ! nat (active_idx (buf S))) = published n (committed S) \<and>
     (\<forall>acc. reader S = Some acc \<longrightarrow>
        length acc \<le> n \<and> acc = take (length acc) (published n (committed S))) \<and>
     (\<forall>(k, bs) \<in> set (finished_reads S).
        k \<le> length (committed S) \<and> bs = published n (take k (committed S)))"

text \<open>The two halves of a well-formed buffer, and what the writer's steps do to them.\<close>

abbreviation cur_slot :: "bytes double_buffer \<Rightarrow> bytes" where
  "cur_slot s \<equiv> slots s ! nat (active_idx s)"

abbreviation oth_slot :: "bytes double_buffer \<Rightarrow> bytes" where
  "oth_slot s \<equiv> slots s ! nat (active_idx s XOR 1)"

lemma put_byte_other:
  fixes x :: byte
  assumes "dbb_wf cap s" "k < cap"
  defines "s' \<equiv> put_byte s (active_idx s XOR 1) k x"
  shows "dbb_wf cap s'" "cur_slot s' = cur_slot s" "oth_slot s' = (oth_slot s)[k := x]"
    "active_idx s' = active_idx s"
proof -
  have wf: "db_wf s" using assms by (simp add: dbb_wf_def)
  show "dbb_wf cap s'" using wf assms(1)
    by (cases rule: db_wfE) (auto simp: s'_def put_byte_def dbb_wf_def db_wf_def)
  show "cur_slot s' = cur_slot s" using wf by (cases rule: db_wfE) (auto simp: s'_def put_byte_def)
  show "oth_slot s' = (oth_slot s)[k := x]"
    using wf by (cases rule: db_wfE) (auto simp: s'_def put_byte_def)
  show "active_idx s' = active_idx s" by (simp add: s'_def put_byte_def)
qed

lemma commit_other:
  assumes "dbb_wf cap s"
  defines "s' \<equiv> commit_write (active_idx s XOR 1) s"
  shows "dbb_wf cap s'" "cur_slot s' = oth_slot s"
proof -
  have wf: "db_wf s" using assms by (simp add: dbb_wf_def)
  show "dbb_wf cap s'" using wf assms(1)
    by (cases rule: db_wfE) (auto simp: s'_def commit_write_def dbb_wf_def db_wf_def)
  show "cur_slot s' = oth_slot s" by (simp add: s'_def commit_write_def)
qed

lemma cur_oth_length:
  "dbb_wf cap s \<Longrightarrow> length (cur_slot s) = cap \<and> length (oth_slot s) = cap"
  by (auto simp: dbb_wf_def elim: db_wfE)

lemma take_Suc_update:
  "k < length xs \<Longrightarrow> k < length d \<Longrightarrow> take k xs = take k d \<Longrightarrow>
   take (Suc k) (xs[k := d ! k]) = take (Suc k) d"
  by (simp add: take_Suc_conv_app_nth)

lemma published_snoc [simp]: "published n (cs @ [c]) = c"
  by (simp add: published_def)

lemma single_writer_start:
  "n \<le> cap \<Longrightarrow> single_writer_inv cap n (buffer_start cap 1)"
  by (simp add: single_writer_inv_def buffer_start_def writer_ok_def published_def
      db_wf_reset dbb_reset_def dbb_wf_def db_wf_def numeral_nat)

lemma reads_grow:
  assumes "\<forall>(k, bs) \<in> set R. k \<le> length C \<and> bs = published n (take k C)"
  shows "\<forall>(k, bs) \<in> set R. k \<le> length (C @ [d]) \<and> bs = published n (take k (C @ [d]))"
  using assms by fastforce

lemma single_writer_step:
  assumes "buffer_step n S S'" "single_writer_inv cap n S"
  shows "single_writer_inv cap n S'"
proof -
  obtain w where n: "n \<le> cap" and wf: "dbb_wf cap (buf S)" and w: "writers S = [w]"
    and wok: "writer_ok n (buf S) w"
    and cur: "take n (cur_slot (buf S)) = published n (committed S)"
    using assms(2) by (auto simp: single_writer_inv_def)
  show ?thesis
    using assms(1)
  proof (cases rule: buffer_step.cases)
    case (Prepare v d i)
    with assms(2) w show ?thesis
      by (simp add: single_writer_inv_def writer_ok_def prepare_write_def)
  next
    case (Copy v i d k)
    have i: "i = active_idx (buf S) XOR 1" and d: "length d = n" "k < n"
      and pre: "take k (oth_slot (buf S)) = take k d"
      using Copy w wok by (auto simp: writer_ok_def)
    have k: "k < cap" using d n by simp
    note put = put_byte_other [OF wf k, of "d ! k", folded i]
    have "take (Suc k) (oth_slot (put_byte (buf S) i k (d ! k))) = take (Suc k) d"
      unfolding put(3) using d n pre cur_oth_length [OF wf] k
      by (intro take_Suc_update) (auto simp: i)
    then have "writer_ok n (put_byte (buf S) i k (d ! k)) (Copying i d (Suc k))"
      using d i put(4) by (simp add: writer_ok_def)
    with Copy w put(1,2) assms(2) show ?thesis
      by (simp add: single_writer_inv_def)
  next
    case (Commit v i d k)
    have i: "i = active_idx (buf S) XOR 1" and d: "length d = n"
      and pre: "take n (oth_slot (buf S)) = d"
      using Commit w wok by (auto simp: writer_ok_def)
    note com = commit_other [OF wf, folded i]
    have "take n (cur_slot (commit_write i (buf S))) = published n (committed S @ [d])"
      unfolding com(2) using pre i by simp
    moreover have "\<forall>(k, bs) \<in> set (finished_reads S). k \<le> length (committed S @ [d]) \<and>
        bs = published n (take k (committed S @ [d]))"
      using assms(2) by (intro reads_grow) (simp add: single_writer_inv_def)
    ultimately show ?thesis
      using Commit w com(1) n by (simp add: single_writer_inv_def writer_ok_def)
  next
    case Lock
    with assms(2) show ?thesis by (simp add: single_writer_inv_def)
  next
    case (Read acc)
    have len: "length (published n (committed S)) = n"
      using cur cur_oth_length [OF wf] n by (metis length_take min.absorb2)
    have "cur_slot (buf S) ! length acc = published n (committed S) ! length acc"
      using cur Read(3) by (metis nth_take)
    then have
      "acc @ [cur_slot (buf S) ! length acc] = take (Suc (length acc)) (published n (committed S))"
      using Read assms(2) len by (auto simp: single_writer_inv_def take_Suc_conv_app_nth)
    with Read assms(2) show ?thesis by (auto simp: single_writer_inv_def len)
  next
    case (Unlock acc)
    have "length (published n (committed S)) = n"
      using cur cur_oth_length [OF wf] n by (metis length_take min.absorb2)
    then have "acc = published n (committed S)"
      using Unlock assms(2) by (auto simp: single_writer_inv_def)
    with Unlock assms(2) show ?thesis by (simp add: single_writer_inv_def)
  qed
qed

lemma single_writer_reachable:
  "(buffer_step n)\<^sup>*\<^sup>* (buffer_start cap 1) S \<Longrightarrow> n \<le> cap \<Longrightarrow> single_writer_inv cap n S"
  by (induction rule: rtranclp_induct) (simp_all add: single_writer_start [simplified] single_writer_step)

text \<open>An executable view of the steps, for concrete runs.\<close>

datatype buffer_act = A_Prepare nat bytes | A_Copy nat | A_Commit nat | A_Lock | A_Read | A_Unlock

definition buffer_act :: "nat \<Rightarrow> buffer_act \<Rightarrow> buffer_sys \<Rightarrow> buffer_sys option" where
  "buffer_act n a S =
     (case a of
        A_Prepare w d \<Rightarrow>
          if reader S = None \<and> w < length (writers S) \<and> writers S ! w = Writer_Idle \<and> length d = n
          then Some (S\<lparr>writers := (writers S)[w := Copying (prepare_write (buf S)) d 0]\<rparr>) else None
      | A_Copy w \<Rightarrow>
          if w < length (writers S) then
            (case writers S ! w of
               Writer_Idle \<Rightarrow> None
             | Copying i d k \<Rightarrow>
                 if k < length d
                 then Some (S\<lparr>buf := put_byte (buf S) i k (d ! k),
                              writers := (writers S)[w := Copying i d (Suc k)]\<rparr>)
                 else None)
          else None
      | A_Commit w \<Rightarrow>
          if reader S = None \<and> w < length (writers S) then
            (case writers S ! w of
               Writer_Idle \<Rightarrow> None
             | Copying i d k \<Rightarrow>
                 if k = length d
                 then Some (S\<lparr>buf := commit_write i (buf S),
                              writers := (writers S)[w := Writer_Idle],
                              committed := committed S @ [d]\<rparr>)
                 else None)
          else None
      | A_Lock \<Rightarrow> if reader S = None then Some (S\<lparr>reader := Some []\<rparr>) else None
      | A_Read \<Rightarrow>
          (case reader S of
             None \<Rightarrow> None
           | Some acc \<Rightarrow>
               if length acc < n
               then Some (S\<lparr>reader := Some (acc @ [cur_slot (buf S) ! length acc])\<rparr>)
               else None)
      | A_Unlock \<Rightarrow>
          (case reader S of
             None \<Rightarrow> None
           | Some acc \<Rightarrow>
               if length acc = n
               then Some (S\<lparr>reader := None,
                            finished_reads := finished_reads S @ [(length (committed S), acc)]\<rparr>)
               else None))"

primrec buffer_run :: "nat \<Rightarrow> buffer_act list \<Rightarrow> buffer_sys \<Rightarrow> buffer_sys option" where
  "buffer_run n [] S = Some S"
| "buffer_run n (a # as) S = Option.bind (buffer_act n a S) (buffer_run n as)"

lemma buffer_act_step: "buffer_act n a S = Some S' \<Longrightarrow> buffer_step n S S'"
  by (auto simp: buffer_act_def split: buffer_act.splits if_splits option.splits writer_pc.splits
      intro: buffer_step.intros)

lemma buffer_run_steps: "buffer_run n as S = Some S' \<Longrightarrow> (buffer_step n)\<^sup>*\<^sup>* S S'"
  by (induction as arbitrary: S)
    (auto split: Option.bind_splits intro: converse_rtranclp_into_rtranclp buffer_act_step)

definition one_writer_run :: "buffer_act list" where
  "one_writer_run =
     [A_Prepare 0 [7], A_Lock, A_Copy 0, A_Read, A_Unlock, A_Commit 0, A_Lock, A_Read, A_Unlock]"

definition two_writers_run :: "buffer_act list" where
  "two_writers_run =
     [A_Prepare 0 [1, 1], A_Prepare 1 [2, 2], A_Copy 0, A_Copy 0, A_Copy 1, A_Commit 0,
      A_Lock, A_Read, A_Read, A_Unlock]"

section \<open>Properties\<close>

text \<open>C10: no torn and no stale read. With one writing thread, under every interleaving of its byte
  copies with the readers' copies, every read that finishes returns byte for byte the payload
  committed last before it finished (the zeroed buffer if there was none), although \<open>write\<close> copies
  outside the lock.\<close>

theorem single_writer_reads_latest:
  assumes "(buffer_step n)\<^sup>*\<^sup>* (buffer_start cap 1) S" and "n \<le> cap"
    and "(k, bs) \<in> set (finished_reads S)"
  shows "k \<le> length (committed S) \<and> bs = published n (take k (committed S))"
  using single_writer_reachable [OF assms(1,2)] assms(3) by (auto simp: single_writer_inv_def)

theorem single_writer_reads_latest_witness:
  "\<exists>S. buffer_run 1 one_writer_run (buffer_start 2 1) = Some S \<and>
       finished_reads S = [(0, [0]), (1, [7])] \<and> [7] = published 1 (take 1 (committed S))"
proof -
  obtain S where S: "buffer_run 1 one_writer_run (buffer_start 2 1) = Some S"
    "finished_reads S = [(0, [0]), (1, [7])]"
    by (simp add: one_writer_run_def buffer_act_def buffer_start_def dbb_reset_def
        prepare_write_def put_byte_def commit_write_def numeral_2_eq_2)
  have "(1 :: nat) \<le> 2" by simp
  from single_writer_reads_latest [OF buffer_run_steps [OF S(1)] this, of 1 "[7]"] S
  show ?thesis by simp
qed

text \<open>the buffer is safe for one writer only. With two writing threads there is an interleaving
  in which both are handed the same inactive slot, and a reader that follows the protocol gets a
  payload that nobody wrote.\<close>

theorem two_writers_torn_read:
  "\<exists>S k bs. (buffer_step 2)\<^sup>*\<^sup>* (buffer_start 2 2) S \<and> (k, bs) \<in> set (finished_reads S) \<and>
     bs = [2, 1] \<and> committed S = [[1, 1]]"
proof -
  obtain S where S: "buffer_run 2 two_writers_run (buffer_start 2 2) = Some S"
    "finished_reads S = [(1, [2, 1])]" "committed S = [[1, 1]]"
    by (simp add: two_writers_run_def buffer_act_def buffer_start_def dbb_reset_def
        prepare_write_def put_byte_def commit_write_def numeral_2_eq_2)
  with buffer_run_steps [OF S(1)] show ?thesis by auto
qed

text \<open>sequentially, \<open>DoubleByteBuffer\<close> is a cell. After any sequence of accepted writes of
  payloads of the same size, none of which can fail, \<open>read_latest\<close> returns the last payload.\<close>

theorem dbb_read_latest_after_writes:
  assumes "dbb_wf cap s" and "n \<le> cap" and "\<forall>v \<in> set vs. length v = n" and "length v = n"
  shows "\<exists>s'. byte_cell.store_all cap n (vs @ [v]) s = Some s' \<and> dbb_wf cap s' \<and>
           dbb_read_latest cap s' (Some (replicate n 0)) n = Some (True, Some v)"
proof -
  obtain s' where s': "byte_cell.store_all cap n (vs @ [v]) s = Some s'" "dbb_wf cap s'"
    "dbb_fetch cap n s' = Some v"
    using byte_cell.fetch_store_all [of cap s n vs v] assms by auto
  obtain b where b: "nth_slot (slots s') (active_idx s') = Some b"
    using dbb_active_ex [OF s'(2)] by blast
  have "take n b = v"
    using dbb_fetch_active [OF s'(2) assms(2) b] s'(3) by simp
  with dbb_read_latest_active [OF s'(2) assms(2) _ b, of "replicate n 0"] s' show ?thesis
    by auto
qed

theorem dbb_read_latest_after_writes_witness:
  "\<exists>s'. byte_cell.store_all 4 2 ([[1, 2]] @ [[3, 4]]) (dbb_reset 4) = Some s' \<and> dbb_wf 4 s' \<and>
        dbb_read_latest 4 s' (Some (replicate 2 0)) 2 = Some (True, Some [3, 4])"
  by (rule dbb_read_latest_after_writes) auto

end
