(* ===== verification/Cdr_Spec.thy ===== *)
theory Cdr_Spec
  imports Prelude
begin

text \<open>
  The abstract specification the Tier 1 serializer is measured against: the plain CDR encoding
  (little endian, alignment relative to the start of the encapsulated payload) of the two ROS 2
  messages the firmware exchanges, written the way a generic CDR encoder writes a message: one
  primitive after the other, each aligned to its own size, strings with their terminator and a
  length in front, sequences with their element count in front. Nothing here comes from
  \<open>serialization.c\<close>: templates, patching and precomputed offsets are its optimisation.
\<close>

named_theorems cdr_length \<open>how the encoders grow the payload\<close>

definition pad_to :: "nat \<Rightarrow> nat \<Rightarrow> nat" where
  "pad_to a n = (n + a - 1) div a * a"

definition zpad :: "nat \<Rightarrow> bytes \<Rightarrow> bytes" where
  "zpad a p = p @ replicate (pad_to a (length p) - length p) 0"

definition cdr_u32 :: "uint32 \<Rightarrow> bytes \<Rightarrow> bytes" where
  "cdr_u32 w p = zpad 4 p @ le32 w"

definition cdr_string :: "string \<Rightarrow> bytes \<Rightarrow> bytes" where
  "cdr_string s p = cdr_u32 (word_of_nat (length s + 1)) p @ c_str s"

definition cdr_strings :: "string list \<Rightarrow> bytes \<Rightarrow> bytes" where
  "cdr_strings ss p = fold cdr_string ss (cdr_u32 (word_of_nat (length ss)) p)"

definition cdr_f64 :: "f64 \<Rightarrow> bytes \<Rightarrow> bytes" where
  "cdr_f64 d p = zpad 8 p @ le64 d"

definition cdr_f64s :: "f64 list \<Rightarrow> bytes \<Rightarrow> bytes" where
  "cdr_f64s ds p = fold cdr_f64 ds (cdr_u32 (word_of_nat (length ds)) p)"

definition cdr_header :: "uint32 \<Rightarrow> uint32 \<Rightarrow> string \<Rightarrow> bytes" where
  "cdr_header sec nanosec frame = cdr_string frame (cdr_u32 nanosec (cdr_u32 sec []))"

text \<open>\<open>sensor_msgs/msg/JointState\<close> and \<open>control_msgs/msg/JointCommand\<close>.\<close>

record joint_state_msg =
  js_sec :: uint32
  js_nanosec :: uint32
  js_frame :: string
  js_names :: "string list"
  js_position :: "f64 list"
  js_velocity :: "f64 list"
  js_effort :: "f64 list"

record joint_command_msg =
  jc_sec :: uint32
  jc_nanosec :: uint32
  jc_frame :: string
  jc_names :: "string list"
  jc_interface :: string
  jc_values :: "f64 list"

definition cdr_joint_state :: "joint_state_msg \<Rightarrow> bytes" where
  "cdr_joint_state m =
     cdr_f64s (js_effort m) (cdr_f64s (js_velocity m) (cdr_f64s (js_position m)
       (cdr_strings (js_names m) (cdr_header (js_sec m) (js_nanosec m) (js_frame m)))))"

definition cdr_joint_command :: "joint_command_msg \<Rightarrow> bytes" where
  "cdr_joint_command m =
     cdr_f64s (jc_values m) (cdr_string (jc_interface m)
       (cdr_strings (jc_names m) (cdr_header (jc_sec m) (jc_nanosec m) (jc_frame m))))"

subsection \<open>Alignment\<close>

lemma pad_to_ge: "0 < a \<Longrightarrow> n \<le> pad_to a n"
proof -
  assume a: "0 < a"
  have "(n + a - 1) = (n + a - 1) div a * a + (n + a - 1) mod a" by simp
  moreover have "(n + a - 1) mod a \<le> a - 1"
    using a mod_less_divisor [of a "n + a - 1"] by linarith
  ultimately show ?thesis unfolding pad_to_def using a by linarith
qed

lemma pad_to_less: "0 < a \<Longrightarrow> pad_to a n < n + a"
  using div_times_less_eq_dividend [of "n + a - 1" a] unfolding pad_to_def by linarith

lemma dvd_pad_to [simp]: "a dvd pad_to a n"
  by (simp add: pad_to_def)

lemma pad_to_dvd:
  assumes "0 < a" and "a dvd n"
  shows "pad_to a n = n"
proof -
  obtain k where n: "n = a * k" using assms(2) by (rule dvdE)
  have "n + a - 1 = (a - 1) + a * k" using assms(1) n by simp
  moreover have "((a - 1) + a * k) div a = k"
    using assms(1) by (subst div_mult_self2) simp_all
  ultimately have "(n + a - 1) div a = k" by (simp only:)
  then show ?thesis by (simp add: pad_to_def n)
qed

lemma length_zpad [simp]: "0 < a \<Longrightarrow> length (zpad a p) = pad_to a (length p)"
  by (simp add: zpad_def pad_to_ge)

lemma zpad_aligned: "0 < a \<Longrightarrow> a dvd length p \<Longrightarrow> zpad a p = p"
  by (simp add: zpad_def pad_to_dvd)

subsection \<open>Every encoder appends, and what it appends depends on the length only\<close>

definition appends :: "(bytes \<Rightarrow> bytes) \<Rightarrow> bool" where
  "appends f \<longleftrightarrow> (\<exists>t. \<forall>p. f p = p @ t (length p))"

lemma appends_comp: "appends f \<Longrightarrow> appends g \<Longrightarrow> appends (\<lambda>p. f (g p))"
proof -
  assume "appends f" "appends g"
  then obtain s t where "\<And>p. f p = p @ s (length p)" "\<And>p. g p = p @ t (length p)"
    by (auto simp: appends_def)
  then have "f (g p) = p @ t (length p) @ s (length p + length (t (length p)))" for p
    by simp
  then show ?thesis unfolding appends_def
    by (intro exI [where x = "\<lambda>n. t n @ s (n + length (t n))"]) simp
qed

lemma appends_zpad: "appends (zpad a)"
  unfolding appends_def zpad_def
  by (intro exI [where x = "\<lambda>n. replicate (pad_to a n - n) 0"]) simp

lemma appends_const: "appends (\<lambda>p. p @ bs)"
  unfolding appends_def by (intro exI [where x = "\<lambda>n. bs"]) simp

lemma appends_cdr_u32: "appends (cdr_u32 w)"
  unfolding cdr_u32_def using appends_comp [OF appends_const appends_zpad] .

lemma appends_cdr_string: "appends (cdr_string s)"
  unfolding cdr_string_def using appends_comp [OF appends_const appends_cdr_u32] .

lemma appends_fold: "(\<And>x. appends (f x)) \<Longrightarrow> appends (fold f xs)"
proof (induction xs)
  case Nil
  then show ?case using appends_const [of "[]"] by (simp add: id_def)
next
  case (Cons x xs)
  then show ?case using appends_comp [of "fold f xs" "f x"] by (simp add: o_def)
qed

lemma appends_cdr_strings: "appends (cdr_strings ss)"
  unfolding cdr_strings_def
  using appends_comp [OF appends_fold [OF appends_cdr_string] appends_cdr_u32] .

lemma appends_length: "appends f \<Longrightarrow> length p \<le> length (f p)"
  by (auto simp: appends_def)

lemmas appends_intros =
  appends_zpad appends_const appends_cdr_u32 appends_cdr_string appends_cdr_strings

lemma cdr_grows [cdr_length]:
  "length p \<le> length (cdr_u32 w p)"
  "length p \<le> length (cdr_string s p)"
  "length p \<le> length (cdr_strings ss p)"
  "length p \<le> length (fold cdr_string ss p)"
  by (auto intro!: appends_length appends_fold simp: appends_intros)

subsection \<open>Sequences of doubles\<close>

text \<open>The layout with one alignment in front of the whole array, empty or not.\<close>

definition cdr_array :: "f64 list \<Rightarrow> bytes \<Rightarrow> bytes" where
  "cdr_array ds p = zpad 8 (cdr_u32 (word_of_nat (length ds)) p) @ le64s ds"

lemma fold_cdr_f64_aligned: "8 dvd length p \<Longrightarrow> fold cdr_f64 ds p = p @ le64s ds"
proof (induction ds arbitrary: p)
  case Nil
  then show ?case by simp
next
  case (Cons d ds)
  have "8 dvd length (p @ le64 d)" using Cons.prems by simp
  then show ?case using Cons by (simp add: cdr_f64_def zpad_aligned)
qed

lemma cdr_f64s_array: "ds \<noteq> [] \<Longrightarrow> cdr_f64s ds p = cdr_array ds p"
proof (cases ds)
  case (Cons d ds')
  let ?q = "cdr_u32 (word_of_nat (length ds)) p"
  have "8 dvd length (zpad 8 ?q @ le64 d)" by simp
  then show ?thesis
    using Cons by (simp add: cdr_f64s_def cdr_array_def cdr_f64_def fold_cdr_f64_aligned)
qed simp

lemma cdr_array_grows [cdr_length]: "length p \<le> length (cdr_array ds p)"
proof -
  have "length p \<le> length (cdr_u32 (word_of_nat (length ds)) p)" by (rule cdr_grows)
  also have "\<dots> \<le> pad_to 8 (length (cdr_u32 (word_of_nat (length ds)) p))" by (simp add: pad_to_ge)
  finally show ?thesis by (simp add: cdr_array_def)
qed

end
