(* ===== verification/Cdr_Serialization.thy ===== *)
theory Cdr_Serialization
  imports Cdr_Spec
begin

text \<open>
  \<open>zenbedded_transport/src/serialization.c\<close>: the Tier 1 wire format. A context of precomputed
  offsets and a template are laid down once (\<open>zcdr_init_*\<close>), then every message patches the time
  stamp and the arrays in place (\<open>zcdr_serialize_*\<close>), and incoming messages are read at the same
  offsets (\<open>zcdr_deserialize_*\<close>). The C functions write through \<open>out_buffer\<close> without a size: an
  access outside the caller's buffer is the result \<open>None\<close>.

  A writer state is the pair of the C variables \<open>cursor\<close> and \<open>out_buffer\<close>.
\<close>

section \<open>The code\<close>

type_synonym writer = "size_t \<times> bytes"

definition CDR_HEADER_SIZE :: size_t where "CDR_HEADER_SIZE = 4"

definition kCdrHeader :: bytes where "kCdrHeader = [0x00, 0x01, 0x00, 0x00]"

definition ALIGN_UP :: "size_t \<Rightarrow> size_t \<Rightarrow> size_t" where
  "ALIGN_UP offset alignment =
     CDR_HEADER_SIZE + (((offset - CDR_HEADER_SIZE) + alignment - 1) AND NOT (alignment - 1))"

text \<open>\<open>memcpy(&out_buffer[cursor], bs, n); cursor += n\<close>, \<open>cursor = ALIGN_UP(cursor, a)\<close> and
  \<open>cursor += n\<close>.\<close>

definition put :: "bytes \<Rightarrow> writer \<Rightarrow> writer option" where
  "put bs w = map_option (\<lambda>b. (fst w + word_of_nat (length bs), b)) (mem_write (snd w) (unat (fst w)) bs)"

definition align :: "size_t \<Rightarrow> writer \<Rightarrow> writer" where
  "align a w = (ALIGN_UP (fst w) a, snd w)"

definition skip :: "size_t \<Rightarrow> writer \<Rightarrow> writer" where
  "skip n w = (fst w + n, snd w)"

record zcdr_joint_state_ctx_t =
  num_joints :: uint32
  offset_timestamp :: size_t
  offset_position :: size_t
  offset_velocity :: size_t
  offset_effort :: size_t
  payload_size :: size_t

record zcdr_joint_command_ctx_t =
  c_num_joints :: uint32
  c_offset_timestamp :: size_t
  c_offset_values :: size_t
  c_payload_size :: size_t

text \<open>A nullable C string with its \<open>uint32_t\<close> length in front; the first occurrence (the frame id)
  is not aligned by the code, the cursor being a multiple of 4 there.\<close>

definition put_opt_string :: "string option \<Rightarrow> writer \<Rightarrow> writer option" where
  "put_opt_string so w = do {
     let len = (case so of Some s \<Rightarrow> word_of_nat (length s + 1) | None \<Rightarrow> (1 :: uint32));
     w \<leftarrow> put (le32 len) w;
     case so of Some s \<Rightarrow> put (take (unat len) (c_str s)) w | None \<Rightarrow> put [0] w
   }"

text \<open>The loop over \<open>joint_names[i]\<close>, \<open>i < num_joints\<close>; reading past the caller's array is \<open>None\<close>.\<close>

fun put_names :: "string list \<Rightarrow> nat \<Rightarrow> writer \<Rightarrow> writer option" where
  "put_names names 0 w = Some w"
| "put_names [] (Suc n) w = None"
| "put_names (s # names) (Suc n) w = do {
     let name_len = (word_of_nat (length s + 1) :: uint32);
     w \<leftarrow> put (le32 name_len) (align 4 w);
     w \<leftarrow> put (take (unat name_len) (c_str s)) w;
     put_names names n w
   }"

text \<open>The element count of a sequence of doubles, then the alignment of its first element.\<close>

definition put_count :: "uint32 \<Rightarrow> writer \<Rightarrow> writer option" where
  "put_count n w = map_option (align 8) (put (le32 n) (align 4 w))"

definition put_header :: "string option \<Rightarrow> string list \<Rightarrow> uint32 \<Rightarrow> bytes \<Rightarrow> (size_t \<times> writer) option" where
  "put_header frame_id joint_names n out_buffer = do {
     w \<leftarrow> put kCdrHeader (0, out_buffer);
     let ts = fst w;
     w \<leftarrow> put_opt_string frame_id (skip 8 w);
     w \<leftarrow> put (le32 n) (align 4 w);
     w \<leftarrow> put_names joint_names (unat n) w;
     Some (ts, w)
   }"

definition zcdr_init_joint_state ::
  "string option \<Rightarrow> string list \<Rightarrow> uint32 \<Rightarrow> bytes \<Rightarrow> (zcdr_joint_state_ctx_t \<times> bytes) option" where
  "zcdr_init_joint_state frame_id joint_names n out_buffer = do {
     (ts, w) \<leftarrow> put_header frame_id joint_names n out_buffer;
     w \<leftarrow> put_count n w;
     let position = fst w;
     w \<leftarrow> put_count n (skip (8 * n) w);
     let velocity = fst w;
     w \<leftarrow> put_count n (skip (8 * n) w);
     let effort = fst w;
     let w = skip (8 * n) w;
     Some (\<lparr>num_joints = n, offset_timestamp = ts, offset_position = position,
            offset_velocity = velocity, offset_effort = effort, payload_size = fst w\<rparr>, snd w)
   }"

definition zcdr_init_joint_command ::
  "string option \<Rightarrow> string list \<Rightarrow> uint32 \<Rightarrow> string option \<Rightarrow> bytes
     \<Rightarrow> (zcdr_joint_command_ctx_t \<times> bytes) option" where
  "zcdr_init_joint_command frame_id joint_names n interface_name out_buffer = do {
     (ts, w) \<leftarrow> put_header frame_id joint_names n out_buffer;
     w \<leftarrow> put_opt_string interface_name (align 4 w);
     w \<leftarrow> put_count n w;
     let values = fst w;
     let w = skip (8 * n) w;
     Some (\<lparr>c_num_joints = n, c_offset_timestamp = ts, c_offset_values = values,
            c_payload_size = fst w\<rparr>, snd w)
   }"

text \<open>Patching: a null array pointer leaves the bytes of the template; a source array shorter than
  the \<open>uint32_t\<close> product \<open>num_joints * 8\<close> says is read out of bounds.\<close>

definition patch_array :: "uint32 \<Rightarrow> size_t \<Rightarrow> f64 list option \<Rightarrow> bytes \<Rightarrow> bytes option" where
  "patch_array n off vs buf =
     (case vs of None \<Rightarrow> Some buf
      | Some ds \<Rightarrow> do {
          src \<leftarrow> mem_read (le64s ds) 0 (unat (n * 8));
          mem_write buf (unat off) src
        })"

definition patch_stamp :: "size_t \<Rightarrow> uint32 \<Rightarrow> uint32 \<Rightarrow> bytes \<Rightarrow> bytes option" where
  "patch_stamp off sec nanosec buf = do {
     buf \<leftarrow> mem_write buf (unat off) (le32 sec);
     mem_write buf (unat (off + 4)) (le32 nanosec)
   }"

definition zcdr_serialize_joint_state ::
  "zcdr_joint_state_ctx_t \<Rightarrow> uint32 \<Rightarrow> uint32 \<Rightarrow> f64 list option \<Rightarrow> f64 list option
     \<Rightarrow> f64 list option \<Rightarrow> bytes \<Rightarrow> bytes option" where
  "zcdr_serialize_joint_state ctx stamp_sec stamp_nanosec positions velocities efforts out_buffer = do {
     b \<leftarrow> patch_stamp (offset_timestamp ctx) stamp_sec stamp_nanosec out_buffer;
     b \<leftarrow> patch_array (num_joints ctx) (offset_position ctx) positions b;
     b \<leftarrow> patch_array (num_joints ctx) (offset_velocity ctx) velocities b;
     patch_array (num_joints ctx) (offset_effort ctx) efforts b
   }"

definition zcdr_serialize_joint_command ::
  "zcdr_joint_command_ctx_t \<Rightarrow> uint32 \<Rightarrow> uint32 \<Rightarrow> f64 list option \<Rightarrow> bytes \<Rightarrow> bytes option" where
  "zcdr_serialize_joint_command ctx stamp_sec stamp_nanosec values out_buffer = do {
     b \<leftarrow> patch_stamp (c_offset_timestamp ctx) stamp_sec stamp_nanosec out_buffer;
     patch_array (c_num_joints ctx) (c_offset_values ctx) values b
   }"

text \<open>Reading: each output pointer may be null (\<open>None\<close>); otherwise it is the caller's object, which
  the copy overwrites (\<open>None\<close> as a result when the caller's array is too short).\<close>

definition read_u32_to :: "uint32 option \<Rightarrow> bytes \<Rightarrow> size_t \<Rightarrow> uint32 option option" where
  "read_u32_to out buf off =
     (case out of None \<Rightarrow> Some None
      | Some _ \<Rightarrow> map_option (\<lambda>bs. Some (of_le32 bs)) (mem_read buf (unat off) 4))"

definition read_array_to ::
  "f64 list option \<Rightarrow> bytes \<Rightarrow> size_t \<Rightarrow> uint32 \<Rightarrow> f64 list option option" where
  "read_array_to out buf off n =
     (case out of None \<Rightarrow> Some None
      | Some ds \<Rightarrow> do {
          bs \<leftarrow> mem_read buf (unat off) (unat (n * 8));
          img \<leftarrow> mem_write (le64s ds) 0 bs;
          Some (Some (of_le64s (length ds) img))
        })"

record joint_state_out =
  out_stamp_sec :: "uint32 option"
  out_stamp_nanosec :: "uint32 option"
  out_positions :: "f64 list option"
  out_velocities :: "f64 list option"
  out_efforts :: "f64 list option"

definition zcdr_deserialize_joint_state ::
  "zcdr_joint_state_ctx_t \<Rightarrow> bytes \<Rightarrow> size_t \<Rightarrow> joint_state_out \<Rightarrow> (bool \<times> joint_state_out) option" where
  "zcdr_deserialize_joint_state ctx in_buffer buffer_size out =
     (if buffer_size < payload_size ctx then Some (False, out)
      else do {
        sec \<leftarrow> read_u32_to (out_stamp_sec out) in_buffer (offset_timestamp ctx);
        nanosec \<leftarrow> read_u32_to (out_stamp_nanosec out) in_buffer (offset_timestamp ctx + 4);
        p \<leftarrow> read_array_to (out_positions out) in_buffer (offset_position ctx) (num_joints ctx);
        v \<leftarrow> read_array_to (out_velocities out) in_buffer (offset_velocity ctx) (num_joints ctx);
        e \<leftarrow> read_array_to (out_efforts out) in_buffer (offset_effort ctx) (num_joints ctx);
        Some (True, \<lparr>out_stamp_sec = sec, out_stamp_nanosec = nanosec, out_positions = p,
                     out_velocities = v, out_efforts = e\<rparr>)
      })"

record joint_command_out =
  c_out_stamp_sec :: "uint32 option"
  c_out_stamp_nanosec :: "uint32 option"
  c_out_values :: "f64 list option"

definition zcdr_deserialize_joint_command ::
  "zcdr_joint_command_ctx_t \<Rightarrow> bytes \<Rightarrow> size_t \<Rightarrow> joint_command_out \<Rightarrow> (bool \<times> joint_command_out) option" where
  "zcdr_deserialize_joint_command ctx in_buffer buffer_size out =
     (if buffer_size < c_payload_size ctx then Some (False, out)
      else do {
        sec \<leftarrow> read_u32_to (c_out_stamp_sec out) in_buffer (c_offset_timestamp ctx);
        nanosec \<leftarrow> read_u32_to (c_out_stamp_nanosec out) in_buffer (c_offset_timestamp ctx + 4);
        v \<leftarrow> read_array_to (c_out_values out) in_buffer (c_offset_values ctx) (c_num_joints ctx);
        Some (True, \<lparr>c_out_stamp_sec = sec, c_out_stamp_nanosec = nanosec, c_out_values = v\<rparr>)
      })"

section \<open>Cursor arithmetic\<close>

lemma unat_and_not_mask:
  "unat (x AND NOT (mask n) :: 'a::len word) = unat x div 2 ^ n * 2 ^ n"
proof -
  have "x AND NOT (mask n) = push_bit n (drop_bit n x)"
    by (rule bit_eqI) (auto simp: bit_simps)
  then have "unat (x AND NOT (mask n)) =
      take_bit LENGTH('a) (push_bit n (drop_bit n (take_bit LENGTH('a) (unat x))))"
    by (simp only: unsigned_push_bit_eq unsigned_drop_bit_eq)
  moreover have "take_bit LENGTH('a) (unat x) = unat x"
    by (rule take_bit_nat_eq_self) (rule unsigned_less)
  ultimately have "unat (x AND NOT (mask n)) = take_bit LENGTH('a) (unat x div 2 ^ n * 2 ^ n)"
    by (simp add: push_bit_eq_mult drop_bit_eq_div)
  moreover have "unat x div 2 ^ n * 2 ^ n < 2 ^ LENGTH('a)"
    using unsigned_less [of x] by (metis div_times_less_eq_dividend order.strict_trans1)
  ultimately show ?thesis by (simp add: take_bit_nat_eq_self)
qed

text \<open>The macro rounds the offset into the encapsulated payload up to the next multiple.\<close>

lemma ALIGN_UP_pow2:
  assumes c: "c = word_of_nat (4 + n)" and a: "a = 2 ^ k" and k3: "k \<le> 3" and n: "n + 16 < 2 ^ 32"
  shows "ALIGN_UP c (word_of_nat a) = word_of_nat (4 + pad_to a n)"
proof -
  have k: "k = 0 \<or> k = 1 \<or> k = 2 \<or> k = 3" using k3 by auto
  have a8: "a \<le> 8" "1 \<le> a" using k a by auto
  have n': "n + 16 < 4294967296" using n by simp
  have c4: "c - 4 = word_of_nat n" by (simp add: c)
  have m: "(word_of_nat a :: size_t) - 1 = mask k"
    using k a by (auto simp: mask_eq_exp_minus_1)
  have s: "(c - 4) + word_of_nat a - 1 = (word_of_nat (n + a - 1) :: size_t)"
    using a8 by (simp add: c4 of_nat_diff)
  have "unat (((c - 4) + word_of_nat a - 1) AND NOT (word_of_nat a - 1)) = pad_to a n"
    unfolding m s unat_and_not_mask pad_to_def using a n' a8 by (simp add: unat_of_nat)
  then have "((c - 4) + word_of_nat a - 1) AND NOT (word_of_nat a - 1) = word_of_nat (pad_to a n)"
    by (metis of_nat_unat unsigned_word_eqI ucast_id)
  then show ?thesis by (simp add: ALIGN_UP_def CDR_HEADER_SIZE_def)
qed

end
