(* ===== verification/Cdr_Refinement.thy ===== *)
theory Cdr_Refinement
  imports Cdr_Serialization
begin

text \<open>
  The serializer implements the CDR specification. \<open>wr N p\<close> is the writer state that corresponds
  to the abstract payload \<open>p\<close> in a zeroed buffer of \<open>N\<close> bytes; every step of the C code maps
  \<open>wr N p\<close> to \<open>wr N (f p)\<close> for the specification's step \<open>f\<close>.
\<close>

section \<open>Writer states of abstract payloads\<close>

named_theorems wr_simps \<open>the code's writer steps on abstract payloads\<close>

definition wr :: "nat \<Rightarrow> bytes \<Rightarrow> writer" where
  "wr N p = (word_of_nat (4 + length p), kCdrHeader @ p @ replicate (N - (4 + length p)) 0)"

definition fits :: "nat \<Rightarrow> bytes \<Rightarrow> bool" where
  "fits N p \<longleftrightarrow> 4 + length p \<le> N \<and> N \<le> 2 ^ 31"

lemma length_kCdrHeader [simp]: "length kCdrHeader = 4"
  by (simp add: kCdrHeader_def)

lemma fitsD: "fits N q \<Longrightarrow> length p \<le> length q \<Longrightarrow> fits N p"
  by (auto simp: fits_def)

lemma unat_fits: "fits N p \<Longrightarrow> unat (word_of_nat (4 + length p) :: size_t) = 4 + length p"
  by (rule unat_word32_of_nat) (simp add: fits_def)

lemma replicate_split: "k \<le> n \<Longrightarrow> replicate n x = replicate k x @ replicate (n - k) x"
  by (simp flip: replicate_add)

lemma put_wr [wr_simps]:
  assumes "fits N (p @ bs)"
  shows "put bs (wr N p) = Some (wr N (p @ bs))"
proof -
  let ?r = "replicate (length bs) (0 :: byte)" and ?s = "replicate (N - (4 + length p) - length bs) (0 :: byte)"
  have split: "replicate (N - (4 + length p)) (0 :: byte) = ?r @ ?s"
    using assms by (intro replicate_split) (auto simp: fits_def)
  have "fits N p" using assms by (rule fitsD) simp
  then have off: "unat (word_of_nat (4 + length p) :: size_t) = length (kCdrHeader @ p)"
    by (simp only: unat_fits length_append length_kCdrHeader)
  have "mem_write ((kCdrHeader @ p) @ ?r @ ?s) (unat (word_of_nat (4 + length p) :: size_t)) bs
      = Some ((kCdrHeader @ p) @ bs @ ?s)"
    by (rule mem_write_append) (simp_all only: off length_replicate)
  moreover have "N - (4 + length p) - length bs = N - (4 + length (p @ bs))" by simp
  ultimately show ?thesis
    by (simp only: put_def wr_def fst_conv snd_conv split append_assoc option.map
        length_append of_nat_add add.assoc)
qed

lemma align_wr:
  assumes "fits N (zpad (2 ^ k) p)" and "k \<le> 3"
  shows "align (word_of_nat (2 ^ k)) (wr N p) = wr N (zpad (2 ^ k) p)"
proof -
  let ?d = "pad_to (2 ^ k) (length p) - length p"
  have len: "4 + length (zpad (2 ^ k) p) \<le> N" and N: "N \<le> 2 ^ 31" using assms(1) by (auto simp: fits_def)
  have ge: "length p \<le> pad_to (2 ^ k) (length p)" by (simp add: pad_to_ge)
  with len N have small: "length p + 16 < 2 ^ 32" by simp
  have split: "replicate (N - (4 + length p)) (0 :: byte)
      = replicate ?d 0 @ replicate (N - (4 + length p) - ?d) 0"
    using len ge by (intro replicate_split) simp
  have "N - (4 + length p) - ?d = N - (4 + length (zpad (2 ^ k) p))" using ge len by simp
  then show ?thesis
    by (simp only: align_def wr_def fst_conv snd_conv split zpad_def append_assoc
        ALIGN_UP_pow2 [OF refl refl assms(2) small] length_append length_replicate
        le_add_diff_inverse [OF ge])
qed

lemma align_4_wr [wr_simps]: "fits N (zpad 4 p) \<Longrightarrow> align 4 (wr N p) = wr N (zpad 4 p)"
  using align_wr [of N 2 p] by simp

lemma align_8_wr [wr_simps]: "fits N (zpad 8 p) \<Longrightarrow> align 8 (wr N p) = wr N (zpad 8 p)"
  using align_wr [of N 3 p] by simp

lemma skip_wr:
  assumes "fits N (p @ replicate k 0)" and "x = word_of_nat k"
  shows "skip x (wr N p) = wr N (p @ replicate k 0)"
proof -
  have split: "replicate (N - (4 + length p)) (0 :: byte)
      = replicate k 0 @ replicate (N - (4 + length p) - k) 0"
    using assms(1) by (intro replicate_split) (auto simp: fits_def)
  have "N - (4 + length p) - k = N - (4 + length (p @ replicate k 0))" by simp
  then show ?thesis by (simp only: skip_def wr_def fst_conv snd_conv split assms(2)
      append_assoc length_append length_replicate of_nat_add add.assoc)
qed

section \<open>Strings, names, counts and arrays\<close>

definition opt_str :: "string option \<Rightarrow> string" where
  "opt_str so = (case so of Some s \<Rightarrow> s | None \<Rightarrow> '''')"

lemma put_u32_wr [wr_simps]:
  assumes "fits N (cdr_u32 v p)"
  shows "put (le32 v) (align 4 (wr N p)) = Some (wr N (cdr_u32 v p))"
proof -
  have "fits N (zpad 4 p)" using assms by (rule fitsD) (simp add: cdr_u32_def)
  then show ?thesis using assms by (simp add: wr_simps cdr_u32_def)
qed

lemma string_len_ok:
  assumes "fits N (cdr_string s p)"
  shows "take (unat (word_of_nat (length s + 1) :: uint32)) (c_str s) = c_str s"
proof -
  have "length s + 1 \<le> length (cdr_string s p)" by (simp add: cdr_string_def)
  then have "length s + 1 < 2 ^ 32" using assms by (simp add: fits_def)
  then have "unat (word_of_nat (length s + 1) :: uint32) = length s + 1" by (rule unat_word32_of_nat)
  then show ?thesis by (simp only: length_c_str [symmetric] take_all order_refl)
qed

lemma put_opt_string_wr [wr_simps]:
  assumes "fits N (cdr_string (opt_str so) p)"
  shows "put_opt_string so (align 4 (wr N p)) = Some (wr N (cdr_string (opt_str so) p))"
proof -
  have f: "fits N (cdr_u32 (word_of_nat (length (opt_str so) + 1)) p)"
    using assms by (rule fitsD) (simp add: cdr_string_def)
  have e: "c_str [] = [0]" by (simp add: c_str_def)
  show ?thesis
  proof (cases so)
    case None
    then show ?thesis using f assms
      by (simp add: put_opt_string_def opt_str_def wr_simps cdr_string_def e)
  next
    case (Some s)
    then show ?thesis using f assms string_len_ok [of N s p]
      by (simp add: put_opt_string_def opt_str_def wr_simps cdr_string_def)
  qed
qed

lemma put_names_wr [wr_simps]:
  assumes "fits N (fold cdr_string (take n names) p)" and "n \<le> length names"
  shows "put_names names n (wr N p) = Some (wr N (fold cdr_string (take n names) p))"
  using assms
proof (induction names n "wr N p" arbitrary: p rule: put_names.induct)
  case (3 s names n)
  let ?q = "cdr_string s p"
  have q: "fits N ?q" using "3.prems"(1) by (rule fitsD) (simp add: cdr_length)
  then have u: "fits N (cdr_u32 (word_of_nat (length s + 1)) p)"
    by (rule fitsD) (simp add: cdr_string_def)
  have "put (c_str s) (wr N (cdr_u32 (word_of_nat (length s + 1)) p)) = Some (wr N ?q)"
    using q put_wr [of N "cdr_u32 (word_of_nat (length s + 1)) p" "c_str s"] by (simp add: cdr_string_def)
  then show ?case using u "3.prems" string_len_ok [OF q] "3.hyps"
    by (simp add: put_u32_wr)
qed (simp_all add: wr_simps)

lemma put_count_wr [wr_simps]:
  assumes "fits N (zpad 8 (cdr_u32 n p))"
  shows "put_count n (wr N p) = Some (wr N (zpad 8 (cdr_u32 n p)))"
proof -
  have "fits N (cdr_u32 n p)" using assms by (rule fitsD) (simp add: pad_to_ge)
  then show ?thesis using assms by (simp add: put_count_def wr_simps)
qed

section \<open>Layouts\<close>

text \<open>The messages as the code lays them out: every array is preceded by the alignment of its
  elements, whether it has elements or not. For a non-empty array this is the CDR encoding.\<close>

definition js_names_part :: "joint_state_msg \<Rightarrow> bytes" where
  "js_names_part m = cdr_strings (js_names m) (cdr_header (js_sec m) (js_nanosec m) (js_frame m))"

definition lay_joint_state :: "joint_state_msg \<Rightarrow> bytes" where
  "lay_joint_state m =
     cdr_array (js_effort m) (cdr_array (js_velocity m) (cdr_array (js_position m) (js_names_part m)))"

definition jc_names_part :: "joint_command_msg \<Rightarrow> bytes" where
  "jc_names_part m = cdr_string (jc_interface m)
     (cdr_strings (jc_names m) (cdr_header (jc_sec m) (jc_nanosec m) (jc_frame m)))"

definition lay_joint_command :: "joint_command_msg \<Rightarrow> bytes" where
  "lay_joint_command m = cdr_array (jc_values m) (jc_names_part m)"

definition js_wf :: "uint32 \<Rightarrow> joint_state_msg \<Rightarrow> bool" where
  "js_wf n m \<longleftrightarrow> length (js_names m) = unat n \<and> length (js_position m) = unat n \<and>
     length (js_velocity m) = unat n \<and> length (js_effort m) = unat n"

definition jc_wf :: "uint32 \<Rightarrow> joint_command_msg \<Rightarrow> bool" where
  "jc_wf n m \<longleftrightarrow> length (jc_names m) = unat n \<and> length (jc_values m) = unat n"

lemma lay_joint_state_cdr: "js_wf n m \<Longrightarrow> n \<noteq> 0 \<Longrightarrow> lay_joint_state m = cdr_joint_state m"
  by (simp add: lay_joint_state_def cdr_joint_state_def js_names_part_def js_wf_def
      cdr_f64s_array unat_eq_zero flip: length_greater_0_conv unat_gt_0)

lemma lay_joint_command_cdr: "jc_wf n m \<Longrightarrow> n \<noteq> 0 \<Longrightarrow> lay_joint_command m = cdr_joint_command m"
  by (simp add: lay_joint_command_def cdr_joint_command_def jc_names_part_def jc_wf_def
      cdr_f64s_array unat_eq_zero flip: length_greater_0_conv unat_gt_0)

text \<open>The template a freshly initialised buffer holds.\<close>

definition js_template :: "string option \<Rightarrow> string list \<Rightarrow> uint32 \<Rightarrow> joint_state_msg" where
  "js_template frame_id names n =
     \<lparr>js_sec = 0, js_nanosec = 0, js_frame = opt_str frame_id, js_names = take (unat n) names,
      js_position = replicate (unat n) 0, js_velocity = replicate (unat n) 0,
      js_effort = replicate (unat n) 0\<rparr>"

definition jc_template ::
  "string option \<Rightarrow> string list \<Rightarrow> uint32 \<Rightarrow> string option \<Rightarrow> joint_command_msg" where
  "jc_template frame_id names n interface_name =
     \<lparr>jc_sec = 0, jc_nanosec = 0, jc_frame = opt_str frame_id, jc_names = take (unat n) names,
      jc_interface = opt_str interface_name, jc_values = replicate (unat n) 0\<rparr>"

text \<open>The offset of the elements of an array that follows the payload \<open>p\<close>.\<close>

definition array_off :: "uint32 \<Rightarrow> bytes \<Rightarrow> size_t" where
  "array_off n p = word_of_nat (4 + length (zpad 8 (cdr_u32 n p)))"

definition js_ctx :: "uint32 \<Rightarrow> joint_state_msg \<Rightarrow> zcdr_joint_state_ctx_t" where
  "js_ctx n m =
     \<lparr>num_joints = n, offset_timestamp = 4,
      offset_position = array_off n (js_names_part m),
      offset_velocity = array_off n (cdr_array (js_position m) (js_names_part m)),
      offset_effort = array_off n (cdr_array (js_velocity m) (cdr_array (js_position m) (js_names_part m))),
      payload_size = word_of_nat (4 + length (lay_joint_state m))\<rparr>"

definition jc_ctx :: "uint32 \<Rightarrow> joint_command_msg \<Rightarrow> zcdr_joint_command_ctx_t" where
  "jc_ctx n m =
     \<lparr>c_num_joints = n, c_offset_timestamp = 4, c_offset_values = array_off n (jc_names_part m),
      c_payload_size = word_of_nat (4 + length (lay_joint_command m))\<rparr>"

section \<open>Initialisation lays down the template\<close>

lemma put_header_wr:
  assumes n: "unat n \<le> length names"
    and fit: "fits N (cdr_strings (take (unat n) names) (cdr_header 0 0 (opt_str frame_id)))"
  shows "put_header frame_id names n (replicate N 0) =
     Some (4, wr N (cdr_strings (take (unat n) names) (cdr_header 0 0 (opt_str frame_id))))"
proof -
  let ?z = "replicate 8 0 :: bytes" and ?h = "cdr_header 0 0 (opt_str frame_id)"
  let ?c = "cdr_u32 n ?h"
  have len: "length (take (unat n) names) = unat n" using n by simp
  have "(cdr_u32 0 [] :: bytes) = replicate 4 0"
    by (simp add: cdr_u32_def zpad_def pad_to_def le32_def le_encode_0)
  then have z: "cdr_u32 0 (cdr_u32 0 []) = ?z"
    by (simp add: cdr_u32_def zpad_def pad_to_def le32_def le_encode_0 flip: replicate_add)
  then have h: "?h = cdr_string (opt_str frame_id) ?z" by (simp add: cdr_header_def)
  have f: "fits N ?c" using fit unfolding cdr_strings_def len of_nat_unat ucast_id
    by (rule fitsD) (rule cdr_length)
  then have fh: "fits N ?h" by (rule fitsD) (rule cdr_length)
  then have f8: "fits N ?z" by (rule fitsD) (use cdr_grows(2) [of ?z] h in simp)
  then have f0: "fits N []" and N4: "4 \<le> N" by (auto simp: fits_def)
  have "put kCdrHeader (0, replicate N 0) = Some (wr N [])"
    using N4 by (simp add: put_def wr_def mem_write_def blit_def)
  moreover have "skip 8 (wr N []) = wr N ?z"
    using f8 by (subst skip_wr [where k = 8]) simp_all
  moreover have "wr N ?z = align 4 (wr N ?z)"
    using f8 align_4_wr [of N ?z] by (simp add: zpad_aligned)
  then have "put_opt_string frame_id (wr N ?z) = Some (wr N ?h)"
    using put_opt_string_wr [of N frame_id ?z] fh by (simp add: h)
  moreover have "fst (wr N []) = 4" by (simp add: wr_def)
  ultimately show ?thesis
    using f fit n by (simp add: put_header_def put_u32_wr put_names_wr cdr_strings_def min_absorb2)
qed

lemma cdr_array_zeros:
  "cdr_array (replicate (unat n) 0) p = zpad 8 (cdr_u32 n p) @ replicate (8 * unat n) 0"
  by (simp add: cdr_array_def le64s_zeros)

text \<open>One array of the template: count, alignment, room for the elements.\<close>

lemma skip_array_wr:
  assumes "fits N (cdr_array (replicate (unat n) 0) p)"
  shows "skip (8 * n) (wr N (zpad 8 (cdr_u32 n p))) = wr N (cdr_array (replicate (unat n) 0) p)"
proof -
  have "word_of_nat (8 * unat n) = 8 * (n :: uint32)" by simp
  then show ?thesis using assms unfolding cdr_array_zeros by (intro skip_wr) simp_all
qed

lemma fits_array_count:
  "fits N (cdr_array (replicate (unat n) 0) p) \<Longrightarrow> fits N (zpad 8 (cdr_u32 n p))"
  by (erule fitsD) (simp add: cdr_array_zeros)

lemma fits_array: "fits N (cdr_array ds p) \<Longrightarrow> fits N p"
  by (erule fitsD) (rule cdr_array_grows)

lemma fst_wr: "fst (wr N p) = word_of_nat (4 + length p)"
  and snd_wr: "snd (wr N p) = kCdrHeader @ p @ replicate (N - (4 + length p)) 0"
  by (simp_all add: wr_def)

theorem zcdr_init_joint_state_layout:
  assumes "unat n \<le> length names" and fit: "fits N (lay_joint_state (js_template frame_id names n))"
  shows "zcdr_init_joint_state frame_id names n (replicate N 0) =
     Some (js_ctx n (js_template frame_id names n),
           kCdrHeader @ lay_joint_state (js_template frame_id names n) @
             replicate (N - (4 + length (lay_joint_state (js_template frame_id names n)))) 0)"
proof -
  let ?m = "js_template frame_id names n"
  let ?a = "js_names_part ?m"
  let ?b = "cdr_array (js_position ?m) ?a"
  let ?c = "cdr_array (js_velocity ?m) ?b"
  have z: "js_position ?m = replicate (unat n) 0" "js_velocity ?m = replicate (unat n) 0"
    "js_effort ?m = replicate (unat n) 0" by (simp_all add: js_template_def)
  have lay: "lay_joint_state ?m = cdr_array (replicate (unat n) 0) ?c"
    by (simp add: lay_joint_state_def z)
  have a: "?a = cdr_strings (take (unat n) names) (cdr_header 0 0 (opt_str frame_id))"
    by (simp add: js_names_part_def js_template_def)
  have fd: "fits N (cdr_array (replicate (unat n) 0) ?c)" using fit by (simp add: lay)
  then have fc: "fits N ?c" by (rule fits_array)
  then have fb: "fits N ?b" by (rule fits_array)
  then have fa: "fits N ?a" by (rule fits_array)
  note fcs = fd fc [unfolded z(2)] fb [unfolded z(1)]
  have hd: "put_header frame_id names n (replicate N 0) = Some (4, wr N ?a)"
    using assms(1) fa unfolding a by (rule put_header_wr)
  show ?thesis
    using fcs fcs [THEN fits_array_count]
    by (simp add: zcdr_init_joint_state_def hd put_count_wr skip_array_wr js_ctx_def lay z
        fst_wr snd_wr array_off_def)
qed

theorem zcdr_init_joint_command_layout:
  assumes "unat n \<le> length names"
    and fit: "fits N (lay_joint_command (jc_template frame_id names n interface_name))"
  shows "zcdr_init_joint_command frame_id names n interface_name (replicate N 0) =
     Some (jc_ctx n (jc_template frame_id names n interface_name),
           kCdrHeader @ lay_joint_command (jc_template frame_id names n interface_name) @
             replicate (N - (4 + length (lay_joint_command (jc_template frame_id names n interface_name)))) 0)"
proof -
  let ?m = "jc_template frame_id names n interface_name"
  let ?h = "cdr_strings (take (unat n) names) (cdr_header 0 0 (opt_str frame_id))"
  let ?a = "cdr_string (opt_str interface_name) ?h"
  have a: "jc_names_part ?m = ?a" by (simp add: jc_names_part_def jc_template_def)
  have lay: "lay_joint_command ?m = cdr_array (replicate (unat n) 0) ?a"
    by (simp add: lay_joint_command_def a) (simp add: jc_template_def)
  have fd: "fits N (cdr_array (replicate (unat n) 0) ?a)" using fit by (simp add: lay)
  then have fa: "fits N ?a" by (rule fits_array)
  then have fh: "fits N ?h" by (rule fitsD) (rule cdr_length)
  show ?thesis
    using fd fits_array_count [OF fd] fa
    by (simp add: zcdr_init_joint_command_def put_header_wr [OF assms(1) fh] put_opt_string_wr
        put_count_wr skip_array_wr jc_ctx_def lay a fst_wr snd_wr array_off_def)
qed

section \<open>Serialising patches the message in place\<close>

definition pick :: "uint32 \<Rightarrow> f64 list option \<Rightarrow> f64 list \<Rightarrow> f64 list" where
  "pick n vs old = (case vs of None \<Rightarrow> old | Some ds \<Rightarrow> take (unat n) ds)"

definition array_ok :: "uint32 \<Rightarrow> f64 list option \<Rightarrow> bool" where
  "array_ok n vs \<longleftrightarrow> (case vs of None \<Rightarrow> True | Some ds \<Rightarrow> unat n \<le> length ds)"

definition js_patch ::
  "uint32 \<Rightarrow> uint32 \<Rightarrow> uint32 \<Rightarrow> f64 list option \<Rightarrow> f64 list option \<Rightarrow> f64 list option
     \<Rightarrow> joint_state_msg \<Rightarrow> joint_state_msg" where
  "js_patch n sec nanosec p v e m =
     m\<lparr>js_sec := sec, js_nanosec := nanosec, js_position := pick n p (js_position m),
       js_velocity := pick n v (js_velocity m), js_effort := pick n e (js_effort m)\<rparr>"

definition jc_patch ::
  "uint32 \<Rightarrow> uint32 \<Rightarrow> uint32 \<Rightarrow> f64 list option \<Rightarrow> joint_command_msg \<Rightarrow> joint_command_msg" where
  "jc_patch n sec nanosec v m =
     m\<lparr>jc_sec := sec, jc_nanosec := nanosec, jc_values := pick n v (jc_values m)\<rparr>"

lemma length_pick: "array_ok n vs \<Longrightarrow> length old = unat n \<Longrightarrow> length (pick n vs old) = unat n"
  by (auto simp: pick_def array_ok_def split: option.splits)

lemma js_wf_patch:
  "js_wf n m \<Longrightarrow> array_ok n p \<Longrightarrow> array_ok n v \<Longrightarrow> array_ok n e \<Longrightarrow> js_wf n (js_patch n sec ns p v e m)"
  by (simp add: js_wf_def js_patch_def length_pick)

lemma jc_wf_patch: "jc_wf n m \<Longrightarrow> array_ok n v \<Longrightarrow> jc_wf n (jc_patch n sec ns v m)"
  by (simp add: jc_wf_def jc_patch_def length_pick)

lemma unat_times_8:
  assumes "8 * unat n < 2 ^ 32"
  shows "unat (n * 8 :: uint32) = 8 * unat n"
proof -
  have "unat n * unat (8 :: uint32) < 2 ^ LENGTH(32)" using assms by simp
  then show ?thesis unfolding unat_mult_lem by simp
qed

lemma le64s_append: "le64s (xs @ ys) = le64s xs @ le64s ys"
  by (simp add: le64s_def)

lemma take_le64s: "take (8 * n) (le64s ds) = le64s (take n ds)"
proof (induction n arbitrary: ds)
  case (Suc n)
  then show ?case by (cases ds) simp_all
qed simp

lemma patch_array_at:
  assumes "off = word_of_nat (length xs)" and "length xs < 2 ^ 32" and "8 * unat n < 2 ^ 32"
    and "array_ok n vs" and "length old = unat n"
  shows "patch_array n off vs (xs @ le64s old @ ys) = Some (xs @ le64s (pick n vs old) @ ys)"
proof (cases vs)
  case (Some ds)
  then have n: "unat n \<le> length ds" using assms(4) by (simp add: array_ok_def)
  have off: "unat off = length xs" using assms(1,2) by (simp add: unat_of_nat)
  have "mem_write (xs @ le64s old @ ys) (unat off) (le64s (take (unat n) ds))
      = Some (xs @ le64s (take (unat n) ds) @ ys)"
    using off n assms(5) by (intro mem_write_append) simp_all
  then show ?thesis using n Some assms(3)
    by (simp add: patch_array_def pick_def unat_times_8 mem_read_def take_le64s)
qed (simp add: patch_array_def pick_def)

lemma patch_stamp_at:
  assumes "length old1 = 4" and "length old2 = 4"
  shows "patch_stamp 4 sec ns (kCdrHeader @ old1 @ old2 @ ys) = Some (kCdrHeader @ le32 sec @ le32 ns @ ys)"
proof -
  have "mem_write (kCdrHeader @ old1 @ old2 @ ys) 4 (le32 sec) = Some (kCdrHeader @ le32 sec @ old2 @ ys)"
    using assms by (intro mem_write_append) simp_all
  moreover have "mem_write ((kCdrHeader @ le32 sec) @ old2 @ ys) 8 (le32 ns)
      = Some ((kCdrHeader @ le32 sec) @ le32 ns @ ys)"
    using assms by (intro mem_write_append) simp_all
  ultimately show ?thesis by (simp add: patch_stamp_def)
qed

text \<open>Where the variable parts of a message sit does not depend on their contents.\<close>

lemma cdr_stamp: "cdr_u32 ns (cdr_u32 sec []) = le32 sec @ le32 ns"
  by (simp add: cdr_u32_def zpad_def pad_to_def)

lemma cdr_count_split: "\<exists>u. \<forall>p. zpad 8 (cdr_u32 n p) = p @ u (length p)"
  using appends_comp [OF appends_zpad appends_cdr_u32, of 8 n] by (auto simp: appends_def)

lemma js_split:
  obtains X U V where
    "\<And>m. js_wf n m \<Longrightarrow> js_frame m = frame \<Longrightarrow> js_names m = names \<Longrightarrow>
       lay_joint_state m = le32 (js_sec m) @ le32 (js_nanosec m) @ X @ le64s (js_position m) @ U @
         le64s (js_velocity m) @ V @ le64s (js_effort m) \<and>
       js_ctx n m = \<lparr>num_joints = n, offset_timestamp = 4,
         offset_position = word_of_nat (12 + length X),
         offset_velocity = word_of_nat (12 + length X + 8 * unat n + length U),
         offset_effort = word_of_nat (12 + length X + 8 * unat n + length U + 8 * unat n + length V),
         payload_size = word_of_nat (4 + length (lay_joint_state m))\<rparr>"
proof -
  obtain u where "\<forall>p. zpad 8 (cdr_u32 n p) = p @ u (length p)" using cdr_count_split [of n] ..
  then have u: "zpad 8 (cdr_u32 n p) = p @ u (length p)" for p by (rule spec)
  have "appends (\<lambda>p. cdr_strings names (cdr_string frame p))"
    by (rule appends_comp [OF appends_cdr_strings appends_cdr_string])
  then obtain t where "\<forall>p. cdr_strings names (cdr_string frame p) = p @ t (length p)"
    unfolding appends_def ..
  then have t: "cdr_strings names (cdr_string frame p) = p @ t (length p)" for p by (rule spec)
  let ?X = "t 8 @ u (8 + length (t 8))"
  let ?U = "u (8 + length ?X + 8 * unat n)"
  let ?V = "u (8 + length ?X + 8 * unat n + length ?U + 8 * unat n)"
  show thesis
  proof (rule that [of ?X ?U ?V])
    fix m assume wf: "js_wf n m" and "js_frame m = frame" and "js_names m = names"
    then have part: "js_names_part m = le32 (js_sec m) @ le32 (js_nanosec m) @ t 8"
      by (simp add: js_names_part_def cdr_header_def cdr_stamp t)
    have len: "length (js_position m) = unat n" "length (js_velocity m) = unat n"
      "length (js_effort m) = unat n" using wf by (simp_all add: js_wf_def)
    have arr: "cdr_array ds p = p @ u (length p) @ le64s ds" if "length ds = unat n" for ds p
      using that by (simp add: cdr_array_def u)
    show "lay_joint_state m = le32 (js_sec m) @ le32 (js_nanosec m) @ ?X @ le64s (js_position m) @ ?U @
         le64s (js_velocity m) @ ?V @ le64s (js_effort m) \<and>
       js_ctx n m = \<lparr>num_joints = n, offset_timestamp = 4,
         offset_position = word_of_nat (12 + length ?X),
         offset_velocity = word_of_nat (12 + length ?X + 8 * unat n + length ?U),
         offset_effort = word_of_nat (12 + length ?X + 8 * unat n + length ?U + 8 * unat n + length ?V),
         payload_size = word_of_nat (4 + length (lay_joint_state m))\<rparr>"
      by (simp add: lay_joint_state_def js_ctx_def array_off_def arr len part u algebra_simps)
  qed
qed

lemma jc_split:
  obtains X where
    "\<And>m. jc_wf n m \<Longrightarrow> jc_frame m = frame \<Longrightarrow> jc_names m = names \<Longrightarrow> jc_interface m = iface \<Longrightarrow>
       lay_joint_command m = le32 (jc_sec m) @ le32 (jc_nanosec m) @ X @ le64s (jc_values m) \<and>
       jc_ctx n m = \<lparr>c_num_joints = n, c_offset_timestamp = 4,
         c_offset_values = word_of_nat (12 + length X),
         c_payload_size = word_of_nat (4 + length (lay_joint_command m))\<rparr>"
proof -
  obtain u where "\<forall>p. zpad 8 (cdr_u32 n p) = p @ u (length p)" using cdr_count_split [of n] ..
  then have u: "zpad 8 (cdr_u32 n p) = p @ u (length p)" for p by (rule spec)
  have "appends (\<lambda>p. cdr_string iface (cdr_strings names (cdr_string frame p)))"
    by (rule appends_comp [OF appends_cdr_string appends_comp [OF appends_cdr_strings appends_cdr_string]])
  then obtain t where
    "\<forall>p. cdr_string iface (cdr_strings names (cdr_string frame p)) = p @ t (length p)"
    unfolding appends_def ..
  then have t: "cdr_string iface (cdr_strings names (cdr_string frame p)) = p @ t (length p)" for p
    by (rule spec)
  let ?X = "t 8 @ u (8 + length (t 8))"
  show thesis
  proof (rule that [of ?X])
    fix m assume wf: "jc_wf n m" and "jc_frame m = frame" "jc_names m = names" "jc_interface m = iface"
    then have part: "jc_names_part m = le32 (jc_sec m) @ le32 (jc_nanosec m) @ t 8"
      by (simp add: jc_names_part_def cdr_header_def cdr_stamp t)
    then show "lay_joint_command m = le32 (jc_sec m) @ le32 (jc_nanosec m) @ ?X @ le64s (jc_values m) \<and>
       jc_ctx n m = \<lparr>c_num_joints = n, c_offset_timestamp = 4,
         c_offset_values = word_of_nat (12 + length ?X),
         c_payload_size = word_of_nat (4 + length (lay_joint_command m))\<rparr>"
      using wf by (simp add: lay_joint_command_def jc_ctx_def array_off_def cdr_array_def u jc_wf_def)
  qed
qed

text \<open>The refinement: serialising into a buffer that holds the message \<open>m\<close> leaves the buffer holding
  the patched message, and the bytes behind it untouched.\<close>

lemma serialize_joint_state_lay:
  assumes wf: "js_wf n m" and ok: "array_ok n p" "array_ok n v" "array_ok n e"
    and small: "4 + length (lay_joint_state m) \<le> 2 ^ 31"
  shows "zcdr_serialize_joint_state (js_ctx n m) sec ns p v e (kCdrHeader @ lay_joint_state m @ rest) =
      Some (kCdrHeader @ lay_joint_state (js_patch n sec ns p v e m) @ rest)"
    and "js_ctx n (js_patch n sec ns p v e m) = js_ctx n m"
proof -
  let ?m = "js_patch n sec ns p v e m"
  obtain X U V where split:
    "\<And>m'. js_wf n m' \<Longrightarrow> js_frame m' = js_frame m \<Longrightarrow> js_names m' = js_names m \<Longrightarrow>
       lay_joint_state m' = le32 (js_sec m') @ le32 (js_nanosec m') @ X @ le64s (js_position m') @ U @
         le64s (js_velocity m') @ V @ le64s (js_effort m') \<and>
       js_ctx n m' = \<lparr>num_joints = n, offset_timestamp = 4,
         offset_position = word_of_nat (12 + length X),
         offset_velocity = word_of_nat (12 + length X + 8 * unat n + length U),
         offset_effort = word_of_nat (12 + length X + 8 * unat n + length U + 8 * unat n + length V),
         payload_size = word_of_nat (4 + length (lay_joint_state m'))\<rparr>"
    by (rule js_split [of n "js_frame m" "js_names m"]) blast
  have wf': "js_wf n ?m" using wf ok by (rule js_wf_patch)
  have fields: "js_sec ?m = sec" "js_nanosec ?m = ns" "js_frame ?m = js_frame m" "js_names ?m = js_names m"
    "js_position ?m = pick n p (js_position m)" "js_velocity ?m = pick n v (js_velocity m)"
    "js_effort ?m = pick n e (js_effort m)" by (simp_all add: js_patch_def)
  have len: "length (js_position m) = unat n" "length (js_velocity m) = unat n"
    "length (js_effort m) = unat n" using wf by (simp_all add: js_wf_def)
  note lens = len ok [THEN length_pick]
  have lm: "lay_joint_state m = le32 (js_sec m) @ le32 (js_nanosec m) @ X @ le64s (js_position m) @ U @
         le64s (js_velocity m) @ V @ le64s (js_effort m)" using split [OF wf] by simp
  have lm': "lay_joint_state ?m = le32 sec @ le32 ns @ X @ le64s (pick n p (js_position m)) @ U @
         le64s (pick n v (js_velocity m)) @ V @ le64s (pick n e (js_effort m))"
    using split [OF wf'] by (simp add: fields)
  show "js_ctx n ?m = js_ctx n m"
    using split [OF wf] split [OF wf'] lens by (simp add: fields)
  have b: "12 + length X + 8 * unat n + length U + 8 * unat n + length V + 8 * unat n \<le> 2 ^ 31"
    using small len by (simp add: lm)
  let ?h = "kCdrHeader @ le32 sec @ le32 ns @ X"
  let ?p = "pick n p (js_position m)" and ?v = "pick n v (js_velocity m)" and ?e = "pick n e (js_effort m)"
  have 1: "patch_stamp 4 sec ns (kCdrHeader @ lay_joint_state m @ rest) =
      Some (?h @ le64s (js_position m) @ U @ le64s (js_velocity m) @ V @ le64s (js_effort m) @ rest)"
    by (simp add: lm patch_stamp_at)
  have 2: "patch_array n (word_of_nat (12 + length X)) p
        (?h @ le64s (js_position m) @ U @ le64s (js_velocity m) @ V @ le64s (js_effort m) @ rest) =
      Some (?h @ le64s ?p @ U @ le64s (js_velocity m) @ V @ le64s (js_effort m) @ rest)"
    using b ok len by (intro patch_array_at) simp_all
  have 3: "patch_array n (word_of_nat (12 + length X + 8 * unat n + length U)) v
        ((?h @ le64s ?p @ U) @ le64s (js_velocity m) @ V @ le64s (js_effort m) @ rest) =
      Some ((?h @ le64s ?p @ U) @ le64s ?v @ V @ le64s (js_effort m) @ rest)"
    using b ok lens by (intro patch_array_at) (simp_all add: algebra_simps)
  have 4: "patch_array n (word_of_nat (12 + length X + 8 * unat n + length U + 8 * unat n + length V)) e
        ((?h @ le64s ?p @ U @ le64s ?v @ V) @ le64s (js_effort m) @ rest) =
      Some ((?h @ le64s ?p @ U @ le64s ?v @ V) @ le64s ?e @ rest)"
    using b ok lens by (intro patch_array_at) (simp_all add: algebra_simps)
  show "zcdr_serialize_joint_state (js_ctx n m) sec ns p v e (kCdrHeader @ lay_joint_state m @ rest) =
      Some (kCdrHeader @ lay_joint_state ?m @ rest)"
    using split [OF wf] 1 2 3 4 by (simp add: zcdr_serialize_joint_state_def lm')
qed

lemma serialize_joint_command_lay:
  assumes wf: "jc_wf n m" and ok: "array_ok n v" and small: "4 + length (lay_joint_command m) \<le> 2 ^ 31"
  shows "zcdr_serialize_joint_command (jc_ctx n m) sec ns v (kCdrHeader @ lay_joint_command m @ rest) =
      Some (kCdrHeader @ lay_joint_command (jc_patch n sec ns v m) @ rest)"
    and "jc_ctx n (jc_patch n sec ns v m) = jc_ctx n m"
proof -
  let ?m = "jc_patch n sec ns v m"
  obtain X where split:
    "\<And>m'. jc_wf n m' \<Longrightarrow> jc_frame m' = jc_frame m \<Longrightarrow> jc_names m' = jc_names m \<Longrightarrow>
       jc_interface m' = jc_interface m \<Longrightarrow>
       lay_joint_command m' = le32 (jc_sec m') @ le32 (jc_nanosec m') @ X @ le64s (jc_values m') \<and>
       jc_ctx n m' = \<lparr>c_num_joints = n, c_offset_timestamp = 4,
         c_offset_values = word_of_nat (12 + length X),
         c_payload_size = word_of_nat (4 + length (lay_joint_command m'))\<rparr>"
    by (rule jc_split [of n "jc_frame m" "jc_names m" "jc_interface m"]) blast
  have wf': "jc_wf n ?m" using wf ok by (rule jc_wf_patch)
  have len: "length (jc_values m) = unat n" using wf by (simp add: jc_wf_def)
  have lm: "lay_joint_command m = le32 (jc_sec m) @ le32 (jc_nanosec m) @ X @ le64s (jc_values m)"
    using split [OF wf] by simp
  have lm': "lay_joint_command ?m = le32 sec @ le32 ns @ X @ le64s (pick n v (jc_values m))"
    using split [OF wf'] by (simp add: jc_patch_def)
  show "jc_ctx n ?m = jc_ctx n m"
    using split [OF wf] split [OF wf'] len length_pick [OF ok len] by (simp add: jc_patch_def)
  have b: "12 + length X + 8 * unat n \<le> 2 ^ 31" using small len by (simp add: lm)
  let ?h = "kCdrHeader @ le32 sec @ le32 ns @ X"
  have 1: "patch_stamp 4 sec ns (kCdrHeader @ lay_joint_command m @ rest) =
      Some (?h @ le64s (jc_values m) @ rest)"
    by (simp add: lm patch_stamp_at)
  have 2: "patch_array n (word_of_nat (12 + length X)) v (?h @ le64s (jc_values m) @ rest) =
      Some (?h @ le64s (pick n v (jc_values m)) @ rest)"
    using b ok len by (intro patch_array_at) simp_all
  show "zcdr_serialize_joint_command (jc_ctx n m) sec ns v (kCdrHeader @ lay_joint_command m @ rest) =
      Some (kCdrHeader @ lay_joint_command ?m @ rest)"
    using split [OF wf] 1 2 by (simp add: zcdr_serialize_joint_command_def lm')
qed

section \<open>Deserialising reads the message back\<close>

definition keep_u32 :: "uint32 option \<Rightarrow> uint32 \<Rightarrow> uint32 option" where
  "keep_u32 out x = (case out of None \<Rightarrow> None | Some _ \<Rightarrow> Some x)"

definition keep_array :: "f64 list option \<Rightarrow> f64 list \<Rightarrow> f64 list option" where
  "keep_array out xs = (case out of None \<Rightarrow> None | Some ds \<Rightarrow> Some (xs @ drop (length xs) ds))"

lemma read_u32_at:
  assumes "off = word_of_nat (length xs)" and "length xs < 2 ^ 32"
  shows "read_u32_to out (xs @ le32 x @ ys) off = Some (keep_u32 out x)"
proof -
  have "mem_read (xs @ le32 x @ ys) (unat off) 4 = Some (le32 x)"
    using assms by (intro mem_read_append) (simp_all add: unat_of_nat)
  then show ?thesis by (simp add: read_u32_to_def keep_u32_def split: option.splits)
qed

lemma read_array_at:
  assumes "off = word_of_nat (length xs)" and "length xs < 2 ^ 32" and "8 * unat n < 2 ^ 32"
    and "length vs = unat n" and "array_ok n out"
  shows "read_array_to out (xs @ le64s vs @ ys) off n = Some (keep_array out vs)"
proof (cases out)
  case (Some ds)
  then have n: "unat n \<le> length ds" using assms(5) by (simp add: array_ok_def)
  have "mem_read (xs @ le64s vs @ ys) (unat off) (8 * unat n) = Some (le64s vs)"
    using assms by (intro mem_read_append) (simp_all add: unat_of_nat)
  moreover have "le64s ds = [] @ le64s (take (unat n) ds) @ le64s (drop (unat n) ds)"
    by (simp flip: le64s_append)
  then have "mem_write (le64s ds) 0 (le64s vs) = Some (le64s (vs @ drop (unat n) ds))"
    using mem_write_append [of "le64s (take (unat n) ds)" "le64s vs" 0 "[]" "le64s (drop (unat n) ds)"] n assms(4)
    by (simp add: le64s_append)
  ultimately show ?thesis
    using n assms(3,4) by (simp add: read_array_to_def Some keep_array_def unat_times_8)
qed (simp add: read_array_to_def keep_array_def)

lemma deserialize_joint_state_lay:
  assumes wf: "js_wf n m" and small: "4 + length (lay_joint_state m) \<le> 2 ^ 31"
    and ok: "array_ok n (out_positions out)" "array_ok n (out_velocities out)" "array_ok n (out_efforts out)"
    and size: "payload_size (js_ctx n m) \<le> sz"
  shows "zcdr_deserialize_joint_state (js_ctx n m) (kCdrHeader @ lay_joint_state m @ rest) sz out =
     Some (True, \<lparr>out_stamp_sec = keep_u32 (out_stamp_sec out) (js_sec m),
       out_stamp_nanosec = keep_u32 (out_stamp_nanosec out) (js_nanosec m),
       out_positions = keep_array (out_positions out) (js_position m),
       out_velocities = keep_array (out_velocities out) (js_velocity m),
       out_efforts = keep_array (out_efforts out) (js_effort m)\<rparr>)"
proof -
  obtain X U V where split:
    "lay_joint_state m = le32 (js_sec m) @ le32 (js_nanosec m) @ X @ le64s (js_position m) @ U @
         le64s (js_velocity m) @ V @ le64s (js_effort m) \<and>
       js_ctx n m = \<lparr>num_joints = n, offset_timestamp = 4,
         offset_position = word_of_nat (12 + length X),
         offset_velocity = word_of_nat (12 + length X + 8 * unat n + length U),
         offset_effort = word_of_nat (12 + length X + 8 * unat n + length U + 8 * unat n + length V),
         payload_size = word_of_nat (4 + length (lay_joint_state m))\<rparr>"
    by (rule js_split [of n "js_frame m" "js_names m"]) (use wf in blast)
  have len: "length (js_position m) = unat n" "length (js_velocity m) = unat n"
    "length (js_effort m) = unat n" using wf by (simp_all add: js_wf_def)
  have b: "12 + length X + 8 * unat n + length U + 8 * unat n + length V + 8 * unat n \<le> 2 ^ 31"
    using small len split by simp
  let ?p = "le64s (js_position m)" and ?v = "le64s (js_velocity m)" and ?e = "le64s (js_effort m)"
  let ?s = "le32 (js_sec m)" and ?n = "le32 (js_nanosec m)"
  have 1: "read_u32_to (out_stamp_sec out) (kCdrHeader @ ?s @ ?n @ X @ ?p @ U @ ?v @ V @ ?e @ rest) 4 =
      Some (keep_u32 (out_stamp_sec out) (js_sec m))"
    by (rule read_u32_at) simp_all
  have 2: "read_u32_to (out_stamp_nanosec out) ((kCdrHeader @ ?s) @ ?n @ X @ ?p @ U @ ?v @ V @ ?e @ rest) 8 =
      Some (keep_u32 (out_stamp_nanosec out) (js_nanosec m))"
    by (rule read_u32_at) simp_all
  have 3: "read_array_to (out_positions out) ((kCdrHeader @ ?s @ ?n @ X) @ ?p @ U @ ?v @ V @ ?e @ rest)
      (word_of_nat (12 + length X)) n = Some (keep_array (out_positions out) (js_position m))"
    using b len ok by (intro read_array_at) simp_all
  have 4: "read_array_to (out_velocities out) ((kCdrHeader @ ?s @ ?n @ X @ ?p @ U) @ ?v @ V @ ?e @ rest)
      (word_of_nat (12 + length X + 8 * unat n + length U)) n = Some (keep_array (out_velocities out) (js_velocity m))"
    using b len ok by (intro read_array_at) (simp_all add: algebra_simps)
  have 5: "read_array_to (out_efforts out) ((kCdrHeader @ ?s @ ?n @ X @ ?p @ U @ ?v @ V) @ ?e @ rest)
      (word_of_nat (12 + length X + 8 * unat n + length U + 8 * unat n + length V)) n =
      Some (keep_array (out_efforts out) (js_effort m))"
    using b len ok by (intro read_array_at) (simp_all add: algebra_simps)
  show ?thesis
    using split size 1 2 3 4 5 by (simp add: zcdr_deserialize_joint_state_def not_less [symmetric])
qed

lemma deserialize_joint_command_lay:
  assumes wf: "jc_wf n m" and small: "4 + length (lay_joint_command m) \<le> 2 ^ 31"
    and ok: "array_ok n (c_out_values out)" and size: "c_payload_size (jc_ctx n m) \<le> sz"
  shows "zcdr_deserialize_joint_command (jc_ctx n m) (kCdrHeader @ lay_joint_command m @ rest) sz out =
     Some (True, \<lparr>c_out_stamp_sec = keep_u32 (c_out_stamp_sec out) (jc_sec m),
       c_out_stamp_nanosec = keep_u32 (c_out_stamp_nanosec out) (jc_nanosec m),
       c_out_values = keep_array (c_out_values out) (jc_values m)\<rparr>)"
proof -
  obtain X where split:
    "lay_joint_command m = le32 (jc_sec m) @ le32 (jc_nanosec m) @ X @ le64s (jc_values m) \<and>
       jc_ctx n m = \<lparr>c_num_joints = n, c_offset_timestamp = 4,
         c_offset_values = word_of_nat (12 + length X),
         c_payload_size = word_of_nat (4 + length (lay_joint_command m))\<rparr>"
    by (rule jc_split [of n "jc_frame m" "jc_names m" "jc_interface m"]) (use wf in blast)
  have len: "length (jc_values m) = unat n" using wf by (simp add: jc_wf_def)
  have b: "12 + length X + 8 * unat n \<le> 2 ^ 31" using small len split by simp
  let ?s = "le32 (jc_sec m)" and ?n = "le32 (jc_nanosec m)" and ?v = "le64s (jc_values m)"
  have 1: "read_u32_to (c_out_stamp_sec out) (kCdrHeader @ ?s @ ?n @ X @ ?v @ rest) 4 =
      Some (keep_u32 (c_out_stamp_sec out) (jc_sec m))"
    by (rule read_u32_at) simp_all
  have 2: "read_u32_to (c_out_stamp_nanosec out) ((kCdrHeader @ ?s) @ ?n @ X @ ?v @ rest) 8 =
      Some (keep_u32 (c_out_stamp_nanosec out) (jc_nanosec m))"
    by (rule read_u32_at) simp_all
  have 3: "read_array_to (c_out_values out) ((kCdrHeader @ ?s @ ?n @ X) @ ?v @ rest)
      (word_of_nat (12 + length X)) n = Some (keep_array (c_out_values out) (jc_values m))"
    using b len ok by (intro read_array_at) simp_all
  show ?thesis
    using split size 1 2 3 by (simp add: zcdr_deserialize_joint_command_def not_less [symmetric])
qed

end
