(* ===== verification/Cdr_Properties.thy ===== *)
theory Cdr_Properties
  imports Cdr_Refinement
begin

text \<open>
  What the Tier 1 serializer guarantees, in terms of the code's functions and the CDR
  specification only: conformance of outgoing messages, acceptance of messages of any conforming
  encoder, round trips, and where the fixed-buffer interface stops being safe.
\<close>

section \<open>Messages against templates\<close>

lemma js_patch_template:
  assumes "js_wf n m" and "js_frame m = opt_str frame_id"
  shows "js_patch n (js_sec m) (js_nanosec m) (Some (js_position m)) (Some (js_velocity m))
     (Some (js_effort m)) (js_template frame_id (js_names m) n) = m"
    and "js_wf n (js_template frame_id (js_names m) n)"
    and "array_ok n (Some (js_position m)) \<and> array_ok n (Some (js_velocity m)) \<and>
      array_ok n (Some (js_effort m))"
  using assms by (simp_all add: js_patch_def js_template_def js_wf_def pick_def array_ok_def)

lemma jc_patch_template:
  assumes "jc_wf n m" and "jc_frame m = opt_str frame_id" and "jc_interface m = opt_str interface_name"
  shows "jc_patch n (jc_sec m) (jc_nanosec m) (Some (jc_values m))
      (jc_template frame_id (jc_names m) n interface_name) = m"
    and "jc_wf n (jc_template frame_id (jc_names m) n interface_name)"
    and "array_ok n (Some (jc_values m))"
  using assms by (simp_all add: jc_patch_def jc_template_def jc_wf_def pick_def array_ok_def)

lemma lay_joint_state_length:
  assumes "js_wf n m" "js_wf n m'" "js_frame m' = js_frame m" "js_names m' = js_names m"
  shows "length (lay_joint_state m') = length (lay_joint_state m)"
  by (rule js_split [of n "js_frame m" "js_names m"])
    (use assms in \<open>simp add: js_wf_def\<close>)

lemma lay_joint_command_length:
  assumes "jc_wf n m" "jc_wf n m'" "jc_frame m' = jc_frame m" "jc_names m' = jc_names m"
    "jc_interface m' = jc_interface m"
  shows "length (lay_joint_command m') = length (lay_joint_command m)"
  by (rule jc_split [of n "jc_frame m" "jc_names m" "jc_interface m"])
    (use assms in \<open>simp add: jc_wf_def\<close>)

lemma js_init_for:
  assumes wf: "js_wf n m" and frame: "js_frame m = opt_str frame_id"
    and fit: "4 + length (lay_joint_state m) \<le> N" "N \<le> 2 ^ 31"
  shows "zcdr_init_joint_state frame_id (js_names m) n (replicate N 0) =
     Some (js_ctx n m, kCdrHeader @ lay_joint_state (js_template frame_id (js_names m) n) @
       replicate (N - (4 + length (lay_joint_state m))) 0)"
proof -
  let ?t = "js_template frame_id (js_names m) n"
  note t = js_patch_template [OF wf frame]
  have len: "length (lay_joint_state ?t) = length (lay_joint_state m)"
    using wf t(2) by (rule lay_joint_state_length) (simp_all add: js_template_def frame wf [unfolded js_wf_def])
  have small: "4 + length (lay_joint_state ?t) \<le> 2 ^ 31" using fit len by simp
  have "js_ctx n ?t = js_ctx n m"
    using serialize_joint_state_lay(2) [OF t(2) t(3) [THEN conjunct1] t(3) [THEN conjunct2, THEN conjunct1]
      t(3) [THEN conjunct2, THEN conjunct2] small, of "js_sec m" "js_nanosec m"] by (simp add: t(1))
  moreover have "zcdr_init_joint_state frame_id (js_names m) n (replicate N 0) = Some (js_ctx n ?t,
      kCdrHeader @ lay_joint_state ?t @ replicate (N - (4 + length (lay_joint_state ?t))) 0)"
    using wf fit len by (intro zcdr_init_joint_state_layout) (simp_all add: js_wf_def fits_def)
  ultimately show ?thesis by (simp add: len)
qed

lemma jc_init_for:
  assumes wf: "jc_wf n m" and strs: "jc_frame m = opt_str frame_id" "jc_interface m = opt_str interface_name"
    and fit: "4 + length (lay_joint_command m) \<le> N" "N \<le> 2 ^ 31"
  shows "zcdr_init_joint_command frame_id (jc_names m) n interface_name (replicate N 0) =
     Some (jc_ctx n m, kCdrHeader @ lay_joint_command (jc_template frame_id (jc_names m) n interface_name) @
       replicate (N - (4 + length (lay_joint_command m))) 0)"
proof -
  let ?t = "jc_template frame_id (jc_names m) n interface_name"
  note t = jc_patch_template [OF wf strs]
  have len: "length (lay_joint_command ?t) = length (lay_joint_command m)"
    using wf t(2) by (rule lay_joint_command_length)
      (simp_all add: jc_template_def strs wf [unfolded jc_wf_def])
  have small: "4 + length (lay_joint_command ?t) \<le> 2 ^ 31" using fit len by simp
  have "jc_ctx n ?t = jc_ctx n m"
    using serialize_joint_command_lay(2) [OF t(2) t(3) small, of "jc_sec m" "jc_nanosec m"]
    by (simp add: t(1))
  moreover have "zcdr_init_joint_command frame_id (jc_names m) n interface_name (replicate N 0) =
      Some (jc_ctx n ?t, kCdrHeader @ lay_joint_command ?t @
        replicate (N - (4 + length (lay_joint_command ?t))) 0)"
    using wf fit len by (intro zcdr_init_joint_command_layout) (simp_all add: jc_wf_def fits_def)
  ultimately show ?thesis by (simp add: len)
qed

lemma js_serialize_for:
  assumes wf: "js_wf n m" and frame: "js_frame m = opt_str frame_id"
    and small: "4 + length (lay_joint_state m) \<le> 2 ^ 31"
  shows "zcdr_serialize_joint_state (js_ctx n m) (js_sec m) (js_nanosec m) (Some (js_position m))
      (Some (js_velocity m)) (Some (js_effort m))
      (kCdrHeader @ lay_joint_state (js_template frame_id (js_names m) n) @ rest) =
    Some (kCdrHeader @ lay_joint_state m @ rest)"
proof -
  let ?t = "js_template frame_id (js_names m) n"
  note t = js_patch_template [OF wf frame]
  have "length (lay_joint_state ?t) = length (lay_joint_state m)"
    using wf t(2) by (rule lay_joint_state_length) (simp_all add: js_template_def frame wf [unfolded js_wf_def])
  then have "4 + length (lay_joint_state ?t) \<le> 2 ^ 31" using small by simp
  note s = serialize_joint_state_lay [OF t(2) t(3) [THEN conjunct1] t(3) [THEN conjunct2, THEN conjunct1]
      t(3) [THEN conjunct2, THEN conjunct2] this, of "js_sec m" "js_nanosec m", unfolded t(1)]
  show ?thesis using s(1) s(2) by simp
qed

lemma jc_serialize_for:
  assumes wf: "jc_wf n m" and strs: "jc_frame m = opt_str frame_id" "jc_interface m = opt_str interface_name"
    and small: "4 + length (lay_joint_command m) \<le> 2 ^ 31"
  shows "zcdr_serialize_joint_command (jc_ctx n m) (jc_sec m) (jc_nanosec m) (Some (jc_values m))
      (kCdrHeader @ lay_joint_command (jc_template frame_id (jc_names m) n interface_name) @ rest) =
    Some (kCdrHeader @ lay_joint_command m @ rest)"
proof -
  let ?t = "jc_template frame_id (jc_names m) n interface_name"
  note t = jc_patch_template [OF wf strs]
  have "length (lay_joint_command ?t) = length (lay_joint_command m)"
    using wf t(2) by (rule lay_joint_command_length)
      (simp_all add: jc_template_def strs wf [unfolded jc_wf_def])
  then have "4 + length (lay_joint_command ?t) \<le> 2 ^ 31" using small by simp
  note s = serialize_joint_command_lay [OF t(2) t(3) this, of "jc_sec m" "jc_nanosec m", unfolded t(1)]
  show ?thesis using s(1) s(2) by simp
qed

lemma payload_size_js: "4 + length (lay_joint_state m) \<le> 2 ^ 31 \<Longrightarrow>
    unat (payload_size (js_ctx n m)) = 4 + length (lay_joint_state m)"
  unfolding js_ctx_def zcdr_joint_state_ctx_t.simps by (rule unat_word32_of_nat) simp

lemma payload_size_jc: "4 + length (lay_joint_command m) \<le> 2 ^ 31 \<Longrightarrow>
    unat (c_payload_size (jc_ctx n m)) = 4 + length (lay_joint_command m)"
  unfolding jc_ctx_def zcdr_joint_command_ctx_t.simps by (rule unat_word32_of_nat) simp

lemma keep_Some: "length ds = length xs \<Longrightarrow> keep_array (Some ds) xs = Some xs" "keep_u32 (Some y) x = Some x"
  by (simp_all add: keep_array_def keep_u32_def)

section \<open>Properties\<close>

text \<open>C8: a JointState that fits its buffer leaves the firmware exactly as a generic CDR encoder
  would encode it: template, precomputed offsets and patching are equivalent to the specification
  on the \<open>payload_size\<close> bytes that are published.\<close>

theorem zcdr_joint_state_conformance:
  assumes "js_wf n m" and "n \<noteq> 0" and "js_frame m = opt_str frame_id"
    and "4 + length (cdr_joint_state m) \<le> N" and "N \<le> 2 ^ 31"
  shows "do { (ctx, b) \<leftarrow> zcdr_init_joint_state frame_id (js_names m) n (replicate N 0);
              b \<leftarrow> zcdr_serialize_joint_state ctx (js_sec m) (js_nanosec m) (Some (js_position m))
                     (Some (js_velocity m)) (Some (js_effort m)) b;
              Some (take (unat (payload_size ctx)) b) } = Some (kCdrHeader @ cdr_joint_state m)"
proof -
  note lay = lay_joint_state_cdr [OF assms(1,2)]
  have fit: "4 + length (lay_joint_state m) \<le> N" using assms(4) by (simp add: lay)
  then have small: "4 + length (lay_joint_state m) \<le> 2 ^ 31" using assms(5) by simp
  show ?thesis
    using js_init_for [OF assms(1,3) fit assms(5)] js_serialize_for [OF assms(1,3) small]
      payload_size_js [OF small, of n] by (simp add: lay)
qed

definition sample_joint_state :: joint_state_msg where
  "sample_joint_state =
     \<lparr>js_sec = 12, js_nanosec = 34, js_frame = ''base_link'',
      js_names = [''motor_arm'', ''pendulum_axis''],
      js_position = [0x3FF4000000000000, 0xC004000000000000],
      js_velocity = [0x3FE0000000000000, 0x3FE8000000000000],
      js_effort = [0x4024000000000000, 0xC034000000000000]\<rparr>"

lemma sample_joint_state_facts:
  "js_wf 2 sample_joint_state" "js_frame sample_joint_state = opt_str (Some ''base_link'')"
  "4 + length (cdr_joint_state sample_joint_state) \<le> 256"
  by (simp_all add: sample_joint_state_def js_wf_def opt_str_def cdr_joint_state_def cdr_f64s_def
      cdr_f64_def cdr_strings_def cdr_header_def cdr_string_def cdr_u32_def pad_to_def)

theorem zcdr_joint_state_conformance_witness:
  "do { (ctx, b) \<leftarrow> zcdr_init_joint_state (Some ''base_link'') (js_names sample_joint_state) 2 (replicate 256 0);
        b \<leftarrow> zcdr_serialize_joint_state ctx (js_sec sample_joint_state) (js_nanosec sample_joint_state)
               (Some (js_position sample_joint_state)) (Some (js_velocity sample_joint_state))
               (Some (js_effort sample_joint_state)) b;
        Some (take (unat (payload_size ctx)) b) } = Some (kCdrHeader @ cdr_joint_state sample_joint_state)"
  using zcdr_joint_state_conformance [OF sample_joint_state_facts(1) _ sample_joint_state_facts(2,3)]
  by simp

text \<open>The elements of a command come last, so their offset follows from the size of the message alone.\<close>

lemma deserialize_joint_command_size:
  assumes wf: "jc_wf n m" and small: "4 + length (lay_joint_command m) \<le> 2 ^ 31"
    and vals: "length (jc_values m') = unat n" "length (lay_joint_command m') = length (lay_joint_command m)"
    and ok: "array_ok n (c_out_values out)" and size: "c_payload_size (jc_ctx n m) \<le> sz"
  shows "zcdr_deserialize_joint_command (jc_ctx n m) (kCdrHeader @ lay_joint_command m') sz out =
     Some (True, \<lparr>c_out_stamp_sec = keep_u32 (c_out_stamp_sec out) (jc_sec m'),
       c_out_stamp_nanosec = keep_u32 (c_out_stamp_nanosec out) (jc_nanosec m'),
       c_out_values = keep_array (c_out_values out) (jc_values m')\<rparr>)"
proof -
  have split: "\<exists>X. lay_joint_command x = le32 (jc_sec x) @ le32 (jc_nanosec x) @ X @ le64s (jc_values x) \<and>
      array_off n (jc_names_part x) = word_of_nat (12 + length X)" if x: "length (jc_values x) = unat n" for x
  proof -
    obtain u where "\<forall>p. zpad 8 (cdr_u32 n p) = p @ u (length p)" using cdr_count_split [of n] ..
    then have u: "zpad 8 (cdr_u32 n p) = p @ u (length p)" for p by (rule spec)
    have "appends (\<lambda>p. cdr_string (jc_interface x) (cdr_strings (jc_names x) (cdr_string (jc_frame x) p)))"
      by (rule appends_comp [OF appends_cdr_string appends_comp [OF appends_cdr_strings appends_cdr_string]])
    then obtain t where
      "\<forall>p. cdr_string (jc_interface x) (cdr_strings (jc_names x) (cdr_string (jc_frame x) p)) = p @ t (length p)"
      unfolding appends_def ..
    then have t: "cdr_string (jc_interface x) (cdr_strings (jc_names x) (cdr_string (jc_frame x) p)) = p @ t (length p)"
      for p by (rule spec)
    have "zpad 8 (cdr_u32 n (jc_names_part x)) = le32 (jc_sec x) @ le32 (jc_nanosec x) @ t 8 @ u (8 + length (t 8))"
      by (simp add: jc_names_part_def cdr_header_def cdr_stamp t u)
    then show ?thesis
      using x by (intro exI [of _ "t 8 @ u (8 + length (t 8))"]) (simp add: lay_joint_command_def cdr_array_def array_off_def)
  qed
  have "length (jc_values m) = unat n" using wf by (simp add: jc_wf_def)
  from split [OF this] obtain X where X: "lay_joint_command m =
      le32 (jc_sec m) @ le32 (jc_nanosec m) @ X @ le64s (jc_values m)"
    "array_off n (jc_names_part m) = word_of_nat (12 + length X)" by blast
  from split [OF vals(1)] obtain Y where Y: "lay_joint_command m' =
      le32 (jc_sec m') @ le32 (jc_nanosec m') @ Y @ le64s (jc_values m')" by blast
  have len: "length Y = length X" using vals X(1) Y \<open>length (jc_values m) = unat n\<close> by simp
  have b: "12 + length Y + 8 * unat n \<le> 2 ^ 31" using small vals Y by simp
  let ?s = "le32 (jc_sec m')" and ?n = "le32 (jc_nanosec m')" and ?v = "le64s (jc_values m')"
  have 1: "read_u32_to (c_out_stamp_sec out) (kCdrHeader @ ?s @ ?n @ Y @ ?v) 4 =
      Some (keep_u32 (c_out_stamp_sec out) (jc_sec m'))"
    by (rule read_u32_at) simp_all
  have 2: "read_u32_to (c_out_stamp_nanosec out) ((kCdrHeader @ ?s) @ ?n @ Y @ ?v) 8 =
      Some (keep_u32 (c_out_stamp_nanosec out) (jc_nanosec m'))"
    by (rule read_u32_at) simp_all
  have 3: "read_array_to (c_out_values out) ((kCdrHeader @ ?s @ ?n @ Y) @ ?v @ [])
      (word_of_nat (12 + length Y)) n = Some (keep_array (c_out_values out) (jc_values m'))"
    using b vals ok by (intro read_array_at) simp_all
  show ?thesis
    using size 1 2 3 X(2) len
    by (simp add: zcdr_deserialize_joint_command_def jc_ctx_def Y not_less [symmetric])
qed

text \<open>C9: what a context of the firmware reads of the CDR encoding of a JointCommand with as many
  values as it has joints, whatever its frame id, joint names and interface name: from a message of
  the size the context was configured with, the strings of both being otherwise free, exactly the
  stamp and the values; a shorter one is refused and nothing is written. (A longer one, which the
  client drops before this function, is accepted and misread: \<open>zcdr_misreads_longer_command\<close>.)\<close>

theorem zcdr_reads_cdr_joint_command:
  assumes conf: "unat n \<le> length names" "n \<noteq> 0"
    and fit: "4 + length (cdr_joint_command (jc_template frame_id names n interface_name)) \<le> N" "N \<le> 2 ^ 31"
    and msg: "length (jc_values m) = unat n"
      "length (cdr_joint_command m) \<le> length (cdr_joint_command (jc_template frame_id names n interface_name))"
    and vals: "length vals = unat n"
  shows "do { (ctx, _) \<leftarrow> zcdr_init_joint_command frame_id names n interface_name (replicate N 0);
              zcdr_deserialize_joint_command ctx (kCdrHeader @ cdr_joint_command m)
                (word_of_nat (4 + length (cdr_joint_command m)))
                \<lparr>c_out_stamp_sec = Some s, c_out_stamp_nanosec = Some ns, c_out_values = Some vals\<rparr> } =
         Some (if length (cdr_joint_command m) =
                  length (cdr_joint_command (jc_template frame_id names n interface_name))
               then (True, \<lparr>c_out_stamp_sec = Some (jc_sec m), c_out_stamp_nanosec = Some (jc_nanosec m),
                            c_out_values = Some (jc_values m)\<rparr>)
               else (False, \<lparr>c_out_stamp_sec = Some s, c_out_stamp_nanosec = Some ns,
                             c_out_values = Some vals\<rparr>))"
proof -
  let ?t = "jc_template frame_id names n interface_name"
  let ?out = "\<lparr>c_out_stamp_sec = Some s, c_out_stamp_nanosec = Some ns, c_out_values = Some vals\<rparr>"
  have wf: "jc_wf n ?t" using conf(1) by (simp add: jc_wf_def jc_template_def)
  have "jc_values m \<noteq> []" using msg(1) conf(2) by (auto simp: unat_eq_zero)
  then have lay: "lay_joint_command ?t = cdr_joint_command ?t" "lay_joint_command m = cdr_joint_command m"
    using lay_joint_command_cdr [OF wf conf(2)]
    by (simp_all add: lay_joint_command_def cdr_joint_command_def jc_names_part_def cdr_f64s_array)
  have fits: "fits N (lay_joint_command ?t)" using fit by (simp add: fits_def lay)
  have init: "zcdr_init_joint_command frame_id names n interface_name (replicate N 0) =
     Some (jc_ctx n ?t, kCdrHeader @ lay_joint_command ?t @ replicate (N - (4 + length (lay_joint_command ?t))) 0)"
    using zcdr_init_joint_command_layout [OF conf(1) fits] .
  have small: "4 + length (lay_joint_command ?t) \<le> 2 ^ 31" using fit by (simp add: lay)
  have ok: "array_ok n (c_out_values ?out)" using vals by (simp add: array_ok_def)
  have sz: "unat (word_of_nat (4 + length (cdr_joint_command m)) :: size_t) = 4 + length (cdr_joint_command m)"
    using msg(2) small lay by (intro unat_word32_of_nat) simp
  show ?thesis
  proof (cases "length (cdr_joint_command m) = length (cdr_joint_command ?t)")
    case True
    have "c_payload_size (jc_ctx n ?t) \<le> word_of_nat (4 + length (cdr_joint_command m))"
      using True by (simp add: jc_ctx_def lay)
    from deserialize_joint_command_size [OF wf small msg(1) _ ok this] True msg(1) vals show ?thesis
      by (simp add: init lay keep_Some)
  next
    case False
    then have "word_of_nat (4 + length (cdr_joint_command m)) < c_payload_size (jc_ctx n ?t)"
      unfolding word_less_nat_alt sz using msg(2) payload_size_jc [OF small, of n] by (simp add: lay)
    with False show ?thesis by (simp add: init zcdr_deserialize_joint_command_def)
  qed
qed

text \<open>A message of the configured size whose strings are not the configured ones.\<close>

definition sample_joint_command :: joint_command_msg where
  "sample_joint_command =
     \<lparr>jc_sec = 7, jc_nanosec = 8, jc_frame = ''map'', jc_names = [''joint''],
      jc_interface = ''position'', jc_values = [0x3FF8000000000000]\<rparr>"

lemma sample_joint_command_facts:
  "length (cdr_joint_command sample_joint_command) = 64"
  "length (cdr_joint_command (jc_template None [''motor''] 1 (Some ''velocity''))) = 64"
  by (simp_all add: sample_joint_command_def jc_template_def opt_str_def cdr_joint_command_def cdr_f64s_def
      cdr_f64_def cdr_strings_def cdr_header_def cdr_string_def cdr_u32_def pad_to_def)

lemma sample_joint_command_values:
  "jc_sec sample_joint_command = 7" "jc_nanosec sample_joint_command = 8"
  "jc_values sample_joint_command = [0x3FF8000000000000]"
  by (simp_all add: sample_joint_command_def)

theorem zcdr_reads_cdr_joint_command_witness:
  "do { (ctx, _) \<leftarrow> zcdr_init_joint_command None [''motor''] 1 (Some ''velocity'') (replicate 128 0);
        zcdr_deserialize_joint_command ctx (kCdrHeader @ cdr_joint_command sample_joint_command)
          (word_of_nat (4 + length (cdr_joint_command sample_joint_command)))
          \<lparr>c_out_stamp_sec = Some 0, c_out_stamp_nanosec = Some 0, c_out_values = Some [0]\<rparr> } =
     Some (True, \<lparr>c_out_stamp_sec = Some 7, c_out_stamp_nanosec = Some 8,
                  c_out_values = Some [0x3FF8000000000000]\<rparr>)"
  using zcdr_reads_cdr_joint_command [of 1 "[''motor'']" None "Some ''velocity''" 128 sample_joint_command "[0]" 0 0]
  by (simp add: sample_joint_command_facts sample_joint_command_values)

text \<open>a message that is longer than the configured one is accepted, and what stands at the
  configured offsets is taken for the values: here the value read is the number of values.\<close>

theorem zcdr_misreads_longer_command:
  "do { (ctx, _) \<leftarrow> zcdr_init_joint_command None [''motor''] 1 (Some ''velocity'') (replicate 128 0);
        let m = sample_joint_command\<lparr>jc_interface := ''acceleration/left'', jc_values := [3]\<rparr>;
        map_option (\<lambda>(ok, out). (ok, c_out_values out))
          (zcdr_deserialize_joint_command ctx (kCdrHeader @ cdr_joint_command m)
            (word_of_nat (4 + length (cdr_joint_command m)))
            \<lparr>c_out_stamp_sec = Some 0, c_out_stamp_nanosec = Some 0, c_out_values = Some [0]\<rparr>) } =
     Some (True, Some [word_of_nat 1])"
  by code_simp

text \<open>C26: serialising refines the abstract update of the message the buffer holds: the stamp is
  replaced, an array whose pointer is null keeps its former contents, any other array is replaced by
  the first \<open>num_joints\<close> elements at the pointer, and no byte behind the message changes.\<close>

theorem zcdr_serialize_joint_state_refines:
  assumes "js_wf n m" and "array_ok n p" and "array_ok n v" and "array_ok n e"
    and "4 + length (lay_joint_state m) \<le> 2 ^ 31"
  shows "zcdr_serialize_joint_state (js_ctx n m) sec ns p v e (kCdrHeader @ lay_joint_state m @ rest) =
     Some (kCdrHeader @ lay_joint_state (js_patch n sec ns p v e m) @ rest) \<and>
     js_ctx n (js_patch n sec ns p v e m) = js_ctx n m"
  using serialize_joint_state_lay [OF assms] by blast

theorem zcdr_serialize_joint_state_refines_witness:
  "zcdr_serialize_joint_state (js_ctx 2 sample_joint_state) 99 1 (Some [5, 6, 7]) None None
      (kCdrHeader @ lay_joint_state sample_joint_state @ [42]) =
     Some (kCdrHeader @ lay_joint_state (sample_joint_state\<lparr>js_sec := 99, js_nanosec := 1,
       js_position := [5, 6]\<rparr>) @ [42])"
proof -
  have "4 + length (lay_joint_state sample_joint_state) \<le> 2 ^ 31"
    using sample_joint_state_facts(3) lay_joint_state_cdr [OF sample_joint_state_facts(1)] by simp
  from zcdr_serialize_joint_state_refines [OF sample_joint_state_facts(1) _ _ _ this,
      where p = "Some [5, 6, 7]" and v = None and e = None and rest = "[42]" and sec = 99 and ns = 1]
  show ?thesis by (simp add: array_ok_def js_patch_def pick_def sample_joint_state_def)
qed

text \<open>a JointState that is serialised and then deserialised with the same context, from a
  buffer of at least \<open>payload_size\<close> bytes, comes back bit for bit.\<close>

theorem zcdr_joint_state_roundtrip:
  assumes "js_wf n m" and "js_frame m = opt_str frame_id"
    and "4 + length (lay_joint_state m) \<le> N" and "N \<le> 2 ^ 31"
    and "length ps = unat n" and "length vs = unat n" and "length es = unat n"
  shows "do { (ctx, b) \<leftarrow> zcdr_init_joint_state frame_id (js_names m) n (replicate N 0);
              b \<leftarrow> zcdr_serialize_joint_state ctx (js_sec m) (js_nanosec m) (Some (js_position m))
                     (Some (js_velocity m)) (Some (js_effort m)) b;
              zcdr_deserialize_joint_state ctx b (word_of_nat N)
                \<lparr>out_stamp_sec = Some s, out_stamp_nanosec = Some ns, out_positions = Some ps,
                 out_velocities = Some vs, out_efforts = Some es\<rparr> } =
         Some (True, \<lparr>out_stamp_sec = Some (js_sec m), out_stamp_nanosec = Some (js_nanosec m),
           out_positions = Some (js_position m), out_velocities = Some (js_velocity m),
           out_efforts = Some (js_effort m)\<rparr>)"
proof -
  let ?out = "\<lparr>out_stamp_sec = Some s, out_stamp_nanosec = Some ns, out_positions = Some ps,
                 out_velocities = Some vs, out_efforts = Some es\<rparr>"
  have small: "4 + length (lay_joint_state m) \<le> 2 ^ 31" using assms(3,4) by simp
  have "unat (payload_size (js_ctx n m)) \<le> unat (word_of_nat N :: size_t)"
    using assms(3,4) payload_size_js [OF small] unat_word32_of_nat [of N] by simp
  then have le: "payload_size (js_ctx n m) \<le> word_of_nat N" by (simp only: word_le_nat_alt)
  have ok: "array_ok n (out_positions ?out)" "array_ok n (out_velocities ?out)"
    "array_ok n (out_efforts ?out)" using assms(5-7) by (simp_all add: array_ok_def)
  have len: "length ps = length (js_position m)" "length vs = length (js_velocity m)"
    "length es = length (js_effort m)" using assms(1,5-7) by (simp_all add: js_wf_def)
  show ?thesis
    using js_init_for [OF assms(1-4)] js_serialize_for [OF assms(1,2) small]
      deserialize_joint_state_lay [OF assms(1) small ok le] len
    by (simp add: keep_Some)
qed

theorem zcdr_joint_state_roundtrip_witness:
  "do { (ctx, b) \<leftarrow> zcdr_init_joint_state (Some ''base_link'') (js_names sample_joint_state) 2 (replicate 256 0);
        b \<leftarrow> zcdr_serialize_joint_state ctx (js_sec sample_joint_state) (js_nanosec sample_joint_state)
               (Some (js_position sample_joint_state)) (Some (js_velocity sample_joint_state))
               (Some (js_effort sample_joint_state)) b;
        zcdr_deserialize_joint_state ctx b (word_of_nat 256)
          \<lparr>out_stamp_sec = Some 0, out_stamp_nanosec = Some 0, out_positions = Some [0, 0],
           out_velocities = Some [0, 0], out_efforts = Some [0, 0]\<rparr> } =
     Some (True, \<lparr>out_stamp_sec = Some 12, out_stamp_nanosec = Some 34,
       out_positions = Some (js_position sample_joint_state),
       out_velocities = Some (js_velocity sample_joint_state),
       out_efforts = Some (js_effort sample_joint_state)\<rparr>)"
proof -
  have "4 + length (lay_joint_state sample_joint_state) \<le> 256"
    using sample_joint_state_facts(3) lay_joint_state_cdr [OF sample_joint_state_facts(1)] by simp
  from zcdr_joint_state_roundtrip [OF sample_joint_state_facts(1,2) this,
      where ps = "[0, 0]" and vs = "[0, 0]" and es = "[0, 0]" and s = 0 and ns = 0]
  show ?thesis by (simp add: sample_joint_state_def)
qed

text \<open>the macro \<open>ALIGN_UP\<close>, a mask over \<open>size_t\<close>, computes the least multiple of the alignment,
  counted from the end of the encapsulation header, that is not below the offset.\<close>

theorem ALIGN_UP_least_multiple:
  assumes "4 \<le> unat c" and "unat c < 2 ^ 32 - 16" and "a = 4 \<or> a = 8"
  shows "a dvd unat (ALIGN_UP c (word_of_nat a)) - 4 \<and> unat c \<le> unat (ALIGN_UP c (word_of_nat a)) \<and>
    unat (ALIGN_UP c (word_of_nat a)) < unat c + a"
proof -
  define k where "k = (if a = 4 then 2 else 3 :: nat)"
  have k: "a = 2 ^ k" "k \<le> 3" "0 < a" using assms(3) by (auto simp: k_def)
  define n where "n = unat c - 4"
  have c: "c = word_of_nat (4 + n)" and n: "n + 16 < 2 ^ 32" "unat c = 4 + n"
    using assms(1,2) by (simp_all add: n_def)
  have lt: "pad_to a n < n + a" and ge: "n \<le> pad_to a n"
    using k(3) by (rule pad_to_less, rule pad_to_ge)
  have "unat (ALIGN_UP c (word_of_nat a)) = 4 + pad_to a n"
    unfolding ALIGN_UP_pow2 [OF c k(1,2) n(1)]
    by (rule unat_word32_of_nat) (use lt n assms(2,3) in auto)
  then show ?thesis using lt ge n by simp
qed

theorem ALIGN_UP_least_multiple_witness:
  "8 dvd unat (ALIGN_UP 29 (word_of_nat 8)) - 4 \<and> unat (29 :: size_t) \<le> unat (ALIGN_UP 29 (word_of_nat 8)) \<and>
    unat (ALIGN_UP 29 (word_of_nat 8)) < unat (29 :: size_t) + 8"
  using ALIGN_UP_least_multiple [of 29 8] by simp

definition empty_joint_state :: joint_state_msg where
  "empty_joint_state = \<lparr>js_sec = 0, js_nanosec = 0, js_frame = '''', js_names = [],
     js_position = [], js_velocity = [], js_effort = []\<rparr>"

text \<open>with no joints the layout is not the CDR encoding of the message (padding is inserted in
  front of elements that do not exist), so a conforming reader does not find the velocity sequence
  where the firmware puts it.\<close>

theorem zcdr_joint_state_without_joints_is_not_cdr:
  "map_option (\<lambda>(ctx, b). unat (payload_size ctx)) (zcdr_init_joint_state None [] 0 (replicate 64 0)) = Some 44 \<and>
   length (kCdrHeader @ cdr_joint_state empty_joint_state) = 36"
  by code_simp

text \<open>the template is written without looking at the size of the buffer: twelve joints with
  ordinary names run past a state slot of the default size, which the code answers with an
  out-of-bounds write instead of an error.\<close>

theorem zcdr_init_joint_state_overruns_small_buffer:
  "zcdr_init_joint_state (Some ''base_link'') (replicate 12 ''left_leg_joint'') 12 (replicate 256 0) = None"
  by code_simp

end
