(* ===== verification/Codecs.thy ===== *)
theory Codecs
  imports Cdr_Properties
begin

text \<open>
  The codecs of \<open>zenbedded_rcl/codecs.hpp\<close>, which the client is a template over: \<open>RawCodec<T>\<close>
  copies the \<open>sizeof(T)\<close> bytes of a trivially copyable value (a value of \<open>T\<close> is its byte image
  here), \<open>JointStateCodec\<close> and \<open>JointCommandCodec\<close> forward to the Tier 1 serializer. The contract
  that the header documents for a codec and the client relies on is stated as two locales, one
  for each direction, and each codec is shown to be an instance.
\<close>

section \<open>The code\<close>

definition raw_init :: "unit \<Rightarrow> bytes \<Rightarrow> (unit \<times> bytes) option" where
  "raw_init p buf = Some ((), buf)"

definition raw_payload_size :: "size_t \<Rightarrow> unit \<Rightarrow> size_t" where
  "raw_payload_size sizeof_T ctx = sizeof_T"

definition raw_write :: "size_t \<Rightarrow> unit \<Rightarrow> bytes \<Rightarrow> bytes \<Rightarrow> bytes option" where
  "raw_write sizeof_T ctx v buf = do {
     src \<leftarrow> mem_read v 0 (unat sizeof_T);
     mem_write buf 0 src
   }"

definition raw_read ::
  "size_t \<Rightarrow> unit \<Rightarrow> bytes \<Rightarrow> size_t \<Rightarrow> bytes \<Rightarrow> (bool \<times> bytes) option" where
  "raw_read sizeof_T ctx buf sz out =
     (if sz < sizeof_T then Some (False, out)
      else do {
        src \<leftarrow> mem_read buf 0 (unat sizeof_T);
        out' \<leftarrow> mem_write out 0 src;
        Some (True, out')
      })"

record joint_state_params =
  frame_id :: "string option"
  joint_names :: "string list"
  p_num_joints :: uint32

record joint_state_value =
  stamp_sec :: uint32
  stamp_nanosec :: uint32
  positions :: "f64 list option"
  velocities :: "f64 list option"
  efforts :: "f64 list option"

definition joint_state_init ::
  "joint_state_params \<Rightarrow> bytes \<Rightarrow> (zcdr_joint_state_ctx_t \<times> bytes) option" where
  "joint_state_init p buf = zcdr_init_joint_state (frame_id p) (joint_names p) (p_num_joints p) buf"

definition joint_state_payload_size :: "zcdr_joint_state_ctx_t \<Rightarrow> size_t" where
  "joint_state_payload_size ctx = payload_size ctx"

definition joint_state_write ::
  "zcdr_joint_state_ctx_t \<Rightarrow> joint_state_value \<Rightarrow> bytes \<Rightarrow> bytes option" where
  "joint_state_write ctx v buf =
     zcdr_serialize_joint_state ctx (stamp_sec v) (stamp_nanosec v) (positions v) (velocities v)
       (efforts v) buf"

record joint_command_params =
  cmd_frame_id :: "string option"
  cmd_joint_names :: "string list"
  cmd_num_joints :: uint32
  interface_name :: "string option"

record joint_command_value =
  cmd_stamp_sec :: uint32
  cmd_stamp_nanosec :: uint32
  cmd_values :: "f64 list option"

definition joint_command_init ::
  "joint_command_params \<Rightarrow> bytes \<Rightarrow> (zcdr_joint_command_ctx_t \<times> bytes) option" where
  "joint_command_init p buf =
     zcdr_init_joint_command (cmd_frame_id p) (cmd_joint_names p) (cmd_num_joints p)
       (interface_name p) buf"

definition joint_command_payload_size :: "zcdr_joint_command_ctx_t \<Rightarrow> size_t" where
  "joint_command_payload_size ctx = c_payload_size ctx"

text \<open>\<open>read\<close> passes the addresses of the two stamps, never null, and the caller's array.\<close>

definition joint_command_read ::
  "zcdr_joint_command_ctx_t \<Rightarrow> bytes \<Rightarrow> size_t \<Rightarrow> joint_command_value
     \<Rightarrow> (bool \<times> joint_command_value) option" where
  "joint_command_read ctx buf sz out =
     map_option
       (\<lambda>(ok, o'). (ok, \<lparr>cmd_stamp_sec = the (c_out_stamp_sec o'),
          cmd_stamp_nanosec = the (c_out_stamp_nanosec o'), cmd_values = c_out_values o'\<rparr>))
       (zcdr_deserialize_joint_command ctx buf sz
          \<lparr>c_out_stamp_sec = Some (cmd_stamp_sec out),
           c_out_stamp_nanosec = Some (cmd_stamp_nanosec out), c_out_values = cmd_values out\<rparr>)"

section \<open>The contract\<close>

text \<open>
  A codec of outgoing values. \<open>bytes_needed\<close> is the wire size the parameters ask for, \<open>holds p b\<close> says
  that the buffer \<open>b\<close> carries the template or a message of this codec, \<open>complete\<close> says which values
  determine the whole message, and \<open>wire\<close> is that message.
\<close>

locale state_codec =
  fixes cinit :: "'p \<Rightarrow> bytes \<Rightarrow> ('c \<times> bytes) option"
    and csize :: "'c \<Rightarrow> size_t"
    and cwrite :: "'c \<Rightarrow> 'v \<Rightarrow> bytes \<Rightarrow> bytes option"
    and valid :: "'p \<Rightarrow> bool"
    and bytes_needed :: "'p \<Rightarrow> nat"
    and context_of :: "'p \<Rightarrow> 'c"
    and holds :: "'p \<Rightarrow> bytes \<Rightarrow> bool"
    and complete :: "'p \<Rightarrow> 'v \<Rightarrow> bool"
    and wire :: "'p \<Rightarrow> 'v \<Rightarrow> bytes"
  assumes init_template: "valid p \<Longrightarrow> bytes_needed p \<le> cap \<Longrightarrow> cap \<le> 2 ^ 31 \<Longrightarrow>
      \<exists>b. cinit p (replicate cap 0) = Some (context_of p, b) \<and> length b = cap \<and> holds p b"
    and size_of_context: "valid p \<Longrightarrow> bytes_needed p \<le> 2 ^ 31 \<Longrightarrow>
      unat (csize (context_of p)) = bytes_needed p"
    and write_wire: "valid p \<Longrightarrow> bytes_needed p \<le> 2 ^ 31 \<Longrightarrow> holds p b \<Longrightarrow> complete p v \<Longrightarrow>
      \<exists>b'. cwrite (context_of p) v b = Some b' \<and> length b' = length b \<and> holds p b' \<and>
           take (bytes_needed p) b' = wire p v"
begin

text \<open>However many messages were patched into a slot before, what counts is the last one.\<close>

primrec write_all :: "'p \<Rightarrow> 'v list \<Rightarrow> bytes \<Rightarrow> bytes option" where
  "write_all p [] b = Some b"
| "write_all p (v # vs) b = Option.bind (cwrite (context_of p) v b) (write_all p vs)"

lemma write_all_holds:
  "valid p \<Longrightarrow> bytes_needed p \<le> 2 ^ 31 \<Longrightarrow> holds p b \<Longrightarrow> \<forall>v \<in> set vs. complete p v \<Longrightarrow>
   \<exists>b'. write_all p vs b = Some b' \<and> length b' = length b \<and> holds p b'"
proof (induction vs arbitrary: b)
  case Nil
  then show ?case by simp
next
  case (Cons v vs)
  then obtain b1 where b1: "cwrite (context_of p) v b = Some b1" "length b1 = length b" "holds p b1"
    using write_wire by (metis list.set_intros(1))
  then obtain b2 where "write_all p vs b1 = Some b2" "length b2 = length b1" "holds p b2"
    using Cons by (metis list.set_intros(2))
  with b1 show ?case by simp
qed

lemma write_all_snoc:
  "write_all p (vs @ [v]) b = Option.bind (write_all p vs b) (cwrite (context_of p) v)"
  by (induction vs arbitrary: b) (auto split: Option.bind_splits)

lemma last_write_wins:
  assumes "valid p" "bytes_needed p \<le> 2 ^ 31" "holds p b"
    and "\<forall>v \<in> set vs. complete p v" "complete p v"
  shows "\<exists>b'. write_all p (vs @ [v]) b = Some b' \<and> take (bytes_needed p) b' = wire p v"
  using write_all_holds [OF assms(1-4)] write_wire [OF assms(1,2) _ assms(5)]
  by (fastforce simp: write_all_snoc)

end

text \<open>
  A codec of incoming values: the context does not depend on the contents of the scratch buffer,
  which the client leaves uninitialised; a payload of the agreed size is always read, without
  touching bytes behind it; a shorter one is refused; the wire form of a value reads back.
\<close>

locale command_codec =
  fixes rinit :: "'p \<Rightarrow> bytes \<Rightarrow> ('c \<times> bytes) option"
    and rsize :: "'c \<Rightarrow> size_t"
    and rread :: "'c \<Rightarrow> bytes \<Rightarrow> size_t \<Rightarrow> 'v \<Rightarrow> (bool \<times> 'v) option"
    and rvalid :: "'p \<Rightarrow> bool"
    and rbytes_needed :: "'p \<Rightarrow> nat"
    and rcontext_of :: "'p \<Rightarrow> 'c"
    and room :: "'p \<Rightarrow> 'v \<Rightarrow> bool"
    and rwire :: "'p \<Rightarrow> 'v \<Rightarrow> bytes"
  assumes init_any_scratch: "rvalid p \<Longrightarrow> rbytes_needed p \<le> length b \<Longrightarrow> length b \<le> 2 ^ 31 \<Longrightarrow>
      \<exists>b'. rinit p b = Some (rcontext_of p, b')"
    and rsize_of_context: "rvalid p \<Longrightarrow> rbytes_needed p \<le> 2 ^ 31 \<Longrightarrow>
      unat (rsize (rcontext_of p)) = rbytes_needed p"
    and read_total: "rvalid p \<Longrightarrow> rbytes_needed p \<le> 2 ^ 31 \<Longrightarrow> room p out \<Longrightarrow>
      rbytes_needed p \<le> length b \<Longrightarrow> rbytes_needed p \<le> unat sz \<Longrightarrow>
      \<exists>out'. rread (rcontext_of p) b sz out = Some (True, out') \<and> room p out'"
    and read_short: "rvalid p \<Longrightarrow> rbytes_needed p \<le> 2 ^ 31 \<Longrightarrow> unat sz < rbytes_needed p \<Longrightarrow>
      rread (rcontext_of p) b sz out = Some (False, out)"
    and read_wire: "rvalid p \<Longrightarrow> rbytes_needed p \<le> 2 ^ 31 \<Longrightarrow> room p out \<Longrightarrow> room p v \<Longrightarrow>
      rbytes_needed p \<le> unat sz \<Longrightarrow>
      rread (rcontext_of p) (rwire p v @ rest) sz out = Some (True, v)"
    and rwire_length: "rvalid p \<Longrightarrow> rbytes_needed p \<le> 2 ^ 31 \<Longrightarrow> room p v \<Longrightarrow>
      length (rwire p v) = rbytes_needed p"
begin

lemma read_never_faults:
  assumes "rvalid p" "rbytes_needed p \<le> 2 ^ 31" "room p out" "unat sz \<le> length b"
  shows "\<exists>r. rread (rcontext_of p) b sz out = Some r \<and> (fst r \<longleftrightarrow> rbytes_needed p \<le> unat sz)"
  using assms read_total [of p out b sz] read_short [of p sz b out]
  by (cases "rbytes_needed p \<le> unat sz") auto

end

section \<open>\<open>RawCodec\<close> is both\<close>

definition raw_image :: "size_t \<Rightarrow> bytes \<Rightarrow> bool" where
  "raw_image sizeof_T v \<longleftrightarrow> length v = unat sizeof_T"

definition raw_holds :: "size_t \<Rightarrow> bytes \<Rightarrow> bool" where
  "raw_holds sizeof_T b \<longleftrightarrow> unat sizeof_T \<le> length b"

interpretation raw_state: state_codec raw_init "raw_payload_size n" "raw_write n" "\<lambda>_. True"
  "\<lambda>_. unat n" "\<lambda>_. ()" "\<lambda>_. raw_holds n" "\<lambda>_. raw_image n" "\<lambda>_ v. v" for n
proof
  fix p :: unit and b v :: bytes and cap :: nat
  show "unat n \<le> cap \<Longrightarrow>
      \<exists>b. raw_init p (replicate cap 0) = Some ((), b) \<and> length b = cap \<and> raw_holds n b"
    by (simp add: raw_init_def raw_holds_def)
  show "unat (raw_payload_size n ()) = unat n"
    by (simp add: raw_payload_size_def)
  show "raw_holds n b \<Longrightarrow> raw_image n v \<Longrightarrow>
      \<exists>b'. raw_write n () v b = Some b' \<and> length b' = length b \<and> raw_holds n b' \<and>
        take (unat n) b' = v"
    by (simp add: raw_write_def raw_holds_def raw_image_def mem_read_def mem_write_def blit_def)
qed

interpretation raw_command: command_codec raw_init "raw_payload_size n" "raw_read n" "\<lambda>_. True"
  "\<lambda>_. unat n" "\<lambda>_. ()" "\<lambda>_. raw_image n" "\<lambda>_ v. v" for n
proof
  fix p :: unit and b v out rest :: bytes and sz :: size_t
  show "\<exists>b'. raw_init p b = Some ((), b')"
    by (simp add: raw_init_def)
  show "unat (raw_payload_size n ()) = unat n"
    by (simp add: raw_payload_size_def)
  show "unat sz < unat n \<Longrightarrow> raw_read n () b sz out = Some (False, out)"
    by (simp add: raw_read_def word_less_nat_alt)
  show "length v = unat n" if "raw_image n v"
    using that by (simp add: raw_image_def)
  assume out: "raw_image n out" and sz: "unat n \<le> unat sz"
  have nsz: "\<not> sz < n" using sz by (simp add: word_less_nat_alt)
  show "\<exists>out'. raw_read n () b sz out = Some (True, out') \<and> raw_image n out'"
    if "unat n \<le> length b"
    using that out nsz by (simp add: raw_read_def raw_image_def mem_read_def mem_write_def blit_def)
  show "raw_read n () (v @ rest) sz out = Some (True, v)" if "raw_image n v"
    using that out nsz by (simp add: raw_read_def raw_image_def mem_read_def mem_write_def blit_def)
qed

section \<open>\<open>JointStateCodec\<close> is a state codec\<close>

definition js_params_ok :: "joint_state_params \<Rightarrow> bool" where
  "js_params_ok p \<longleftrightarrow> unat (p_num_joints p) \<le> length (joint_names p)"

definition js_of :: "joint_state_params \<Rightarrow> joint_state_msg" where
  "js_of p = js_template (frame_id p) (joint_names p) (p_num_joints p)"

definition js_bytes :: "joint_state_params \<Rightarrow> nat" where
  "js_bytes p = 4 + length (lay_joint_state (js_of p))"

definition js_context :: "joint_state_params \<Rightarrow> zcdr_joint_state_ctx_t" where
  "js_context p = js_ctx (p_num_joints p) (js_of p)"

definition js_same :: "joint_state_params \<Rightarrow> joint_state_msg \<Rightarrow> bool" where
  "js_same p m \<longleftrightarrow> js_wf (p_num_joints p) m \<and> js_frame m = js_frame (js_of p) \<and>
     js_names m = js_names (js_of p)"

definition js_holds :: "joint_state_params \<Rightarrow> bytes \<Rightarrow> bool" where
  "js_holds p b \<longleftrightarrow> (\<exists>m rest. js_same p m \<and> b = kCdrHeader @ lay_joint_state m @ rest)"

definition js_complete :: "joint_state_params \<Rightarrow> joint_state_value \<Rightarrow> bool" where
  "js_complete p v \<longleftrightarrow>
     (\<forall>a \<in> {positions v, velocities v, efforts v}. a \<noteq> None \<and> array_ok (p_num_joints p) a)"

definition js_message :: "joint_state_params \<Rightarrow> joint_state_value \<Rightarrow> joint_state_msg" where
  "js_message p v =
     js_patch (p_num_joints p) (stamp_sec v) (stamp_nanosec v) (positions v) (velocities v)
       (efforts v) (js_of p)"

definition js_wire :: "joint_state_params \<Rightarrow> joint_state_value \<Rightarrow> bytes" where
  "js_wire p v = kCdrHeader @ lay_joint_state (js_message p v)"

lemma js_same_template: "js_params_ok p \<Longrightarrow> js_same p (js_of p)"
  by (simp add: js_same_def js_of_def js_template_def js_wf_def js_params_ok_def)

lemma js_same_layout:
  assumes "js_params_ok p" "js_same p m"
  shows "length (lay_joint_state m) = length (lay_joint_state (js_of p))"
    and "4 + length (lay_joint_state m) = js_bytes p"
  using assms js_same_template [OF assms(1)] lay_joint_state_length [of "p_num_joints p" "js_of p" m]
  by (simp_all add: js_same_def js_bytes_def)

lemma js_same_ctx:
  assumes "js_params_ok p" "js_same p m" "js_bytes p \<le> 2 ^ 31"
  shows "js_ctx (p_num_joints p) m = js_context p"
proof -
  have same: "js_same p (js_of p)" by (rule js_same_template [OF assms(1)])
  show ?thesis
    by (rule js_split [of "p_num_joints p" "js_frame (js_of p)" "js_names (js_of p)"])
      (use assms same js_same_layout(1) [OF assms(1,2)] in \<open>simp add: js_same_def js_context_def js_wf_def\<close>)
qed

lemma js_message_patch:
  assumes "js_complete p v" "js_same p m"
  shows "js_patch (p_num_joints p) (stamp_sec v) (stamp_nanosec v) (positions v) (velocities v)
     (efforts v) m = js_message p v"
  using assms by (cases m; cases "js_of p")
    (auto simp: js_message_def js_patch_def js_complete_def js_same_def pick_def)

interpretation joint_state: state_codec joint_state_init joint_state_payload_size
  joint_state_write js_params_ok js_bytes js_context js_holds js_complete js_wire
proof
  fix p :: joint_state_params and v :: joint_state_value and b :: bytes and cap :: nat
  assume ok: "js_params_ok p"
  show "\<exists>b. joint_state_init p (replicate cap 0) = Some (js_context p, b) \<and> length b = cap \<and>
      js_holds p b" if "js_bytes p \<le> cap" "cap \<le> 2 ^ 31"
  proof -
    have "zcdr_init_joint_state (frame_id p) (joint_names p) (p_num_joints p) (replicate cap 0) =
        Some (js_context p, kCdrHeader @ lay_joint_state (js_of p) @
          replicate (cap - (4 + length (lay_joint_state (js_of p)))) 0)"
      unfolding js_context_def js_of_def
      by (rule zcdr_init_joint_state_layout)
        (use ok that in \<open>simp_all add: js_params_ok_def js_bytes_def js_of_def fits_def\<close>)
    then show ?thesis
      using that js_same_template [OF ok] by (auto simp: joint_state_init_def js_holds_def js_bytes_def)
  qed
  assume small: "js_bytes p \<le> 2 ^ 31"
  then show "unat (joint_state_payload_size (js_context p)) = js_bytes p"
    by (simp add: joint_state_payload_size_def js_context_def js_bytes_def payload_size_js)
  show "\<exists>b'. joint_state_write (js_context p) v b = Some b' \<and> length b' = length b \<and> js_holds p b' \<and>
      take (js_bytes p) b' = js_wire p v" if holds: "js_holds p b" and full: "js_complete p v"
  proof -
    obtain m rest where m: "js_same p m" "b = kCdrHeader @ lay_joint_state m @ rest"
      using holds unfolding js_holds_def by blast
    have patched: "js_same p (js_message p v)"
      using js_same_template [OF ok] full
      by (auto simp: js_same_def js_message_def js_patch_def js_wf_def js_complete_def array_ok_def
          pick_def split: option.splits)
    have "joint_state_write (js_context p) v b = Some (js_wire p v @ rest)"
      using serialize_joint_state_lay(1) [of "p_num_joints p" m "positions v" "velocities v"
          "efforts v" "stamp_sec v" "stamp_nanosec v" rest] small full m
        js_same_layout [OF ok m(1)]
      by (simp add: joint_state_write_def js_wire_def js_complete_def js_same_def
          js_same_ctx [OF ok m(1) small] js_message_patch [OF full m(1)])
    then show ?thesis
      using patched js_same_layout [OF ok patched] js_same_layout [OF ok m(1)] m(2)
      by (auto simp: js_holds_def js_wire_def)
  qed
qed

section \<open>\<open>JointCommandCodec\<close> is a command codec\<close>

text \<open>What the offsets are does not depend on the bytes of the buffer they are computed in, which for
  the client is uninitialised stack memory: two writers in the same position over buffers of the same
  length stay so.\<close>

definition same_shape :: "writer \<Rightarrow> writer \<Rightarrow> bool" where
  "same_shape w w' \<longleftrightarrow> fst w = fst w' \<and> length (snd w) = length (snd w')"

lemma put_shape: "same_shape w w' \<Longrightarrow> rel_option same_shape (put bs w) (put bs w')"
  by (auto simp: same_shape_def put_def mem_write_def split: if_splits)

lemma align_shape: "same_shape w w' \<Longrightarrow> same_shape (align a w) (align a w')"
  and skip_shape: "same_shape w w' \<Longrightarrow> same_shape (skip n w) (skip n w')"
  by (auto simp: same_shape_def align_def skip_def)

lemma rel_option_bindI:
  "rel_option R x y \<Longrightarrow> (\<And>a b. R a b \<Longrightarrow> rel_option S (f a) (g b)) \<Longrightarrow>
   rel_option S (Option.bind x f) (Option.bind y g)"
  by (cases x; cases y) auto

lemma put_opt_string_shape:
  "same_shape w w' \<Longrightarrow> rel_option same_shape (put_opt_string so w) (put_opt_string so w')"
  unfolding put_opt_string_def Let_def
  by (rule rel_option_bindI [OF put_shape]) (auto split: option.splits intro: put_shape)

lemma put_names_shape:
  "same_shape w w' \<Longrightarrow> rel_option same_shape (put_names names n w) (put_names names n w')"
proof (induction n arbitrary: names w w')
  case 0
  then show ?case by simp
next
  case (Suc n)
  note step = rel_option_bindI [OF put_shape [OF align_shape [OF Suc.prems]]]
    rel_option_bindI [OF put_shape]
  show ?case
  proof (cases names)
    case (Cons s ss)
    show ?thesis
      unfolding Cons put_names.simps Let_def by (rule step(1), rule step(2)) (assumption, rule Suc.IH)
  qed simp
qed

lemma put_count_shape:
  "same_shape w w' \<Longrightarrow> rel_option same_shape (put_count n w) (put_count n w')"
  unfolding put_count_def option.rel_map
  by (rule option.rel_mono_strong [OF put_shape [OF align_shape]]) (auto intro: align_shape)

lemma put_header_shape:
  assumes "length b = length b'"
  shows "rel_option (\<lambda>x y. fst x = fst y \<and> same_shape (snd x) (snd y))
     (put_header fr names n b) (put_header fr names n b')"
proof -
  have start: "same_shape (0, b) (0, b')" using assms by (simp add: same_shape_def)
  show ?thesis
    unfolding put_header_def Let_def
    by (rule rel_option_bindI [OF put_shape [OF start]]
          rel_option_bindI [OF put_opt_string_shape [OF skip_shape]]
          rel_option_bindI [OF put_shape [OF align_shape]]
          rel_option_bindI [OF put_names_shape] | assumption)+
      (auto simp: same_shape_def)
qed

lemma joint_command_init_shape:
  assumes "length b = length b'"
  shows "rel_option (\<lambda>x y. fst x = fst y) (joint_command_init p b) (joint_command_init p b')"
proof -
  have "rel_option (\<lambda>x y. fst x = fst y)
      (zcdr_init_joint_command fr names n iface b) (zcdr_init_joint_command fr names n iface b')"
    for fr names n iface
    unfolding zcdr_init_joint_command_def Let_def
  proof (rule rel_option_bindI [OF put_header_shape [OF assms]], clarsimp)
    fix ts c d c' d'
    assume "same_shape (c, d) (c', d')"
    then show "rel_option (\<lambda>x y. fst x = fst y)
        (put_opt_string iface (align 4 (c, d)) \<bind> (\<lambda>w. put_count n w \<bind>
          (\<lambda>w. Some (\<lparr>c_num_joints = n, c_offset_timestamp = ts, c_offset_values = fst w,
             c_payload_size = fst (skip (8 * n) w)\<rparr>, snd (skip (8 * n) w)))))
        (put_opt_string iface (align 4 (c', d')) \<bind> (\<lambda>w. put_count n w \<bind>
          (\<lambda>w. Some (\<lparr>c_num_joints = n, c_offset_timestamp = ts, c_offset_values = fst w,
             c_payload_size = fst (skip (8 * n) w)\<rparr>, snd (skip (8 * n) w)))))"
      by (intro rel_option_bindI [OF put_opt_string_shape [OF align_shape]]
          rel_option_bindI [OF put_count_shape]) (auto simp: same_shape_def skip_def)
  qed
  then show ?thesis by (simp add: joint_command_init_def)
qed

definition jc_params_ok :: "joint_command_params \<Rightarrow> bool" where
  "jc_params_ok p \<longleftrightarrow> unat (cmd_num_joints p) \<le> length (cmd_joint_names p)"

definition jc_of :: "joint_command_params \<Rightarrow> joint_command_msg" where
  "jc_of p = jc_template (cmd_frame_id p) (cmd_joint_names p) (cmd_num_joints p) (interface_name p)"

definition jc_bytes :: "joint_command_params \<Rightarrow> nat" where
  "jc_bytes p = 4 + length (lay_joint_command (jc_of p))"

definition jc_context :: "joint_command_params \<Rightarrow> zcdr_joint_command_ctx_t" where
  "jc_context p = jc_ctx (cmd_num_joints p) (jc_of p)"

text \<open>The caller provides an array of exactly \<open>num_joints\<close> elements.\<close>

definition jc_room :: "joint_command_params \<Rightarrow> joint_command_value \<Rightarrow> bool" where
  "jc_room p v \<longleftrightarrow> (\<exists>ds. cmd_values v = Some ds \<and> length ds = unat (cmd_num_joints p))"

definition jc_message :: "joint_command_params \<Rightarrow> joint_command_value \<Rightarrow> joint_command_msg" where
  "jc_message p v =
     jc_patch (cmd_num_joints p) (cmd_stamp_sec v) (cmd_stamp_nanosec v) (cmd_values v) (jc_of p)"

definition jc_wire :: "joint_command_params \<Rightarrow> joint_command_value \<Rightarrow> bytes" where
  "jc_wire p v = kCdrHeader @ lay_joint_command (jc_message p v)"

lemma jc_wf_of: "jc_params_ok p \<Longrightarrow> jc_wf (cmd_num_joints p) (jc_of p)"
  by (simp add: jc_of_def jc_template_def jc_wf_def jc_params_ok_def)

lemma jc_wf_message:
  "jc_params_ok p \<Longrightarrow> jc_room p v \<Longrightarrow> jc_wf (cmd_num_joints p) (jc_message p v)"
  unfolding jc_message_def
  by (rule jc_wf_patch [OF jc_wf_of]) (auto simp: jc_room_def array_ok_def)

lemma jc_message_layout:
  assumes "jc_params_ok p" "jc_room p v"
  shows "4 + length (lay_joint_command (jc_message p v)) = jc_bytes p"
  using lay_joint_command_length [OF jc_wf_of [OF assms(1)] jc_wf_message [OF assms]]
  by (simp add: jc_message_def jc_patch_def jc_bytes_def)

lemma jc_message_ctx:
  assumes "jc_params_ok p" "jc_room p v"
  shows "jc_ctx (cmd_num_joints p) (jc_message p v) = jc_context p"
proof (rule jc_split [of "cmd_num_joints p" "jc_frame (jc_of p)" "jc_names (jc_of p)"
      "jc_interface (jc_of p)"])
  fix X
  assume X: "\<And>m. jc_wf (cmd_num_joints p) m \<Longrightarrow> jc_frame m = jc_frame (jc_of p) \<Longrightarrow>
      jc_names m = jc_names (jc_of p) \<Longrightarrow> jc_interface m = jc_interface (jc_of p) \<Longrightarrow>
      lay_joint_command m = le32 (jc_sec m) @ le32 (jc_nanosec m) @ X @ le64s (jc_values m) \<and>
      jc_ctx (cmd_num_joints p) m = \<lparr>c_num_joints = cmd_num_joints p, c_offset_timestamp = 4,
        c_offset_values = word_of_nat (12 + length X),
        c_payload_size = word_of_nat (4 + length (lay_joint_command m))\<rparr>"
  have len: "length (lay_joint_command (jc_message p v)) = length (lay_joint_command (jc_of p))"
    using jc_message_layout [OF assms] by (simp add: jc_bytes_def)
  have msg: "jc_frame (jc_message p v) = jc_frame (jc_of p)"
    "jc_names (jc_message p v) = jc_names (jc_of p)"
    "jc_interface (jc_message p v) = jc_interface (jc_of p)"
    by (simp_all add: jc_message_def jc_patch_def)
  show ?thesis
    using X [OF jc_wf_message [OF assms] msg, THEN conjunct2]
      X [OF jc_wf_of [OF assms(1)] refl refl refl, THEN conjunct2]
    unfolding jc_context_def len by simp
qed

lemma jc_offsets:
  assumes "jc_params_ok p" "jc_bytes p \<le> 2 ^ 31"
  shows "c_num_joints (jc_context p) = cmd_num_joints p" "c_offset_timestamp (jc_context p) = 4"
    "unat (c_payload_size (jc_context p)) = jc_bytes p" "12 \<le> unat (c_offset_values (jc_context p))"
    "unat (c_offset_values (jc_context p)) + 8 * unat (cmd_num_joints p) = jc_bytes p"
proof -
  obtain X where X: "lay_joint_command (jc_of p) = le32 (jc_sec (jc_of p)) @ le32 (jc_nanosec (jc_of p)) @
      X @ le64s (jc_values (jc_of p))"
    "jc_context p = \<lparr>c_num_joints = cmd_num_joints p, c_offset_timestamp = 4,
        c_offset_values = word_of_nat (12 + length X),
        c_payload_size = word_of_nat (4 + length (lay_joint_command (jc_of p)))\<rparr>"
    using jc_wf_of [OF assms(1)] unfolding jc_context_def
    by (rule_tac jc_split [of "cmd_num_joints p" "jc_frame (jc_of p)" "jc_names (jc_of p)"
      "jc_interface (jc_of p)"]) blast
  have len: "12 + length X + 8 * unat (cmd_num_joints p) = jc_bytes p"
    using X(1) jc_wf_of [OF assms(1)] by (simp add: jc_bytes_def jc_wf_def)
  have off: "unat (c_offset_values (jc_context p)) = 12 + length X"
    unfolding X(2) zcdr_joint_command_ctx_t.simps
    by (rule unat_word32_of_nat) (use len assms(2) in simp)
  show "unat (c_payload_size (jc_context p)) = jc_bytes p"
    unfolding X(2) zcdr_joint_command_ctx_t.simps jc_bytes_def
    by (rule unat_word32_of_nat) (use assms(2) in \<open>simp add: jc_bytes_def\<close>)
  show "c_num_joints (jc_context p) = cmd_num_joints p" "c_offset_timestamp (jc_context p) = 4"
    by (simp_all add: X(2))
  show "12 \<le> unat (c_offset_values (jc_context p))"
    "unat (c_offset_values (jc_context p)) + 8 * unat (cmd_num_joints p) = jc_bytes p"
    unfolding off using len by simp_all
qed

lemma read_array_to_total:
  assumes "unat off + 8 * unat n \<le> length b" "8 * unat n < 2 ^ 32" "length ds = unat n"
  shows "\<exists>ds'. read_array_to (Some ds) b off n = Some (Some ds') \<and> length ds' = unat n"
proof -
  have n8: "unat (n * 8) = 8 * unat n" using assms(2) by (rule unat_times_8)
  have "length (of_le64s k bs) = k" for k bs by (induction k arbitrary: bs) auto
  then show ?thesis
    using assms by (simp add: read_array_to_def n8 mem_read_def mem_write_def)
qed

interpretation joint_command: command_codec joint_command_init joint_command_payload_size
  joint_command_read jc_params_ok jc_bytes jc_context jc_room jc_wire
proof
  fix p :: joint_command_params and v out :: joint_command_value and b rest :: bytes
    and sz :: size_t
  assume ok: "jc_params_ok p"
  show "\<exists>b'. joint_command_init p b = Some (jc_context p, b')"
    if "jc_bytes p \<le> length b" "length b \<le> 2 ^ 31"
  proof -
    have "\<exists>z. zcdr_init_joint_command (cmd_frame_id p) (cmd_joint_names p) (cmd_num_joints p)
        (interface_name p) (replicate (length b) 0) = Some (jc_context p, z)"
      unfolding jc_context_def jc_of_def
      by (subst zcdr_init_joint_command_layout)
        (use ok that in \<open>simp_all add: jc_params_ok_def jc_bytes_def jc_of_def fits_def\<close>)
    then have "\<exists>z. joint_command_init p (replicate (length b) 0) = Some (jc_context p, z)"
      by (simp add: joint_command_init_def)
    then show ?thesis
      using joint_command_init_shape [of b "replicate (length b) 0" p]
      by (cases "joint_command_init p b") auto
  qed
  assume small: "jc_bytes p \<le> 2 ^ 31"
  note off = jc_offsets [OF ok small]
  show "unat (joint_command_payload_size (jc_context p)) = jc_bytes p"
    by (simp add: joint_command_payload_size_def off)
  show "joint_command_read (jc_context p) b sz out = Some (False, out)" if "unat sz < jc_bytes p"
    using that off(3)
    by (simp add: joint_command_read_def zcdr_deserialize_joint_command_def word_less_nat_alt)
  show "length (jc_wire p v) = jc_bytes p" if "jc_room p v"
    using jc_message_layout [OF ok that] by (simp add: jc_wire_def)
  assume room: "jc_room p out" and sz: "jc_bytes p \<le> unat sz"
  have nsz: "\<not> sz < c_payload_size (jc_context p)"
    using sz off(3) by (simp add: word_less_nat_alt)
  obtain ds where ds: "cmd_values out = Some ds" "length ds = unat (cmd_num_joints p)"
    using room by (auto simp: jc_room_def)
  show "\<exists>out'. joint_command_read (jc_context p) b sz out = Some (True, out') \<and> jc_room p out'"
    if long: "jc_bytes p \<le> length b"
  proof -
    obtain ds' where ds': "read_array_to (Some ds) b (c_offset_values (jc_context p))
        (cmd_num_joints p) = Some (Some ds')" "length ds' = unat (cmd_num_joints p)"
      using read_array_to_total [of "c_offset_values (jc_context p)" "cmd_num_joints p" b ds]
        off(5) long ds small by auto
    have "12 \<le> length b" using off(4,5) long by simp
    with nsz ds ds' show ?thesis
      by (simp add: joint_command_read_def zcdr_deserialize_joint_command_def off(1,2) read_u32_to_def
          mem_read_def jc_room_def)
  qed
  show "joint_command_read (jc_context p) (jc_wire p v @ rest) sz out = Some (True, v)"
    if v: "jc_room p v"
  proof -
    let ?out = "\<lparr>c_out_stamp_sec = Some (cmd_stamp_sec out),
      c_out_stamp_nanosec = Some (cmd_stamp_nanosec out), c_out_values = cmd_values out\<rparr>"
    have le: "c_payload_size (jc_ctx (cmd_num_joints p) (jc_message p v)) \<le> sz"
      using nsz by (simp add: jc_message_ctx [OF ok v])
    have "array_ok (cmd_num_joints p) (c_out_values ?out)" using ds by (simp add: array_ok_def)
    note read = deserialize_joint_command_lay [OF jc_wf_message [OF ok v] _ this le, of rest]
    obtain vs where vs: "cmd_values v = Some vs" "length vs = unat (cmd_num_joints p)"
      using v by (auto simp: jc_room_def)
    then show ?thesis
      using read small ds jc_message_layout [OF ok v]
      by (simp add: joint_command_read_def jc_wire_def jc_message_ctx [OF ok v] keep_u32_def
          keep_array_def) (simp add: jc_message_def jc_patch_def pick_def)
  qed
qed

end
