(* ===== verification/Rihs_Ledger.thy ===== *)
theory Rihs_Ledger
  imports Prelude
begin

text \<open>
  The ledger of type hashes (\<open>zenbedded_transport/rihs_ledger.h\<close>). The transport asks it for the
  RIHS01 hash of a message type when it builds a Tier 1 key expression; a type that is not listed
  cannot be declared. C strings are \<open>string\<close>s, a null pointer is \<open>None\<close>, and \<open>strcmp\<close> is
  equality of strings.
\<close>

record zenbedded_rihs_mapping_t =
  entry_type_name :: string
  rihs_hash :: string

definition RIHS_LEDGER :: "zenbedded_rihs_mapping_t list" where
  "RIHS_LEDGER =
    [\<lparr>entry_type_name = ''sensor_msgs::msg::dds_::JointState_'',
      rihs_hash = ''RIHS01_a13ee3a330e346c9d87b5aa18d24e11690752bd33a0350f11c5882bc9179260e''\<rparr>,
     \<lparr>entry_type_name = ''control_msgs::msg::dds_::JointCommand_'',
      rihs_hash = ''RIHS01_6080a1df9d28b6badffa5efb27d4ba4ae657c4f6dd2b519b178a32db12405985''\<rparr>,
     \<lparr>entry_type_name = ''sensor_msgs::msg::dds_::Imu_'',
      rihs_hash = ''RIHS01_7d9a00ff131080897a5ec7e26e315954b8eae3353c3f995c55faf71574000b5b''\<rparr>]"

text \<open>The loop over the ledger: the first entry whose name compares equal wins.\<close>

fun ledger_scan :: "zenbedded_rihs_mapping_t list \<Rightarrow> string \<Rightarrow> string option" where
  "ledger_scan [] t = None"
| "ledger_scan (e # es) t =
     (if entry_type_name e = t then Some (rihs_hash e) else ledger_scan es t)"

definition zenbedded_get_rihs_hash :: "string option \<Rightarrow> string option" where
  "zenbedded_get_rihs_hash t =
     (case t of None \<Rightarrow> None | Some t \<Rightarrow> ledger_scan RIHS_LEDGER t)"

lemma ledger_scan_Some:
  "ledger_scan es t = Some h \<Longrightarrow> \<exists>e \<in> set es. entry_type_name e = t \<and> rihs_hash e = h"
  by (induction es t rule: ledger_scan.induct) (auto split: if_splits)

lemma ledger_scan_None:
  "ledger_scan es t = None \<longleftrightarrow> (\<forall>e \<in> set es. entry_type_name e \<noteq> t)"
  by (induction es t rule: ledger_scan.induct) auto

lemma ledger_scan_mem:
  "distinct (map entry_type_name es) \<Longrightarrow> e \<in> set es \<Longrightarrow>
   ledger_scan es (entry_type_name e) = Some (rihs_hash e)"
  by (induction es) force+

text \<open>A well-formed hash: the version prefix and 64 lower-case hexadecimal digits.\<close>

definition hex_digit :: "char \<Rightarrow> bool" where
  "hex_digit c \<longleftrightarrow> c \<in> set ''0123456789abcdef''"

definition rihs01_hash :: "string \<Rightarrow> bool" where
  "rihs01_hash h \<longleftrightarrow>
     take 7 h = ''RIHS01_'' \<and> length h = 7 + 64 \<and> list_all hex_digit (drop 7 h)"

lemma ledger_hashes: "list_all (\<lambda>e. rihs01_hash (rihs_hash e)) RIHS_LEDGER"
  by code_simp

lemma ledger_names_distinct: "distinct (map entry_type_name RIHS_LEDGER)"
  by code_simp

lemma get_rihs_hash_wf: "zenbedded_get_rihs_hash t = Some h \<Longrightarrow> rihs01_hash h"
  using ledger_hashes
  by (auto simp: zenbedded_get_rihs_hash_def list_all_iff split: option.splits
      dest!: ledger_scan_Some)

lemma hex_digit_no_sep: "hex_digit c \<Longrightarrow> c \<noteq> CHR ''/'' \<and> c \<noteq> CHR ''%'' \<and> c \<noteq> CHR 0x00"
  by (auto simp: hex_digit_def)

lemma rihs01_hash_no_slash:
  assumes "rihs01_hash h"
  shows "CHR ''/'' \<notin> set h"
proof -
  have "set h = set (take 7 h) \<union> set (drop 7 h)"
    by (metis append_take_drop_id set_append)
  moreover have "CHR ''/'' \<notin> set (take 7 h)"
    using assms by (simp add: rihs01_hash_def)
  moreover have "CHR ''/'' \<notin> set (drop 7 h)"
    using assms by (auto simp: rihs01_hash_def list_all_iff hex_digit_def)
  ultimately show ?thesis by blast
qed

text \<open>the lookup is exactly the ledger. A type name has a hash iff some entry carries that
  name, the hash is the one of that entry, and whatever is returned has the shape
  \<open>RIHS01_\<close> followed by 64 hexadecimal digits, the 71 characters the key buffers reserve.\<close>

theorem zenbedded_get_rihs_hash_spec:
  "zenbedded_get_rihs_hash (Some t) = Some h \<longleftrightarrow>
     rihs01_hash h \<and> (\<exists>e \<in> set RIHS_LEDGER. entry_type_name e = t \<and> rihs_hash e = h)"
  (is "?l \<longleftrightarrow> ?r")
proof
  assume ?l
  then show ?r
    using get_rihs_hash_wf [of "Some t" h] ledger_scan_Some [of RIHS_LEDGER t h]
    by (auto simp: zenbedded_get_rihs_hash_def)
next
  assume ?r
  then obtain e where e: "e \<in> set RIHS_LEDGER" "entry_type_name e = t" "rihs_hash e = h"
    by blast
  have "ledger_scan es t = ledger_scan es (entry_type_name e)" for es
    by (induction es) (auto simp: e(2))
  then show ?l
    using ledger_scan_mem [OF ledger_names_distinct e(1)] e(3)
    by (simp add: zenbedded_get_rihs_hash_def)
qed

end
