(* ===== verification/Zenoh_Transport.thy ===== *)
theory Zenoh_Transport
  imports Rihs_Ledger
begin

text \<open>
  \<open>zenbedded_transport/src/zenoh_transport.c\<close>: the reference-counted zenoh session, the pools of
  publishers and subscribers, the ROS 2 key expressions, and the delivery of samples. The file's
  static variables are the record \<open>transport\<close>; the Kconfig options are the record
  \<open>transport_config\<close>; what zenoh-pico, the random source, the clock and the environment answer
  during a call is the record \<open>zenoh\<close>, an argument of the call. The zenoh calls whose result the
  code does not use are kept as a trace (\<open>zcalls\<close>). Handles (\<open>zenbedded_pub_t\<close>, \<open>zenbedded_sub_t\<close>)
  point into the pools: they are indices, \<open>None\<close> is the null pointer.
\<close>

section \<open>Configuration, answers and state\<close>

datatype tier = Tier1 | Tier2

record transport_config =
  tier :: tier
  max_node_name_len :: nat
  max_topic_name_len :: nat
  max_type_name_len :: nat
  max_locator_len :: nat
  max_rx_buffer_size :: nat
  qos_reliable :: bool
  mode_client :: bool
  dynamic_port_override :: bool

record zenoh =
  z_open_ok :: bool
  z_declare_ok :: bool
  z_put_ok :: bool
  z_zid :: bytes
  sys_rand :: bytes
  clock_sec :: uint64
  clock_nsec :: uint64
  env_port :: "string option"

datatype endpoint_key = Connect_Key | Listen_Key

datatype zcall =
    Z_Open string "(endpoint_key \<times> string) option"
  | Z_Start_Tasks
  | Z_Node_Token string
  | Z_Declare_Publisher string
  | Z_Declare_Subscriber string
  | Z_Pub_Token nat string
  | Z_Sub_Token nat string
  | Z_Undeclare_Pub_Token nat
  | Z_Undeclare_Pub nat
  | Z_Undeclare_Sub_Token nat
  | Z_Undeclare_Sub nat
  | Z_Put nat bytes "bytes option"
  | Z_Undeclare_Node
  | Z_Stop_Tasks
  | Z_Close

record rmw_zenoh_attachment_t =
  sequence_number :: uint64
  timestamp_ns :: uint64
  gid_length :: byte
  gid :: bytes

record zenbedded_pub_s =
  p_in_use :: bool
  p_topic_keyexpr :: string
  attachment :: rmw_zenoh_attachment_t
  p_lv_keyexpr :: string

text \<open>The callback and its \<open>void *\<close> argument are of types the transport does not look into.\<close>

record ('f, 'd) zenbedded_sub_s =
  s_in_use :: bool
  user_cb :: "'f option"
  user_data :: 'd
  s_topic_keyexpr :: string
  s_lv_keyexpr :: string

record ('f, 'd) transport =
  is_initialized :: bool
  transport_ref_count :: uint32
  current_domain_id :: uint32
  current_node_name :: string
  pub_pool :: "zenbedded_pub_s list"
  sub_pool :: "('f, 'd) zenbedded_sub_s list"
  node_lv_str :: string
  mutex_depth :: nat
  zcalls :: "zcall list"

definition k_mutex_lock :: "('f, 'd) transport \<Rightarrow> ('f, 'd) transport" where
  "k_mutex_lock t = t\<lparr>mutex_depth := mutex_depth t + 1\<rparr>"

definition k_mutex_unlock :: "('f, 'd) transport \<Rightarrow> ('f, 'd) transport" where
  "k_mutex_unlock t = t\<lparr>mutex_depth := mutex_depth t - 1\<rparr>"

definition zcall :: "zcall list \<Rightarrow> ('f, 'd) transport \<Rightarrow> ('f, 'd) transport" where
  "zcall cs t = t\<lparr>zcalls := zcalls t @ cs\<rparr>"

section \<open>Formatting\<close>

definition RMW_GID_SIZE :: nat where "RMW_GID_SIZE = 16"
definition LV_NODE_FIXED_OVERHEAD :: nat where "LV_NODE_FIXED_OVERHEAD = 54"
definition LV_PUB_SUB_FIXED_OVERHEAD :: nat where "LV_PUB_SUB_FIXED_OVERHEAD = 71"
definition TOPIC_KEYEXPR_FIXED_OVERHEAD :: nat where "TOPIC_KEYEXPR_FIXED_OVERHEAD = 3"
definition MAX_DOMAIN_ID_DIGITS :: nat where "MAX_DOMAIN_ID_DIGITS = 10"
definition RIHS01_TYPE_HASH_LEN :: nat where "RIHS01_TYPE_HASH_LEN = 71"

definition NODE_LV_KEYEXPR_MAX_LEN :: "transport_config \<Rightarrow> nat" where
  "NODE_LV_KEYEXPR_MAX_LEN cfg =
     LV_NODE_FIXED_OVERHEAD + MAX_DOMAIN_ID_DIGITS + max_node_name_len cfg + 1"

definition TOPIC_KEYEXPR_MAX_LEN :: "transport_config \<Rightarrow> nat" where
  "TOPIC_KEYEXPR_MAX_LEN cfg =
     (case tier cfg of
        Tier1 \<Rightarrow> TOPIC_KEYEXPR_FIXED_OVERHEAD + MAX_DOMAIN_ID_DIGITS + max_topic_name_len cfg +
                 max_type_name_len cfg + RIHS01_TYPE_HASH_LEN + 1
      | Tier2 \<Rightarrow> max_topic_name_len cfg)"

definition LV_KEYEXPR_MAX_LEN :: "transport_config \<Rightarrow> nat" where
  "LV_KEYEXPR_MAX_LEN cfg =
     LV_PUB_SUB_FIXED_OVERHEAD + MAX_DOMAIN_ID_DIGITS + max_node_name_len cfg +
     max_topic_name_len cfg + max_type_name_len cfg + RIHS01_TYPE_HASH_LEN + 1"

text \<open>\<open>%02x\<close> (\<open>%u\<close> is \<open>fmt_u\<close>).\<close>

definition fmt_02x :: "byte \<Rightarrow> string" where
  "fmt_02x b = [digit (unat b div 16), digit (unat b mod 16)]"

definition fmt_zid :: "bytes \<Rightarrow> string" where
  "fmt_zid zid = concat (map fmt_02x (take 16 zid))"

definition topic_keyexpr :: "uint32 \<Rightarrow> string \<Rightarrow> string \<Rightarrow> string \<Rightarrow> string" where
  "topic_keyexpr domid topic ty hash = fmt_u (unat domid) @ ''/'' @ topic @ ''/'' @ ty @ ''/'' @ hash"

definition node_lv_keyexpr :: "uint32 \<Rightarrow> bytes \<Rightarrow> string \<Rightarrow> string" where
  "node_lv_keyexpr domid zid node =
     ''@ros2_lv/'' @ fmt_u (unat domid) @ ''/'' @ fmt_zid zid @ ''/0/0/NN/%/%/'' @ node"

definition lv_keyexpr ::
  "string \<Rightarrow> uint32 \<Rightarrow> bytes \<Rightarrow> string \<Rightarrow> string \<Rightarrow> string \<Rightarrow> string \<Rightarrow> string" where
  "lv_keyexpr kind domid zid node mangled ty hash =
     ''@ros2_lv/'' @ fmt_u (unat domid) @ ''/'' @ fmt_zid zid @ ''/0/10/'' @ kind @ ''/%/%/'' @ node @
     ''/%'' @ mangled @ ''/'' @ ty @ ''/'' @ hash @ ''/::,7:,:,:,,''"

definition mangle_char :: "char \<Rightarrow> char" where
  "mangle_char c = (if c = CHR ''/'' then CHR ''%'' else c)"

definition strip_slash :: "string \<Rightarrow> string" where
  "strip_slash s = (case s of [] \<Rightarrow> [] | c # cs \<Rightarrow> if c = CHR ''/'' then cs else s)"

text \<open>The copying loop, with the room left in \<open>dst\<close>.\<close>

fun mangle_loop :: "nat \<Rightarrow> string \<Rightarrow> string" where
  "mangle_loop 0 s = []"
| "mangle_loop (Suc n) [] = []"
| "mangle_loop (Suc n) (c # cs) = mangle_char c # mangle_loop n cs"

definition mangle_topic :: "nat \<Rightarrow> string \<Rightarrow> string" where
  "mangle_topic dst_len src = mangle_loop (dst_len - 1) (strip_slash src)"

section \<open>The operations\<close>

definition internal_sub_handler ::
  "transport_config \<Rightarrow> ('f, 'd) zenbedded_sub_s option \<Rightarrow> bytes \<Rightarrow> ('f \<times> bytes \<times> 'd) option" where
  "internal_sub_handler cfg sub payload =
     (case sub of
        None \<Rightarrow> None
      | Some s \<Rightarrow>
          (case user_cb s of
             None \<Rightarrow> None
           | Some cb \<Rightarrow>
               let len = length payload in
               if len = 0 \<or> len > max_rx_buffer_size cfg then None
               else Some (cb, payload, user_data s)))"

definition effective_locator :: "transport_config \<Rightarrow> zenoh \<Rightarrow> string option \<Rightarrow> string option" where
  "effective_locator cfg z locator =
     (if dynamic_port_override cfg then
        (case env_port z of
           None \<Rightarrow> locator
         | Some p \<Rightarrow> if p = [] then locator else Some (snprintf 24 (''127.0.0.1:'' @ take 5 p)))
      else locator)"

definition session_endpoint ::
  "transport_config \<Rightarrow> string option \<Rightarrow> (endpoint_key \<times> string) option" where
  "session_endpoint cfg locator =
     (case locator of
        None \<Rightarrow> None
      | Some l \<Rightarrow>
          if length l > 0 then
            Some (if mode_client cfg then Connect_Key else Listen_Key,
                  snprintf (max_locator_len cfg) ((if qos_reliable cfg then ''tcp/'' else ''udp/'') @ l))
          else None)"

definition zenbedded_transport_init ::
  "transport_config \<Rightarrow> zenoh \<Rightarrow> uint32 \<Rightarrow> string \<Rightarrow> string \<Rightarrow> string option \<Rightarrow> ('f, 'd) transport
     \<Rightarrow> int \<times> ('f, 'd) transport" where
  "zenbedded_transport_init cfg z domain_id node_name mode locator t =
     (let t = k_mutex_lock t in
      if is_initialized t
      then (0, k_mutex_unlock (t\<lparr>transport_ref_count := transport_ref_count t + 1\<rparr>))
      else
        let t = t\<lparr>current_domain_id := domain_id,
                  current_node_name := take (max_node_name_len cfg - 1) node_name\<rparr>;
            endpoint = session_endpoint cfg (effective_locator cfg z locator);
            t = zcall [Z_Open mode endpoint] t
        in
          if \<not> z_open_ok z then (- 1, k_mutex_unlock t)
          else
            let t = zcall [Z_Start_Tasks] t;
                t = (case tier cfg of
                       Tier1 \<Rightarrow>
                         let s = snprintf (NODE_LV_KEYEXPR_MAX_LEN cfg)
                               (node_lv_keyexpr (current_domain_id t) (z_zid z) (current_node_name t))
                         in zcall [Z_Node_Token s] (t\<lparr>node_lv_str := s\<rparr>)
                     | Tier2 \<Rightarrow> t)
            in (0, k_mutex_unlock (t\<lparr>is_initialized := True, transport_ref_count := 1\<rparr>)))"

definition set_pub_in_use :: "nat \<Rightarrow> bool \<Rightarrow> ('f, 'd) transport \<Rightarrow> ('f, 'd) transport" where
  "set_pub_in_use i b t = t\<lparr>pub_pool := (pub_pool t)[i := (pub_pool t ! i)\<lparr>p_in_use := b\<rparr>]\<rparr>"

definition set_sub_in_use :: "nat \<Rightarrow> bool \<Rightarrow> ('f, 'd) transport \<Rightarrow> ('f, 'd) transport" where
  "set_sub_in_use i b t = t\<lparr>sub_pool := (sub_pool t)[i := (sub_pool t ! i)\<lparr>s_in_use := b\<rparr>]\<rparr>"

definition zenbedded_transport_undeclare_publisher ::
  "transport_config \<Rightarrow> nat option \<Rightarrow> ('f, 'd) transport \<Rightarrow> int \<times> ('f, 'd) transport" where
  "zenbedded_transport_undeclare_publisher cfg pub t =
     (case pub of
        None \<Rightarrow> (- EINVAL, t)
      | Some i \<Rightarrow>
          let t = k_mutex_lock t in
          if \<not> is_initialized t \<or> \<not> p_in_use (pub_pool t ! i) then (- EINVAL, k_mutex_unlock t)
          else (0, k_mutex_unlock (set_pub_in_use i False (zcall
            ((case tier cfg of Tier1 \<Rightarrow> [Z_Undeclare_Pub_Token i] | Tier2 \<Rightarrow> []) @ [Z_Undeclare_Pub i]) t))))"

definition zenbedded_transport_undeclare_subscriber ::
  "transport_config \<Rightarrow> nat option \<Rightarrow> ('f, 'd) transport \<Rightarrow> int \<times> ('f, 'd) transport" where
  "zenbedded_transport_undeclare_subscriber cfg sub t =
     (case sub of
        None \<Rightarrow> (- EINVAL, t)
      | Some i \<Rightarrow>
          let t = k_mutex_lock t in
          if \<not> is_initialized t \<or> \<not> s_in_use (sub_pool t ! i) then (- EINVAL, k_mutex_unlock t)
          else (0, k_mutex_unlock (set_sub_in_use i False (zcall
            ((case tier cfg of Tier1 \<Rightarrow> [Z_Undeclare_Sub_Token i] | Tier2 \<Rightarrow> []) @ [Z_Undeclare_Sub i]) t))))"

text \<open>The two loops of \<open>destroy\<close> over the pools.\<close>

definition release_pub :: "transport_config \<Rightarrow> nat \<Rightarrow> ('f, 'd) transport \<Rightarrow> ('f, 'd) transport" where
  "release_pub cfg i t =
     (if p_in_use (pub_pool t ! i) then snd (zenbedded_transport_undeclare_publisher cfg (Some i) t) else t)"

definition release_sub :: "transport_config \<Rightarrow> nat \<Rightarrow> ('f, 'd) transport \<Rightarrow> ('f, 'd) transport" where
  "release_sub cfg i t =
     (if s_in_use (sub_pool t ! i) then snd (zenbedded_transport_undeclare_subscriber cfg (Some i) t) else t)"

definition zenbedded_transport_destroy ::
  "transport_config \<Rightarrow> ('f, 'd) transport \<Rightarrow> ('f, 'd) transport" where
  "zenbedded_transport_destroy cfg t =
     (let t = k_mutex_lock t in
      if \<not> is_initialized t \<or> transport_ref_count t = 0 then k_mutex_unlock t
      else
        let t = t\<lparr>transport_ref_count := transport_ref_count t - 1\<rparr> in
        if transport_ref_count t > 0 then k_mutex_unlock t
        else
          let t = fold (release_pub cfg) [0..<length (pub_pool t)] t;
              t = fold (release_sub cfg) [0..<length (sub_pool t)] t;
              t = (case tier cfg of Tier1 \<Rightarrow> zcall [Z_Undeclare_Node] t | Tier2 \<Rightarrow> t);
              t = zcall [Z_Stop_Tasks, Z_Close] t
          in k_mutex_unlock (t\<lparr>is_initialized := False\<rparr>))"

text \<open>The scan for a slot that is not in use.\<close>

fun first_free :: "('s \<Rightarrow> bool) \<Rightarrow> 's list \<Rightarrow> nat option" where
  "first_free used [] = None"
| "first_free used (s # ss) = (if \<not> used s then Some 0 else map_option Suc (first_free used ss))"

definition zenbedded_transport_declare_publisher ::
  "transport_config \<Rightarrow> zenoh \<Rightarrow> string \<Rightarrow> string option \<Rightarrow> ('f, 'd) transport
     \<Rightarrow> nat option \<times> ('f, 'd) transport" where
  "zenbedded_transport_declare_publisher cfg z topic_name type_name t =
     (let t = k_mutex_lock t in
      if \<not> is_initialized t then (None, k_mutex_unlock t)
      else
        case first_free p_in_use (pub_pool t) of
          None \<Rightarrow> (None, k_mutex_unlock t)
        | Some i \<Rightarrow>
            let t = set_pub_in_use i True t;
                clean_topic = strip_slash topic_name;
                declare_as = (\<lambda>ke t.
                  zcall [Z_Declare_Publisher ke]
                    (t\<lparr>pub_pool := (pub_pool t)[i := (pub_pool t ! i)\<lparr>p_topic_keyexpr := ke\<rparr>]\<rparr>))
            in
              case tier cfg of
                Tier1 \<Rightarrow>
                  (case type_name of
                     None \<Rightarrow> (None, k_mutex_unlock (set_pub_in_use i False t))
                   | Some ty \<Rightarrow>
                       (case zenbedded_get_rihs_hash (Some ty) of
                          None \<Rightarrow> (None, k_mutex_unlock (set_pub_in_use i False t))
                        | Some hash \<Rightarrow>
                            let t = declare_as (snprintf (TOPIC_KEYEXPR_MAX_LEN cfg)
                                  (topic_keyexpr (current_domain_id t) clean_topic ty hash)) t
                            in
                              if \<not> z_declare_ok z
                              then (None, k_mutex_unlock (set_pub_in_use i False t))
                              else
                                let lv = snprintf (LV_KEYEXPR_MAX_LEN cfg)
                                      (lv_keyexpr ''MP'' (current_domain_id t) (z_zid z)
                                        (current_node_name t)
                                        (mangle_topic (max_topic_name_len cfg) clean_topic) ty hash);
                                    slot = pub_pool t ! i;
                                    slot = slot\<lparr>attachment := (attachment slot)
                                             \<lparr>sequence_number := 0,
                                              gid_length := word_of_nat RMW_GID_SIZE,
                                              gid := take RMW_GID_SIZE (sys_rand z)\<rparr>,
                                           p_lv_keyexpr := lv\<rparr>
                                in (Some i, k_mutex_unlock (zcall [Z_Pub_Token i lv]
                                      (t\<lparr>pub_pool := (pub_pool t)[i := slot]\<rparr>)))))
              | Tier2 \<Rightarrow>
                  let t = declare_as (snprintf (TOPIC_KEYEXPR_MAX_LEN cfg) clean_topic) t in
                  if \<not> z_declare_ok z then (None, k_mutex_unlock (set_pub_in_use i False t))
                  else (Some i, k_mutex_unlock t))"

text \<open>The packed attachment, 33 bytes in the order of the struct.\<close>

definition attachment_image :: "rmw_zenoh_attachment_t \<Rightarrow> bytes" where
  "attachment_image a = le64 (sequence_number a) @ le64 (timestamp_ns a) @ [gid_length a] @ gid a"

definition zenbedded_transport_publish ::
  "transport_config \<Rightarrow> zenoh \<Rightarrow> nat option \<Rightarrow> bytes \<Rightarrow> ('f, 'd) transport
     \<Rightarrow> int \<times> ('f, 'd) transport" where
  "zenbedded_transport_publish cfg z pub payload t =
     (case pub of
        None \<Rightarrow> (- 1, t)
      | Some i \<Rightarrow>
          if \<not> p_in_use (pub_pool t ! i) then (- 1, t)
          else
            let ret = (if z_put_ok z then 0 else - 1) in
            case tier cfg of
              Tier1 \<Rightarrow>
                let slot = pub_pool t ! i;
                    a = (attachment slot)
                      \<lparr>sequence_number := sequence_number (attachment slot) + 1,
                       timestamp_ns := clock_sec z * 1000000000 + clock_nsec z\<rparr>
                in (ret, zcall [Z_Put i payload (Some (attachment_image a))]
                      (t\<lparr>pub_pool := (pub_pool t)[i := slot\<lparr>attachment := a\<rparr>]\<rparr>))
            | Tier2 \<Rightarrow> (ret, zcall [Z_Put i payload None] t))"

definition zenbedded_transport_declare_subscriber ::
  "transport_config \<Rightarrow> zenoh \<Rightarrow> string \<Rightarrow> string option \<Rightarrow> 'f option \<Rightarrow> 'd \<Rightarrow> ('f, 'd) transport
     \<Rightarrow> nat option \<times> ('f, 'd) transport" where
  "zenbedded_transport_declare_subscriber cfg z topic_name type_name callback data t =
     (let t = k_mutex_lock t in
      if \<not> is_initialized t then (None, k_mutex_unlock t)
      else
        case first_free s_in_use (sub_pool t) of
          None \<Rightarrow> (None, k_mutex_unlock t)
        | Some i \<Rightarrow>
            let t = set_sub_in_use i True t;
                t = t\<lparr>sub_pool := (sub_pool t)
                       [i := (sub_pool t ! i)\<lparr>user_cb := callback, user_data := data\<rparr>]\<rparr>;
                clean_topic = strip_slash topic_name;
                declare_as = (\<lambda>ke t.
                  zcall [Z_Declare_Subscriber ke]
                    (t\<lparr>sub_pool := (sub_pool t)[i := (sub_pool t ! i)\<lparr>s_topic_keyexpr := ke\<rparr>]\<rparr>))
            in
              case tier cfg of
                Tier1 \<Rightarrow>
                  (case type_name of
                     None \<Rightarrow> (None, k_mutex_unlock (set_sub_in_use i False t))
                   | Some ty \<Rightarrow>
                       (case zenbedded_get_rihs_hash (Some ty) of
                          None \<Rightarrow> (None, k_mutex_unlock (set_sub_in_use i False t))
                        | Some hash \<Rightarrow>
                            let t = declare_as (snprintf (TOPIC_KEYEXPR_MAX_LEN cfg)
                                  (topic_keyexpr (current_domain_id t) clean_topic ty hash)) t
                            in
                              if \<not> z_declare_ok z
                              then (None, k_mutex_unlock (set_sub_in_use i False t))
                              else
                                let lv = snprintf (LV_KEYEXPR_MAX_LEN cfg)
                                      (lv_keyexpr ''MS'' (current_domain_id t) (z_zid z)
                                        (current_node_name t)
                                        (mangle_topic (max_topic_name_len cfg) clean_topic) ty hash)
                                in (Some i, k_mutex_unlock (zcall [Z_Sub_Token i lv]
                                      (t\<lparr>sub_pool := (sub_pool t)
                                          [i := (sub_pool t ! i)\<lparr>s_lv_keyexpr := lv\<rparr>]\<rparr>)))))
              | Tier2 \<Rightarrow>
                  let t = declare_as (snprintf (TOPIC_KEYEXPR_MAX_LEN cfg) clean_topic) t in
                  if \<not> z_declare_ok z then (None, k_mutex_unlock (set_sub_in_use i False t))
                  else (Some i, k_mutex_unlock t))"

end
