(* ===== verification/Zenoh_Lemmas.thy ===== *)
theory Zenoh_Lemmas
  imports Zenoh_Transport
begin

text \<open>
  What the transport guarantees: key expressions fit their buffers, the pools never hand out a slot
  twice and lose none on an error path, the mutex is released on every path, and the session is a
  reference-counted resource.
\<close>

named_theorems transport_simps \<open>the elementary state changes of the transport\<close>

lemmas [transport_simps] = k_mutex_lock_def k_mutex_unlock_def zcall_def set_pub_in_use_def
  set_sub_in_use_def Let_def

section \<open>Formatting\<close>

lemma fmt_u_u32: "length (fmt_u (unat (d :: uint32))) \<le> 10"
proof (rule fmt_u_length)
  have "unat d < 2 ^ 32" using unsigned_less [of d] by simp
  also have "\<dots> \<le> (10 :: nat) ^ 10" by simp
  finally show "unat d < 10 ^ 10" .
qed simp

lemma fmt_zid_length: "length zid = 16 \<Longrightarrow> length (fmt_zid zid) = 32"
proof -
  have "length (concat (map fmt_02x bs)) = 2 * length bs" for bs
    by (induction bs) (auto simp: fmt_02x_def)
  then show "length zid = 16 \<Longrightarrow> ?thesis" by (simp add: fmt_zid_def)
qed

lemma mangle_loop_eq: "mangle_loop n s = map mangle_char (take n s)"
  by (induction n s rule: mangle_loop.induct) auto

lemma mangle_topic_eq: "mangle_topic n s = map mangle_char (take (n - 1) (strip_slash s))"
  by (simp add: mangle_topic_def mangle_loop_eq)

lemma strip_slash_length: "length (strip_slash s) \<le> length s"
  by (cases s) (auto simp: strip_slash_def)

section \<open>The pools\<close>

lemma first_free_Some:
  "first_free used ss = Some i \<Longrightarrow>
   i < length ss \<and> \<not> used (ss ! i) \<and> (\<forall>j < i. used (ss ! j))"
proof (induction ss arbitrary: i)
  case (Cons s ss)
  then show ?case
    by (auto split: if_splits simp: nth_Cons less_Suc_eq_0_disj split: nat.splits)
qed simp

lemma first_free_None: "first_free used ss = None \<longleftrightarrow> (\<forall>s \<in> set ss. used s)"
  by (induction ss) auto

definition used_pubs :: "('f, 'd) transport \<Rightarrow> bool list" where
  "used_pubs t = map p_in_use (pub_pool t)"

definition used_subs :: "('f, 'd) transport \<Rightarrow> bool list" where
  "used_subs t = map s_in_use (sub_pool t)"

text \<open>What the calls on publishers and subscribers leave alone.\<close>

definition same_session :: "('f, 'd) transport \<Rightarrow> ('f, 'd) transport \<Rightarrow> bool" where
  "same_session t t' \<longleftrightarrow> is_initialized t' = is_initialized t \<and>
     transport_ref_count t' = transport_ref_count t \<and> mutex_depth t' = mutex_depth t \<and>
     current_domain_id t' = current_domain_id t \<and> current_node_name t' = current_node_name t"

lemma declare_publisher_effect:
  assumes "zenbedded_transport_declare_publisher cfg z topic ty t = (h, t')"
  shows "same_session t t' \<and> sub_pool t' = sub_pool t \<and>
    (case h of
       None \<Rightarrow> used_pubs t' = used_pubs t
     | Some i \<Rightarrow> is_initialized t \<and> i < length (pub_pool t) \<and> \<not> used_pubs t ! i \<and>
                used_pubs t' = (used_pubs t)[i := True])"
proof (cases "first_free p_in_use (pub_pool t)")
  case None
  with assms show ?thesis
    by (auto simp: zenbedded_transport_declare_publisher_def transport_simps same_session_def
        used_pubs_def split: if_splits)
next
  case (Some i)
  then have i: "i < length (pub_pool t)" "\<not> p_in_use (pub_pool t ! i)"
    using first_free_Some by blast+
  note undo = map_update_same [of p_in_use "pub_pool t" i False]
  show ?thesis
    using assms Some i
    by (auto simp: zenbedded_transport_declare_publisher_def transport_simps same_session_def
        used_pubs_def map_update undo split: if_splits tier.splits option.splits)
qed

lemma declare_subscriber_effect:
  assumes "zenbedded_transport_declare_subscriber cfg z topic ty cb d t = (h, t')"
  shows "same_session t t' \<and> pub_pool t' = pub_pool t \<and>
    (case h of
       None \<Rightarrow> used_subs t' = used_subs t
     | Some i \<Rightarrow> is_initialized t \<and> i < length (sub_pool t) \<and> \<not> used_subs t ! i \<and>
                used_subs t' = (used_subs t)[i := True] \<and>
                user_cb (sub_pool t' ! i) = cb \<and> user_data (sub_pool t' ! i) = d)"
proof (cases "first_free s_in_use (sub_pool t)")
  case None
  with assms show ?thesis
    by (auto simp: zenbedded_transport_declare_subscriber_def transport_simps same_session_def
        used_subs_def split: if_splits)
next
  case (Some i)
  then have i: "i < length (sub_pool t)" "\<not> s_in_use (sub_pool t ! i)"
    using first_free_Some by blast+
  note undo = map_update_same [of s_in_use "sub_pool t" i False]
  show ?thesis
    using assms Some i
    by (auto simp: zenbedded_transport_declare_subscriber_def transport_simps same_session_def
        used_subs_def map_update undo split: if_splits tier.splits option.splits)
qed

text \<open>A declaration takes a free slot, so it leaves those in use alone.\<close>

lemma declare_keeps_used:
  "zenbedded_transport_declare_publisher cfg z topic ty t = (h, t') \<Longrightarrow> i < length (pub_pool t) \<Longrightarrow>
   used_pubs t ! i \<Longrightarrow> used_pubs t' ! i"
  using declare_publisher_effect [of cfg z topic ty t h t']
  by (auto split: option.splits simp: nth_list_update used_pubs_def)

lemma declare_subscriber_others:
  assumes "zenbedded_transport_declare_subscriber cfg z topic ty cb d t = (h, t')" "used_subs t ! j"
    and "j < length (sub_pool t)"
  shows "sub_pool t' ! j = sub_pool t ! j"
proof (cases "first_free s_in_use (sub_pool t)")
  case None
  with assms(1) show ?thesis
    by (auto simp: zenbedded_transport_declare_subscriber_def transport_simps split: if_splits)
next
  case (Some i)
  then have "i \<noteq> j" using first_free_Some [OF Some] assms(2,3) by (auto simp: used_subs_def)
  with assms(1) Some show ?thesis
    by (auto simp: zenbedded_transport_declare_subscriber_def transport_simps
        split: if_splits tier.splits option.splits)
qed

lemma publish_effect:
  assumes "zenbedded_transport_publish cfg z pub payload t = (r, t')"
  shows "same_session t t' \<and> sub_pool t' = sub_pool t \<and> used_pubs t' = used_pubs t"
  using assms
  by (auto simp: map_update_same zenbedded_transport_publish_def transport_simps same_session_def used_pubs_def
        map_update split: option.splits tier.splits if_splits)

lemma undeclare_publisher_effect:
  assumes "zenbedded_transport_undeclare_publisher cfg (Some i) t = (r, t')" "i < length (pub_pool t)"
  shows "same_session t t' \<and> sub_pool t' = sub_pool t \<and>
    (if is_initialized t then used_pubs t' = (used_pubs t)[i := False] else t' = t)"
  using assms
  by (auto simp: map_update_same zenbedded_transport_undeclare_publisher_def transport_simps same_session_def
        used_pubs_def map_update split: if_splits)

lemma undeclare_subscriber_effect:
  assumes "zenbedded_transport_undeclare_subscriber cfg (Some i) t = (r, t')" "i < length (sub_pool t)"
  shows "same_session t t' \<and> pub_pool t' = pub_pool t \<and>
    (if is_initialized t then used_subs t' = (used_subs t)[i := False] else t' = t)"
  using assms
  by (auto simp: map_update_same zenbedded_transport_undeclare_subscriber_def transport_simps same_session_def
        used_subs_def map_update split: if_splits)

section \<open>Init and destroy\<close>

lemma init_effect:
  assumes "zenbedded_transport_init cfg z domid node mode loc t = (r, t')"
  shows "pub_pool t' = pub_pool t \<and> sub_pool t' = sub_pool t \<and> mutex_depth t' = mutex_depth t \<and>
    (if is_initialized t then
       r = 0 \<and> t' = t\<lparr>transport_ref_count := transport_ref_count t + 1\<rparr>
     else if z_open_ok z then r = 0 \<and> is_initialized t' \<and> transport_ref_count t' = 1
     else r = - 1 \<and> \<not> is_initialized t' \<and> transport_ref_count t' = transport_ref_count t)"
  using assms
  by (auto simp: zenbedded_transport_init_def transport_simps split: if_splits tier.splits)

lemma same_session_refl [simp]: "same_session t t"
  by (simp add: same_session_def)

lemma same_session_trans [trans]:
  "same_session t t' \<Longrightarrow> same_session t' t'' \<Longrightarrow> same_session t t''"
  by (simp add: same_session_def)

lemma release_pub_effect:
  assumes "is_initialized t" "i < length (pub_pool t)"
  shows "same_session t (release_pub cfg i t) \<and> sub_pool (release_pub cfg i t) = sub_pool t \<and>
    used_pubs (release_pub cfg i t) = (used_pubs t)[i := False]"
  using undeclare_publisher_effect [of cfg i t] assms map_update_same [of p_in_use "pub_pool t" i False]
  by (cases "zenbedded_transport_undeclare_publisher cfg (Some i) t")
    (auto simp: release_pub_def used_pubs_def)

lemma release_sub_effect:
  assumes "is_initialized t" "i < length (sub_pool t)"
  shows "same_session t (release_sub cfg i t) \<and> pub_pool (release_sub cfg i t) = pub_pool t \<and>
    used_subs (release_sub cfg i t) = (used_subs t)[i := False]"
  using undeclare_subscriber_effect [of cfg i t] assms map_update_same [of s_in_use "sub_pool t" i False]
  by (cases "zenbedded_transport_undeclare_subscriber cfg (Some i) t")
    (auto simp: release_sub_def used_subs_def)

lemma clear_next:
  "n < length u \<Longrightarrow> (replicate n False @ drop n u)[n := False] = replicate (Suc n) False @ drop (Suc n) u"
  by (simp add: list_update_append replicate_app_Cons_same flip: Cons_nth_drop_Suc)

lemma length_used [simp]: "length (used_pubs t) = length (pub_pool t)"
  "length (used_subs t) = length (sub_pool t)"
  by (simp_all add: used_pubs_def used_subs_def)

lemma used_length:
  "used_pubs t' = used_pubs t \<Longrightarrow> length (pub_pool t') = length (pub_pool t)"
  "used_pubs t' = (used_pubs t)[i := b] \<Longrightarrow> length (pub_pool t') = length (pub_pool t)"
  "used_subs t' = used_subs t \<Longrightarrow> length (sub_pool t') = length (sub_pool t)"
  "used_subs t' = (used_subs t)[i := b] \<Longrightarrow> length (sub_pool t') = length (sub_pool t)"
  by (metis length_used length_list_update)+

lemma release_pubs:
  "is_initialized t \<Longrightarrow> n \<le> length (pub_pool t) \<Longrightarrow>
   same_session t (fold (release_pub cfg) [0..<n] t) \<and> sub_pool (fold (release_pub cfg) [0..<n] t) = sub_pool t \<and>
   used_pubs (fold (release_pub cfg) [0..<n] t) = replicate n False @ drop n (used_pubs t)"
proof (induction n)
  case (Suc n)
  let ?t = "fold (release_pub cfg) [0..<n] t"
  have IH: "same_session t ?t" "sub_pool ?t = sub_pool t"
    "used_pubs ?t = replicate n False @ drop n (used_pubs t)" using Suc by auto
  have "length (pub_pool ?t) = length (pub_pool t)"
    using arg_cong [OF IH(3), of length] Suc.prems(2) by simp
  then have "same_session ?t (release_pub cfg n ?t) \<and> sub_pool (release_pub cfg n ?t) = sub_pool ?t \<and>
      used_pubs (release_pub cfg n ?t) = (used_pubs ?t)[n := False]"
    using IH(1) Suc.prems by (intro release_pub_effect) (auto simp: same_session_def)
  then show ?case
    using IH Suc.prems clear_next [of n "used_pubs t"] by (auto intro: same_session_trans)
qed simp

lemma release_subs:
  "is_initialized t \<Longrightarrow> n \<le> length (sub_pool t) \<Longrightarrow>
   same_session t (fold (release_sub cfg) [0..<n] t) \<and> pub_pool (fold (release_sub cfg) [0..<n] t) = pub_pool t \<and>
   used_subs (fold (release_sub cfg) [0..<n] t) = replicate n False @ drop n (used_subs t)"
proof (induction n)
  case (Suc n)
  let ?t = "fold (release_sub cfg) [0..<n] t"
  have IH: "same_session t ?t" "pub_pool ?t = pub_pool t"
    "used_subs ?t = replicate n False @ drop n (used_subs t)" using Suc by auto
  have "length (sub_pool ?t) = length (sub_pool t)"
    using arg_cong [OF IH(3), of length] Suc.prems(2) by simp
  then have "same_session ?t (release_sub cfg n ?t) \<and> pub_pool (release_sub cfg n ?t) = pub_pool ?t \<and>
      used_subs (release_sub cfg n ?t) = (used_subs ?t)[n := False]"
    using IH(1) Suc.prems by (intro release_sub_effect) (auto simp: same_session_def)
  then show ?case
    using IH Suc.prems clear_next [of n "used_subs t"] by (auto intro: same_session_trans)
qed simp

text \<open>The last reference releases everything; any other call only counts down.\<close>

lemma destroy_last:
  fixes cfg :: transport_config
  assumes "is_initialized t" "transport_ref_count t = 1"
  defines "t' \<equiv> zenbedded_transport_destroy cfg t"
  shows "\<not> is_initialized t'" "transport_ref_count t' = 0" "mutex_depth t' = mutex_depth t"
    "used_pubs t' = replicate (length (pub_pool t)) False"
    "used_subs t' = replicate (length (sub_pool t)) False"
proof -
  let ?a = "k_mutex_lock t\<lparr>transport_ref_count := 0\<rparr>"
  let ?b = "fold (release_pub cfg) [0..<length (pub_pool ?a)] ?a"
  let ?c = "fold (release_sub cfg) [0..<length (sub_pool ?b)] ?b"
  have a: "is_initialized ?a" "length (pub_pool ?a) = length (pub_pool t)" "sub_pool ?a = sub_pool t"
    "mutex_depth ?a = Suc (mutex_depth t)" "transport_ref_count ?a = 0"
    using assms(1) by (simp_all add: k_mutex_lock_def)
  have b: "same_session ?a ?b" "sub_pool ?b = sub_pool t"
    "used_pubs ?b = replicate (length (pub_pool t)) False"
    using release_pubs [of ?a "length (pub_pool ?a)" cfg] a by simp_all
  have "is_initialized ?b" using a b by (simp add: same_session_def)
  then have c: "same_session ?b ?c" "pub_pool ?c = pub_pool ?b"
    "used_subs ?c = replicate (length (sub_pool t)) False"
    using release_subs [of ?b "length (sub_pool ?b)" cfg] b by simp_all
  have eq: "t' = k_mutex_unlock ((zcall [Z_Stop_Tasks, Z_Close]
      (case tier cfg of Tier1 \<Rightarrow> zcall [Z_Undeclare_Node] ?c | Tier2 \<Rightarrow> ?c))\<lparr>is_initialized := False\<rparr>)"
  proof -
    have "is_initialized (k_mutex_lock t)" "transport_ref_count (k_mutex_lock t) = 1"
      using assms(1,2) by (simp_all add: k_mutex_lock_def)
    then show ?thesis
      unfolding t'_def zenbedded_transport_destroy_def Let_def by (cases "tier cfg") simp_all
  qed
  have d: "mutex_depth ?c = Suc (mutex_depth t)" "transport_ref_count ?c = 0"
    using b(1) c(1) a by (simp_all add: same_session_def)
  show "\<not> is_initialized t'"
    by (simp add: eq k_mutex_unlock_def)
  show "transport_ref_count t' = 0" "mutex_depth t' = mutex_depth t"
    using d unfolding eq by (simp_all add: k_mutex_unlock_def zcall_def split: tier.split)
  show "used_pubs t' = replicate (length (pub_pool t)) False"
    using b(3) c(2) unfolding eq
    by (simp add: k_mutex_unlock_def zcall_def used_pubs_def split: tier.split)
  show "used_subs t' = replicate (length (sub_pool t)) False"
    using c(3) unfolding eq
    by (simp add: k_mutex_unlock_def zcall_def used_subs_def split: tier.split)
qed

lemma destroy_other:
  assumes "\<not> is_initialized t \<or> transport_ref_count t \<noteq> 1"
  shows "zenbedded_transport_destroy cfg t =
    (if is_initialized t \<and> transport_ref_count t \<noteq> 0
     then t\<lparr>transport_ref_count := transport_ref_count t - 1\<rparr> else t)"
proof -
  have "transport_ref_count t - 1 > 0 \<longleftrightarrow> transport_ref_count t \<noteq> 1"
    by (simp add: word_gt_0)
  with assms show ?thesis
    by (auto simp: zenbedded_transport_destroy_def k_mutex_lock_def k_mutex_unlock_def Let_def)
qed

section \<open>The session as a reference-counted resource\<close>

locale ref_counted =
  fixes inv :: "'s \<Rightarrow> bool"
    and up :: "'s \<Rightarrow> bool"
    and refs :: "'s \<Rightarrow> nat"
    and limit :: nat
    and acquire :: "'s \<Rightarrow> 's"
    and release :: "'s \<Rightarrow> 's"
  assumes inv_acquire: "inv s \<Longrightarrow> refs s < limit \<Longrightarrow> inv (acquire s)"
    and refs_acquire: "inv s \<Longrightarrow> refs s < limit \<Longrightarrow> refs (acquire s) = Suc (refs s)"
    and inv_release: "inv s \<Longrightarrow> inv (release s)"
    and refs_release: "inv s \<Longrightarrow> refs (release s) = refs s - 1"
    and up_refs: "inv s \<Longrightarrow> up s \<longleftrightarrow> 0 < refs s"
begin

lemma acquire_many:
  "inv s \<Longrightarrow> refs s + n \<le> limit \<Longrightarrow> inv ((acquire ^^ n) s) \<and> refs ((acquire ^^ n) s) = refs s + n"
  by (induction n) (auto simp: inv_acquire refs_acquire)

lemma release_many: "inv s \<Longrightarrow> inv ((release ^^ n) s) \<and> refs ((release ^^ n) s) = refs s - n"
  by (induction n) (auto simp: inv_release refs_release)

text \<open>After \<open>n\<close> acquisitions it takes exactly \<open>n\<close> releases to bring the resource down, and further
  ones change nothing.\<close>

lemma up_until_last:
  "inv s \<Longrightarrow> refs s = 0 \<Longrightarrow> n \<le> limit \<Longrightarrow>
   inv ((release ^^ k) ((acquire ^^ n) s)) \<and> (up ((release ^^ k) ((acquire ^^ n) s)) \<longleftrightarrow> k < n)"
  using acquire_many [of s n] release_many [of "(acquire ^^ n) s" k] up_refs by auto

end

definition transport_inv :: "('f, 'd) transport \<Rightarrow> bool" where
  "transport_inv t \<longleftrightarrow> (is_initialized t \<longleftrightarrow> transport_ref_count t \<noteq> 0) \<and>
     (\<not> is_initialized t \<longrightarrow> True \<notin> set (used_pubs t) \<and> True \<notin> set (used_subs t))"

definition transport_start :: "zenbedded_pub_s list \<Rightarrow> ('f, 'd) zenbedded_sub_s list \<Rightarrow> ('f, 'd) transport"
where
  "transport_start ps ss =
     \<lparr>is_initialized = False, transport_ref_count = 0, current_domain_id = 0,
      current_node_name = [], pub_pool = ps, sub_pool = ss, node_lv_str = [], mutex_depth = 0,
      zcalls = []\<rparr>"

lemma transport_start_inv:
  "True \<notin> p_in_use ` set ps \<Longrightarrow> True \<notin> s_in_use ` set ss \<Longrightarrow> transport_inv (transport_start ps ss)"
  by (simp add: transport_inv_def transport_start_def used_pubs_def used_subs_def)

lemma init_inv:
  assumes "transport_inv t" "transport_ref_count t \<noteq> - 1"
    and "zenbedded_transport_init cfg z domid node mode loc t = (r, t')"
  shows "transport_inv t'"
proof -
  have "transport_ref_count t + 1 \<noteq> 0"
    using assms(2) by (simp add: eq_neg_iff_add_eq_0)
  with init_effect [OF assms(3)] assms(1) show ?thesis
    by (auto simp: transport_inv_def used_pubs_def used_subs_def split: if_splits)
qed

lemma destroy_inv:
  assumes "transport_inv t"
  shows "transport_inv (zenbedded_transport_destroy cfg t)"
proof (cases "is_initialized t \<and> transport_ref_count t = 1")
  case True
  then show ?thesis
    using destroy_last [of t cfg] by (simp add: transport_inv_def)
next
  case False
  then show ?thesis
    using assms destroy_other [of t cfg]
    by (auto simp: transport_inv_def used_pubs_def used_subs_def)
qed

lemma inv_same_session:
  assumes "transport_inv t" "same_session t t'"
    and "\<not> is_initialized t \<Longrightarrow> used_pubs t' = used_pubs t \<and> used_subs t' = used_subs t"
  shows "transport_inv t'"
  using assms by (auto simp: transport_inv_def same_session_def)

lemma destroy_refs:
  "transport_inv t \<Longrightarrow>
   unat (transport_ref_count (zenbedded_transport_destroy cfg t)) = unat (transport_ref_count t) - 1"
proof (cases "is_initialized t \<and> transport_ref_count t = 1")
  case True
  then show ?thesis using destroy_last(2) [of t cfg] by simp
next
  case False
  moreover assume "transport_inv t"
  ultimately show ?thesis
    using destroy_other [of t cfg]
    by (auto simp: transport_inv_def unat_minus_one)
qed

text \<open>\<open>init\<close> and \<open>destroy\<close>, in a world where \<open>z_open\<close> succeeds, up to the range of the counter.\<close>

definition zinit ::
  "transport_config \<Rightarrow> zenoh \<Rightarrow> uint32 \<Rightarrow> string \<Rightarrow> string \<Rightarrow> string option \<Rightarrow> ('f, 'd) transport
     \<Rightarrow> ('f, 'd) transport" where
  "zinit cfg z domid node mode loc t =
     snd (zenbedded_transport_init cfg (z\<lparr>z_open_ok := True\<rparr>) domid node mode loc t)"

interpretation session: ref_counted transport_inv is_initialized
  "\<lambda>t. unat (transport_ref_count t)" "2 ^ 32 - 1" "zinit cfg z domid node mode loc"
  "zenbedded_transport_destroy cfg" for cfg z domid node mode loc
proof
  fix t :: "('f, 'd) transport"
  assume inv: "transport_inv t"
  show "transport_inv (zenbedded_transport_destroy cfg t)" using inv by (rule destroy_inv)
  show "unat (transport_ref_count (zenbedded_transport_destroy cfg t)) = unat (transport_ref_count t) - 1"
    using inv by (rule destroy_refs)
  show "is_initialized t \<longleftrightarrow> 0 < unat (transport_ref_count t)"
    using inv by (simp add: transport_inv_def unat_gt_0)
  assume less: "unat (transport_ref_count t) < 2 ^ 32 - 1"
  have max: "transport_ref_count t \<noteq> - 1"
    using less by (auto simp: unsigned_minus_1_eq_mask mask_eq_exp_minus_1)
  obtain r t' where init: "zenbedded_transport_init cfg (z\<lparr>z_open_ok := True\<rparr>) domid node mode loc t =
      (r, t')" by fastforce
  show "transport_inv (zinit cfg z domid node mode loc t)"
    using init_inv [OF inv max init] init by (simp add: zinit_def)
  have "unat (transport_ref_count t + 1) = Suc (unat (transport_ref_count t))"
    using less by (simp add: unat_word_ariths)
  then show "unat (transport_ref_count (zinit cfg z domid node mode loc t)) =
      Suc (unat (transport_ref_count t))"
    using init_effect [OF init] init inv
    by (auto simp: zinit_def transport_inv_def split: if_splits)
qed

end
