(* ===== verification/Zenoh_Properties.thy ===== *)
theory Zenoh_Properties
  imports Zenoh_Lemmas
begin

text \<open>
  The transport as a state machine over every sequence of API calls, and its guarantees.
\<close>

section \<open>Sequences of calls\<close>

text \<open>One step is one call of the API, with any arguments and any answers from outside; handles
  point into the pools. The counter of references is kept below its range.\<close>

inductive transport_step :: "transport_config \<Rightarrow> ('f, 'd) transport \<Rightarrow> ('f, 'd) transport \<Rightarrow> bool"
  for cfg :: transport_config where
  Init: "transport_ref_count t \<noteq> - 1 \<Longrightarrow>
      zenbedded_transport_init cfg z domid node mode loc t = (r, t') \<Longrightarrow> transport_step cfg t t'"
| Destroy: "t' = zenbedded_transport_destroy cfg t \<Longrightarrow> transport_step cfg t t'"
| Declare_Pub: "zenbedded_transport_declare_publisher cfg z topic ty t = (h, t') \<Longrightarrow>
      transport_step cfg t t'"
| Declare_Sub: "zenbedded_transport_declare_subscriber cfg z topic ty cb d t = (h, t') \<Longrightarrow>
      transport_step cfg t t'"
| Undeclare_Pub: "i < length (pub_pool t) \<Longrightarrow>
      zenbedded_transport_undeclare_publisher cfg (Some i) t = (r, t') \<Longrightarrow> transport_step cfg t t'"
| Undeclare_Sub: "i < length (sub_pool t) \<Longrightarrow>
      zenbedded_transport_undeclare_subscriber cfg (Some i) t = (r, t') \<Longrightarrow> transport_step cfg t t'"
| Publish: "zenbedded_transport_publish cfg z h payload t = (r, t') \<Longrightarrow> transport_step cfg t t'"

inductive_cases transport_stepE: "transport_step cfg t t'"

definition transport_safe :: "nat \<Rightarrow> nat \<Rightarrow> nat \<Rightarrow> ('f, 'd) transport \<Rightarrow> bool" where
  "transport_safe d np ns t \<longleftrightarrow> transport_inv t \<and> mutex_depth t = d \<and>
     length (pub_pool t) = np \<and> length (sub_pool t) = ns"

lemma transport_step_safe:
  assumes "transport_step cfg t t'" "transport_safe d np ns t"
  shows "transport_safe d np ns t'"
  using assms(1)
proof (cases rule: transport_step.cases)
  case (Init z domid node mode loc r)
  with assms(2) init_inv [of t cfg z domid node mode loc r t'] init_effect [OF Init(2)] show ?thesis
    by (auto simp: transport_safe_def)
next
  case Destroy
  show ?thesis
  proof (cases "is_initialized t \<and> transport_ref_count t = 1")
    case True
    then have d: "is_initialized t" "transport_ref_count t = 1" by auto
    show ?thesis
      using assms(2) destroy_inv [of t cfg] destroy_last(3) [OF d, of cfg]
        arg_cong [OF destroy_last(4) [OF d, of cfg], of length]
        arg_cong [OF destroy_last(5) [OF d, of cfg], of length]
      by (simp add: transport_safe_def Destroy)
  next
    case False
    then show ?thesis
      using assms(2) destroy_inv [of t cfg] destroy_other [of t cfg]
      by (auto simp: transport_safe_def Destroy)
  qed
next
  case (Declare_Pub z topic ty h)
  note e = declare_publisher_effect [OF Declare_Pub]
  have "transport_inv t'"
    by (rule inv_same_session [of t])
      (use assms(2) e in \<open>auto simp: transport_safe_def used_subs_def split: option.splits\<close>)
  moreover have "length (pub_pool t') = length (pub_pool t)"
    using e by (auto split: option.splits dest: used_length)
  ultimately show ?thesis
    using assms(2) e by (simp add: transport_safe_def same_session_def)
next
  case (Declare_Sub z topic ty cb d h)
  note e = declare_subscriber_effect [OF Declare_Sub]
  have "transport_inv t'"
    by (rule inv_same_session [of t])
      (use assms(2) e in \<open>auto simp: transport_safe_def used_pubs_def split: option.splits\<close>)
  moreover have "length (sub_pool t') = length (sub_pool t)"
    using e by (auto split: option.splits dest: used_length)
  ultimately show ?thesis
    using assms(2) e by (simp add: transport_safe_def same_session_def)
next
  case (Undeclare_Pub i r)
  note e = undeclare_publisher_effect [OF Undeclare_Pub(2,1)]
  have "transport_inv t'"
    by (rule inv_same_session [of t])
      (use assms(2) e in \<open>auto simp: transport_safe_def used_subs_def split: if_splits\<close>)
  moreover have "length (pub_pool t') = length (pub_pool t)"
    using e by (auto split: if_splits dest: used_length)
  ultimately show ?thesis
    using assms(2) e by (simp add: transport_safe_def same_session_def)
next
  case (Undeclare_Sub i r)
  note e = undeclare_subscriber_effect [OF Undeclare_Sub(2,1)]
  have "transport_inv t'"
    by (rule inv_same_session [of t])
      (use assms(2) e in \<open>auto simp: transport_safe_def used_pubs_def split: if_splits\<close>)
  moreover have "length (sub_pool t') = length (sub_pool t)"
    using e by (auto split: if_splits dest: used_length)
  ultimately show ?thesis
    using assms(2) e by (simp add: transport_safe_def same_session_def)
next
  case (Publish z h payload r)
  note e = publish_effect [OF Publish]
  have "transport_inv t'"
    by (rule inv_same_session [of t])
      (use assms(2) e in \<open>auto simp: transport_safe_def used_subs_def\<close>)
  moreover have "length (pub_pool t') = length (pub_pool t)"
    using e by (auto dest: used_length)
  ultimately show ?thesis
    using assms(2) e by (simp add: transport_safe_def same_session_def)
qed

lemma transport_steps_safe:
  "(transport_step cfg)\<^sup>*\<^sup>* t t' \<Longrightarrow> transport_safe d np ns t \<Longrightarrow> transport_safe d np ns t'"
  by (induction rule: rtranclp_induct) (auto intro: transport_step_safe)

section \<open>Key expressions\<close>

lemma topic_keyexpr_fits:
  assumes "tier cfg = Tier1" "length topic \<le> max_topic_name_len cfg"
    "length ty \<le> max_type_name_len cfg" "rihs01_hash hash"
  shows "snprintf (TOPIC_KEYEXPR_MAX_LEN cfg) (topic_keyexpr d topic ty hash) =
    topic_keyexpr d topic ty hash"
  using assms fmt_u_u32 [of d]
  by (intro snprintf_fits) (simp add: topic_keyexpr_def TOPIC_KEYEXPR_MAX_LEN_def rihs01_hash_def
      TOPIC_KEYEXPR_FIXED_OVERHEAD_def MAX_DOMAIN_ID_DIGITS_def RIHS01_TYPE_HASH_LEN_def)

lemma lv_keyexpr_fits:
  assumes "length kind = 2" "length zid = 16" "length node \<le> max_node_name_len cfg"
    "length mangled \<le> max_topic_name_len cfg" "length ty \<le> max_type_name_len cfg" "rihs01_hash hash"
  shows "snprintf (LV_KEYEXPR_MAX_LEN cfg) (lv_keyexpr kind d zid node mangled ty hash) =
    lv_keyexpr kind d zid node mangled ty hash"
  using assms fmt_u_u32 [of d] fmt_zid_length [of zid]
  by (intro snprintf_fits) (simp add: lv_keyexpr_def LV_KEYEXPR_MAX_LEN_def rihs01_hash_def
      LV_PUB_SUB_FIXED_OVERHEAD_def MAX_DOMAIN_ID_DIGITS_def RIHS01_TYPE_HASH_LEN_def)

lemma node_lv_keyexpr_fits:
  assumes "length zid = 16" "length node \<le> max_node_name_len cfg"
  shows "snprintf (NODE_LV_KEYEXPR_MAX_LEN cfg) (node_lv_keyexpr d zid node) = node_lv_keyexpr d zid node"
  using assms fmt_u_u32 [of d] fmt_zid_length [of zid]
  by (intro snprintf_fits) (simp add: node_lv_keyexpr_def NODE_LV_KEYEXPR_MAX_LEN_def
      LV_NODE_FIXED_OVERHEAD_def MAX_DOMAIN_ID_DIGITS_def)

lemma declare_publisher_tier1:
  assumes "zenbedded_transport_declare_publisher cfg z topic (Some ty) t = (Some i, t')"
    and "tier cfg = Tier1"
  obtains hash where "zenbedded_get_rihs_hash (Some ty) = Some hash"
    "p_topic_keyexpr (pub_pool t' ! i) = snprintf (TOPIC_KEYEXPR_MAX_LEN cfg)
       (topic_keyexpr (current_domain_id t) (strip_slash topic) ty hash)"
    "p_lv_keyexpr (pub_pool t' ! i) = snprintf (LV_KEYEXPR_MAX_LEN cfg)
       (lv_keyexpr ''MP'' (current_domain_id t) (z_zid z) (current_node_name t)
          (mangle_topic (max_topic_name_len cfg) (strip_slash topic)) ty hash)"
    "sequence_number (attachment (pub_pool t' ! i)) = 0"
    "gid (attachment (pub_pool t' ! i)) = take 16 (sys_rand z)"
proof -
  obtain j where j: "first_free p_in_use (pub_pool t) = Some j"
    using assms by (auto simp: zenbedded_transport_declare_publisher_def transport_simps
        split: option.splits if_splits)
  have "j < length (pub_pool t)" using first_free_Some [OF j] by simp
  with assms j show thesis
    by (auto intro: that simp: zenbedded_transport_declare_publisher_def transport_simps
        RMW_GID_SIZE_def split: option.splits if_splits)
qed

section \<open>Properties\<close>

text \<open>C11: over every sequence of API calls, whatever zenoh answers, the transport keeps its
  invariant: it is initialised iff references are held, an uninitialised transport holds no pool
  slot, the pools keep their size, and every path of every call, errors included, releases the
  mutex as often as it took it.\<close>

theorem transport_reachable_safe:
  assumes "(transport_step cfg)\<^sup>*\<^sup>* (transport_start ps ss) t"
    and "list_all (\<lambda>p. \<not> p_in_use p) ps" and "list_all (\<lambda>s. \<not> s_in_use s) ss"
  shows "(is_initialized t \<longleftrightarrow> transport_ref_count t \<noteq> 0) \<and>
    (\<not> is_initialized t \<longrightarrow> True \<notin> set (used_pubs t) \<and> True \<notin> set (used_subs t)) \<and>
    length (pub_pool t) = length ps \<and> length (sub_pool t) = length ss \<and> mutex_depth t = 0"
proof -
  have "transport_safe 0 (length ps) (length ss) (transport_start ps ss)"
    using assms(2,3) transport_start_inv [of ps ss]
    by (auto simp: transport_safe_def transport_start_def list_all_iff)
  from transport_steps_safe [OF assms(1) this] show ?thesis
    by (simp add: transport_safe_def transport_inv_def)
qed

definition sample_config :: transport_config where
  "sample_config = \<lparr>tier = Tier1, max_node_name_len = 64, max_topic_name_len = 64,
     max_type_name_len = 64, max_locator_len = 32, max_rx_buffer_size = 1024,
     qos_reliable = False, mode_client = True, dynamic_port_override = False\<rparr>"

definition sample_zenoh :: zenoh where
  "sample_zenoh = \<lparr>z_open_ok = True, z_declare_ok = True, z_put_ok = True,
     z_zid = replicate 16 0xAB, sys_rand = replicate 16 7, clock_sec = 1, clock_nsec = 5,
     env_port = None\<rparr>"

definition sample_pub :: zenbedded_pub_s where
  "sample_pub = \<lparr>p_in_use = False, p_topic_keyexpr = [],
     attachment = \<lparr>sequence_number = 0, timestamp_ns = 0, gid_length = 0, gid = replicate 16 0\<rparr>,
     p_lv_keyexpr = []\<rparr>"

definition sample_transport :: "(unit, unit) transport" where
  "sample_transport = transport_start [sample_pub] []"

definition sample_started :: "(unit, unit) transport" where
  "sample_started =
     snd (zenbedded_transport_init sample_config sample_zenoh 0 ''zenbedded_node'' ''client''
       (Some ''127.0.0.1:7447'') sample_transport)"

theorem transport_reachable_safe_witness:
  "is_initialized sample_started \<and> transport_ref_count sample_started = 1 \<and>
   mutex_depth sample_started = 0"
proof -
  have "transport_step sample_config sample_transport sample_started"
    unfolding sample_started_def
    by (rule transport_step.Init [where r = "fst (zenbedded_transport_init sample_config sample_zenoh
          0 ''zenbedded_node'' ''client'' (Some ''127.0.0.1:7447'') sample_transport)"])
      (simp_all add: sample_transport_def transport_start_def)
  then have "(transport_step sample_config)\<^sup>*\<^sup>* (transport_start [sample_pub] []) sample_started"
    unfolding sample_transport_def by (rule r_into_rtranclp)
  from transport_reachable_safe [OF this]
  have "mutex_depth sample_started = 0"
    by (simp add: sample_pub_def)
  then show ?thesis
    by (simp add: sample_started_def zenbedded_transport_init_def transport_simps sample_transport_def
        transport_start_def sample_zenoh_def sample_config_def)
qed

text \<open>C12: the session is reference counted. After \<open>n\<close> successful inits on a fresh transport, the
  session is open after \<open>k\<close> calls of destroy iff \<open>k < n\<close>; once it is closed no slot is in use, and
  surplus destroys change nothing.\<close>

theorem transport_session_ref_counted:
  assumes "transport_inv t" and "\<not> is_initialized t" and "n < 2 ^ 32"
  shows "is_initialized ((zenbedded_transport_destroy cfg ^^ k)
           ((zinit cfg z domid node mode loc ^^ n) t)) \<longleftrightarrow> k < n"
    (is "is_initialized ?t \<longleftrightarrow> _")
proof -
  have "unat (transport_ref_count t) = 0"
    using assms(1,2) by (simp add: transport_inv_def)
  with session.up_until_last [where s = t and n = n and k = k and cfg = cfg and z = z and
      domid = domid and node = node and mode = mode and loc = loc] assms show ?thesis by simp
qed

theorem transport_session_ref_counted_witness:
  "is_initialized ((zenbedded_transport_destroy sample_config ^^ 1)
     ((zinit sample_config sample_zenoh 0 ''n'' ''client'' None ^^ 2) sample_transport)) \<longleftrightarrow> 1 < (2 :: nat)"
proof (rule transport_session_ref_counted)
  show "transport_inv sample_transport"
    unfolding sample_transport_def by (rule transport_start_inv) (simp_all add: sample_pub_def)
qed (simp_all add: sample_transport_def transport_start_def)

text \<open>the last destroy tears everything down: every publisher and subscriber slot is free again,
  the session is marked closed, no reference is left and the (recursively taken) mutex is released.\<close>

theorem destroy_last_frees_all:
  assumes "is_initialized t" and "transport_ref_count t = 1"
  shows "\<not> is_initialized (zenbedded_transport_destroy cfg t) \<and>
    transport_ref_count (zenbedded_transport_destroy cfg t) = 0 \<and>
    used_pubs (zenbedded_transport_destroy cfg t) = replicate (length (pub_pool t)) False \<and>
    used_subs (zenbedded_transport_destroy cfg t) = replicate (length (sub_pool t)) False \<and>
    mutex_depth (zenbedded_transport_destroy cfg t) = mutex_depth t"
  using destroy_last [OF assms] by blast

theorem destroy_last_frees_all_witness:
  "\<not> is_initialized (zenbedded_transport_destroy sample_config sample_started)"
  using destroy_last_frees_all [of sample_started sample_config]
  by (simp add: sample_started_def zenbedded_transport_init_def transport_simps sample_transport_def
        transport_start_def sample_zenoh_def sample_config_def)

text \<open>declaring a publisher never loses or shares a slot. On success exactly one slot, which was
  free, becomes used; on every failure (exhausted pool, null or unknown type, refused by zenoh) the
  set of used slots is as before; subscribers and the session are untouched either way.\<close>

theorem declare_publisher_slots:
  "case zenbedded_transport_declare_publisher cfg z topic ty t of
     (None, t') \<Rightarrow> used_pubs t' = used_pubs t \<and> sub_pool t' = sub_pool t \<and> same_session t t'
   | (Some i, t') \<Rightarrow> i < length (pub_pool t) \<and> \<not> used_pubs t ! i \<and>
       used_pubs t' = (used_pubs t)[i := True] \<and> sub_pool t' = sub_pool t \<and> same_session t t'"
  using declare_publisher_effect [of cfg z topic ty t]
  by (auto split: prod.splits option.splits)

text \<open>a declaration succeeds exactly when it should: the transport is up, a slot is free, zenoh
  accepts, and in Tier 1 a type is given that the hash ledger knows.\<close>

theorem declare_publisher_succeeds_iff:
  "fst (zenbedded_transport_declare_publisher cfg z topic ty t) \<noteq> None \<longleftrightarrow>
     is_initialized t \<and> (\<exists>p \<in> set (pub_pool t). \<not> p_in_use p) \<and> z_declare_ok z \<and>
     (tier cfg = Tier1 \<longrightarrow> zenbedded_get_rihs_hash ty \<noteq> None)"
proof (cases "first_free p_in_use (pub_pool t)")
  case None
  then have "\<forall>p \<in> set (pub_pool t). p_in_use p" by (simp add: first_free_None)
  with None show ?thesis
    by (auto simp: zenbedded_transport_declare_publisher_def transport_simps)
next
  case (Some i)
  then have "\<exists>p \<in> set (pub_pool t). \<not> p_in_use p"
    using first_free_Some nth_mem by blast
  moreover have "zenbedded_get_rihs_hash None = None" by (simp add: zenbedded_get_rihs_hash_def)
  ultimately show ?thesis
    using Some by (auto simp: zenbedded_transport_declare_publisher_def transport_simps
        split: tier.splits option.splits)
qed

theorem declare_publisher_succeeds_iff_witness:
  "fst (zenbedded_transport_declare_publisher sample_config sample_zenoh ''joint_states''
     (Some ''sensor_msgs::msg::dds_::JointState_'') sample_started) \<noteq> None"
proof -
  obtain h where "zenbedded_get_rihs_hash (Some ''sensor_msgs::msg::dds_::JointState_'') = Some h"
    by (simp add: zenbedded_get_rihs_hash_def RIHS_LEDGER_def)
  then show ?thesis
    unfolding declare_publisher_succeeds_iff
    by (simp add: sample_started_def zenbedded_transport_init_def
        transport_simps sample_transport_def transport_start_def sample_zenoh_def sample_config_def
        sample_pub_def)
qed

text \<open>C27: the fixed key buffers are large enough. With names within the configured lengths no key
  expression of a publisher is cut off: topic key and liveliness token are stored whole, whatever
  the domain id, zenoh id and type.\<close>

theorem publisher_keyexprs_not_truncated:
  assumes "zenbedded_transport_declare_publisher cfg z topic (Some ty) t = (Some i, t')"
    and "tier cfg = Tier1" and "length (z_zid z) = 16"
    and "length (current_node_name t) \<le> max_node_name_len cfg"
    and "length topic < max_topic_name_len cfg" and "length ty \<le> max_type_name_len cfg"
  shows "\<exists>hash. zenbedded_get_rihs_hash (Some ty) = Some hash \<and>
    p_topic_keyexpr (pub_pool t' ! i) =
      topic_keyexpr (current_domain_id t) (strip_slash topic) ty hash \<and>
    p_lv_keyexpr (pub_pool t' ! i) =
      lv_keyexpr ''MP'' (current_domain_id t) (z_zid z) (current_node_name t)
        (map mangle_char (strip_slash (strip_slash topic))) ty hash"
proof -
  obtain hash where hash: "zenbedded_get_rihs_hash (Some ty) = Some hash"
    "p_topic_keyexpr (pub_pool t' ! i) = snprintf (TOPIC_KEYEXPR_MAX_LEN cfg)
       (topic_keyexpr (current_domain_id t) (strip_slash topic) ty hash)"
    "p_lv_keyexpr (pub_pool t' ! i) = snprintf (LV_KEYEXPR_MAX_LEN cfg)
       (lv_keyexpr ''MP'' (current_domain_id t) (z_zid z) (current_node_name t)
          (mangle_topic (max_topic_name_len cfg) (strip_slash topic)) ty hash)"
    by (rule declare_publisher_tier1 [OF assms(1,2)])
  have wf: "rihs01_hash hash" using hash(1) by (rule get_rihs_hash_wf)
  have len: "length (strip_slash topic) \<le> length topic"
    "length (strip_slash (strip_slash topic)) \<le> length (strip_slash topic)"
    by (rule strip_slash_length)+
  have m: "mangle_topic (max_topic_name_len cfg) (strip_slash topic) =
      map mangle_char (strip_slash (strip_slash topic))"
    using len assms(5) by (simp add: mangle_topic_eq)
  show ?thesis
    using hash wf len assms(2-6) topic_keyexpr_fits [of cfg "strip_slash topic" ty hash "current_domain_id t"]
      lv_keyexpr_fits [of "''MP''" "z_zid z" "current_node_name t" cfg
        "map mangle_char (strip_slash (strip_slash topic))" ty hash "current_domain_id t"]
    by (simp add: m)
qed

theorem publisher_keyexprs_not_truncated_witness:
  "\<exists>i t' hash. zenbedded_transport_declare_publisher sample_config sample_zenoh ''/arm/joint_states''
       (Some ''sensor_msgs::msg::dds_::JointState_'') sample_started = (Some i, t') \<and>
     p_topic_keyexpr (pub_pool t' ! i) =
       topic_keyexpr 0 ''arm/joint_states'' ''sensor_msgs::msg::dds_::JointState_'' hash"
proof -
  let ?d = "zenbedded_transport_declare_publisher sample_config sample_zenoh ''/arm/joint_states''
       (Some ''sensor_msgs::msg::dds_::JointState_'') sample_started"
  have s: "current_domain_id sample_started = 0" "current_node_name sample_started = ''zenbedded_node''"
    by (simp_all add: sample_started_def zenbedded_transport_init_def transport_simps
        sample_transport_def transport_start_def sample_zenoh_def sample_config_def)
  have "fst ?d \<noteq> None" by code_simp
  then obtain i t' where d: "?d = (Some i, t')" by (cases ?d) auto
  from publisher_keyexprs_not_truncated [OF d] show ?thesis
    using d by (auto simp: s sample_config_def sample_zenoh_def strip_slash_def)
qed

text \<open>topic mangling. The mangled topic that goes into a liveliness token contains no slash, so
  it is one chunk of the key expression, fits its buffer with the terminator, and is the topic with
  its slashes replaced when the topic fits.\<close>

theorem mangle_topic_one_chunk:
  assumes "0 < n"
  shows "CHR ''/'' \<notin> set (mangle_topic n s) \<and> length (mangle_topic n s) < n \<and>
    (length s < n \<longrightarrow> mangle_topic n s = map mangle_char (strip_slash s))"
  using assms strip_slash_length [of s]
  by (auto simp: mangle_topic_eq mangle_char_def)

theorem mangle_topic_one_chunk_witness:
  "mangle_topic 64 ''/arm/joint_states'' = ''arm%joint_states'' \<and>
   CHR ''/'' \<notin> set (mangle_topic 64 ''/arm/joint_states'')"
  using mangle_topic_one_chunk [of 64 "''/arm/joint_states''"]
  by (simp add: strip_slash_def mangle_char_def)

definition publish_on ::
  "transport_config \<Rightarrow> nat \<Rightarrow> zenoh \<times> bytes \<Rightarrow> ('f, 'd) transport \<Rightarrow> ('f, 'd) transport" where
  "publish_on cfg i m t = snd (zenbedded_transport_publish cfg (fst m) (Some i) (snd m) t)"

lemma publish_on_slot:
  fixes m :: "zenoh \<times> bytes"
  assumes "tier cfg = Tier1" "i < length (pub_pool t)" "p_in_use (pub_pool t ! i)"
  defines "t' \<equiv> publish_on cfg i m t"
  shows "length (pub_pool t') = length (pub_pool t)" "p_in_use (pub_pool t' ! i)"
    "sequence_number (attachment (pub_pool t' ! i)) = sequence_number (attachment (pub_pool t ! i)) + 1"
    "gid (attachment (pub_pool t' ! i)) = gid (attachment (pub_pool t ! i))"
    "\<exists>a. sequence_number a = sequence_number (attachment (pub_pool t ! i)) + 1 \<and>
         zcalls t' = zcalls t @ [Z_Put i (snd m) (Some (attachment_image a))]"
proof -
  note defs = t'_def publish_on_def zenbedded_transport_publish_def transport_simps
  show "length (pub_pool t') = length (pub_pool t)" "p_in_use (pub_pool t' ! i)"
    "sequence_number (attachment (pub_pool t' ! i)) = sequence_number (attachment (pub_pool t ! i)) + 1"
    "gid (attachment (pub_pool t' ! i)) = gid (attachment (pub_pool t ! i))"
    using assms(1-3) by (auto simp: defs)
  show "\<exists>a. sequence_number a = sequence_number (attachment (pub_pool t ! i)) + 1 \<and>
      zcalls t' = zcalls t @ [Z_Put i (snd m) (Some (attachment_image a))]"
    by (rule exI [of _ "(attachment (pub_pool t ! i))
          \<lparr>sequence_number := sequence_number (attachment (pub_pool t ! i)) + 1,
           timestamp_ns := clock_sec (fst m) * 1000000000 + clock_nsec (fst m)\<rparr>"])
      (use assms(1-3) in \<open>auto simp: defs\<close>)
qed

text \<open>The sequence numbers a run of publications sends, read from the attachments of its puts.\<close>

definition put_seqs :: "zcall list \<Rightarrow> uint64 list" where
  "put_seqs cs = concat (map (\<lambda>c. case c of Z_Put i b (Some a) \<Rightarrow> [of_le64 (take 8 a)] | _ \<Rightarrow> []) cs)"

lemma put_seqs_append: "put_seqs (xs @ ys) = put_seqs xs @ put_seqs ys"
  by (simp add: put_seqs_def)

lemma attachment_seq: "of_le64 (take 8 (attachment_image a)) = sequence_number a"
  by (simp add: attachment_image_def le_simps)

lemma publish_run:
  assumes "tier cfg = Tier1" "i < length (pub_pool t)" "p_in_use (pub_pool t ! i)"
    and "sequence_number (attachment (pub_pool t ! i)) = word_of_nat n"
  shows "put_seqs (zcalls (fold (publish_on cfg i) ms t)) =
      put_seqs (zcalls t) @ map word_of_nat [Suc n..<Suc n + length ms] \<and>
    gid (attachment (pub_pool (fold (publish_on cfg i) ms t) ! i)) = gid (attachment (pub_pool t ! i))"
  using assms(2-4)
proof (induction ms arbitrary: t n)
  case Nil
  then show ?case by simp
next
  case (Cons m ms)
  note step = publish_on_slot [OF assms(1) Cons.prems(1,2), of m]
  obtain a where a: "sequence_number a = sequence_number (attachment (pub_pool t ! i)) + 1"
    "zcalls (publish_on cfg i m t) = zcalls t @ [Z_Put i (snd m) (Some (attachment_image a))]"
    using step(5) by blast
  have now: "put_seqs [Z_Put i (snd m) (Some (attachment_image a))] = [word_of_nat (Suc n)]"
    using a(1) Cons.prems(3) by (simp add: put_seqs_def attachment_seq add.commute)
  have "sequence_number (attachment (pub_pool (publish_on cfg i m t) ! i)) = word_of_nat (Suc n)"
    using step(3) Cons.prems(3) by (simp add: add.commute)
  from Cons.IH [OF _ step(2) this] step(1) Cons.prems(1)
  have IH: "put_seqs (zcalls (fold (publish_on cfg i) ms (publish_on cfg i m t))) =
      put_seqs (zcalls (publish_on cfg i m t)) @ map word_of_nat [Suc (Suc n)..<Suc (Suc n) + length ms]"
    "gid (attachment (pub_pool (fold (publish_on cfg i) ms (publish_on cfg i m t)) ! i)) =
      gid (attachment (pub_pool (publish_on cfg i m t) ! i))"
    by simp_all
  have "[Suc n..<Suc n + length (m # ms)] = Suc n # [Suc (Suc n)..<Suc (Suc n) + length ms]"
    using upt_conv_Cons [of "Suc n" "Suc n + length (m # ms)"] by (simp del: upt_Suc)
  then show ?case
    using IH step(4) a(2) now by (simp add: put_seqs_append)
qed

text \<open>consecutive publications on a freshly declared Tier 1 publisher carry the sequence numbers
  1, 2, 3, ... in their attachments, whether or not zenoh accepts them, so that a subscriber can
  detect loss; the gid stays that of the declaration.\<close>

theorem publish_sequence_numbers:
  assumes "zenbedded_transport_declare_publisher cfg z topic (Some ty) t = (Some i, t')"
    and "tier cfg = Tier1" and "put_seqs (zcalls t') = []"
  shows "put_seqs (zcalls (fold (publish_on cfg i) ms t')) = map word_of_nat [1..<Suc (length ms)] \<and>
    gid (attachment (pub_pool (fold (publish_on cfg i) ms t') ! i)) = take 16 (sys_rand z)"
proof -
  have seq: "sequence_number (attachment (pub_pool t' ! i)) = word_of_nat 0"
    and gid: "gid (attachment (pub_pool t' ! i)) = take 16 (sys_rand z)"
    by (rule declare_publisher_tier1 [OF assms(1,2)], simp)+
  have i: "i < length (pub_pool t)" "used_pubs t' = (used_pubs t)[i := True]"
    using declare_publisher_effect [OF assms(1)] by auto
  then have "i < length (pub_pool t')" using used_length(2) [OF i(2)] by simp
  moreover from this have "p_in_use (pub_pool t' ! i)"
    using i(1) nth_map [of i "pub_pool t'" p_in_use] unfolding used_pubs_def [symmetric] i(2) by simp
  ultimately show ?thesis
    using publish_run [OF assms(2) _ _ seq, of ms] assms(3) gid by simp
qed

theorem publish_sequence_numbers_witness:
  "\<exists>i t'. zenbedded_transport_declare_publisher sample_config sample_zenoh ''s''
       (Some ''sensor_msgs::msg::dds_::JointState_'') sample_started = (Some i, t') \<and>
     put_seqs (zcalls (fold (publish_on sample_config i)
       [(sample_zenoh, [1]), (sample_zenoh, [2])] t')) = [1, 2]"
proof -
  let ?d = "zenbedded_transport_declare_publisher sample_config sample_zenoh ''s''
       (Some ''sensor_msgs::msg::dds_::JointState_'') sample_started"
  have "fst ?d \<noteq> None \<and> put_seqs (zcalls (snd ?d)) = []" by code_simp
  then obtain i t' where d: "?d = (Some i, t')" "put_seqs (zcalls t') = []" by (cases ?d) auto
  from publish_sequence_numbers [OF d(1) _ d(2), of "[(sample_zenoh, [1]), (sample_zenoh, [2])]"]
  show ?thesis using d(1) by (simp add: sample_config_def upt_rec)
qed

end
