(* ===== verification/Zenbedded_Client.thy ===== *)
theory Zenbedded_Client
  imports Double_Buffer Codecs Zenoh_Properties
begin

text \<open>
  \<open>zenbedded_rcl/zenbedded_client.hpp\<close> and \<open>zenbedded_client.cpp\<close>: the client that publishes a state
  message at a fixed rate and keeps the latest command. \<open>ZenbeddedClientBase\<close> and the members that
  the template adds are one record; the template's operations take the codec's functions as
  arguments. A call runs against the state of the transport, which several clients share; the
  result \<open>None\<close> is an access out of bounds, or a loop that does not return. Stack buffers that the
  code leaves uninitialised are arguments.
\<close>

section \<open>Configuration and state\<close>

datatype client_cb = On_Transport_Cmd_Cb

text \<open>The transport calls back with the client's address; a client is named by a number.\<close>

type_synonym client_transport = "(client_cb, nat) transport"

record client_config =
  transport_cfg :: transport_config
  max_state_buffer_size :: nat
  max_cmd_buffer_size :: nat
  cfg_domain_id :: uint32
  cfg_node_name :: string
  cfg_zenoh_mode :: string
  cfg_ip_port :: string
  pub_topic :: string
  sub_topic :: string
  state_msg_type :: string
  cmd_msg_type :: string

record ('c, 'k) client =
  self_id :: nat
  initialized :: bool
  state_payload_size :: size_t
  cmd_payload_size :: size_t
  pub :: "nat option"
  sub :: "nat option"
  state_buffer :: "bytes double_buffer"
  cmd_buffer :: "bytes double_buffer"
  cmd_accepted_count :: uint32
  control_freq :: uint32
  control_thread_running :: bool
  control_thread_started :: bool
  state_ctx :: 'c
  cmd_ctx :: 'k

section \<open>Buffers\<close>

definition reset_buffers :: "client_config \<Rightarrow> ('c, 'k) client \<Rightarrow> ('c, 'k) client" where
  "reset_buffers cfg c =
     c\<lparr>state_buffer := dbb_reset (max_state_buffer_size cfg),
       cmd_buffer := dbb_reset (max_cmd_buffer_size cfg), cmd_accepted_count := 0\<rparr>"

text \<open>What the template and the thread do with the two buffers. A slot that is handed out is its
  index and its contents.\<close>

definition get_state_buffer_slot :: "('c, 'k) client \<Rightarrow> nat \<Rightarrow> bytes option" where
  "get_state_buffer_slot c slot_idx = dbb_slot (state_buffer c) slot_idx"

definition prepare_state_write_slot :: "('c, 'k) client \<Rightarrow> (int \<times> bytes) option" where
  "prepare_state_write_slot c = do {
     let i = prepare_write (state_buffer c);
     buf \<leftarrow> nth_slot (slots (state_buffer c)) i;
     Some (i, buf)
   }"

definition commit_state_write_slot :: "int \<Rightarrow> ('c, 'k) client \<Rightarrow> ('c, 'k) client" where
  "commit_state_write_slot i c = c\<lparr>state_buffer := commit_write i (state_buffer c)\<rparr>"

definition read_state_from_buffer ::
  "client_config \<Rightarrow> ('c, 'k) client \<Rightarrow> bytes \<Rightarrow> nat \<Rightarrow> (bool \<times> bytes option) option" where
  "read_state_from_buffer cfg c data n =
     dbb_read_latest (max_state_buffer_size cfg) (state_buffer c) (Some data) n"

definition read_command_from_buffer ::
  "client_config \<Rightarrow> ('c, 'k) client \<Rightarrow> bytes \<Rightarrow> nat \<Rightarrow> (bool \<times> bytes option) option" where
  "read_command_from_buffer cfg c data n =
     dbb_read_latest (max_cmd_buffer_size cfg) (cmd_buffer c) (Some data) n"

definition write_state_to_buffer ::
  "client_config \<Rightarrow> bytes \<Rightarrow> size_t \<Rightarrow> ('c, 'k) client \<Rightarrow> ('c, 'k) client option" where
  "write_state_to_buffer cfg data n c =
     map_option (\<lambda>r. c\<lparr>state_buffer := snd r\<rparr>)
       (dbb_write (max_state_buffer_size cfg) (Some data) (unat n) (state_buffer c))"

lemmas state_slot_defs = get_state_buffer_slot_def prepare_state_write_slot_def commit_state_write_slot_def

text \<open>The constructor: \<open>reset_buffers\<close> over the member initialisers.\<close>

definition new_client :: "client_config \<Rightarrow> nat \<Rightarrow> 'c \<Rightarrow> 'k \<Rightarrow> ('c, 'k) client" where
  "new_client cfg i sctx cctx =
     \<lparr>self_id = i, initialized = False, state_payload_size = 0, cmd_payload_size = 0, pub = None,
      sub = None, state_buffer = dbb_reset (max_state_buffer_size cfg),
      cmd_buffer = dbb_reset (max_cmd_buffer_size cfg), cmd_accepted_count = 0, control_freq = 0,
      control_thread_running = False, control_thread_started = False, state_ctx = sctx,
      cmd_ctx = cctx\<rparr>"

text \<open>The busy loops \<open>while (!read_..._from_buffer(data, size)) {}\<close>, over the buffer of either.\<close>

partial_function (option) read_until :: "nat \<Rightarrow> bytes double_buffer \<Rightarrow> bytes \<Rightarrow> nat \<Rightarrow> bytes option"
where
  "read_until cap s data n =
     Option.bind (dbb_read_latest cap s (Some data) n)
       (\<lambda>r. if fst r then snd r else read_until cap s data n)"

lemma read_until_state:
  "read_until (max_state_buffer_size cfg) (state_buffer c) data n =
     Option.bind (read_state_from_buffer cfg c data n)
       (\<lambda>r. if fst r then snd r else read_until (max_state_buffer_size cfg) (state_buffer c) data n)"
  unfolding read_state_from_buffer_def by (rule read_until.simps)

lemma read_until_command:
  "read_until (max_cmd_buffer_size cfg) (cmd_buffer c) data n =
     Option.bind (read_command_from_buffer cfg c data n)
       (\<lambda>r. if fst r then snd r else read_until (max_cmd_buffer_size cfg) (cmd_buffer c) data n)"
  unfolding read_command_from_buffer_def by (rule read_until.simps)

definition read_latest_command_raw ::
  "client_config \<Rightarrow> ('c, 'k) client \<Rightarrow> bytes \<Rightarrow> size_t \<Rightarrow> bytes option" where
  "read_latest_command_raw cfg c data n = read_until (max_cmd_buffer_size cfg) (cmd_buffer c) data (unat n)"

definition write_command_to_buffer ::
  "client_config \<Rightarrow> bytes \<Rightarrow> size_t \<Rightarrow> ('c, 'k) client \<Rightarrow> ('c, 'k) client option" where
  "write_command_to_buffer cfg data n c =
     map_option (\<lambda>r. c\<lparr>cmd_buffer := snd r, cmd_accepted_count := cmd_accepted_count c + 1\<rparr>)
       (dbb_write (max_cmd_buffer_size cfg) (Some data) (unat n) (cmd_buffer c))"

definition on_transport_cmd_cb ::
  "client_config \<Rightarrow> bytes \<Rightarrow> size_t \<Rightarrow> ('c, 'k) client \<Rightarrow> ('c, 'k) client option" where
  "on_transport_cmd_cb cfg payload n c =
     (if n \<noteq> cmd_payload_size c then Some c else write_command_to_buffer cfg payload n c)"

definition is_initialized_client :: "('c, 'k) client \<Rightarrow> bool" where
  "is_initialized_client c = initialized c"

definition is_control_thread_running :: "('c, 'k) client \<Rightarrow> bool" where
  "is_control_thread_running c = control_thread_running c"

definition accepted_command_count :: "('c, 'k) client \<Rightarrow> uint32" where
  "accepted_command_count c = cmd_accepted_count c"

section \<open>The control thread\<close>

definition stop_thread :: "('c, 'k) client \<Rightarrow> ('c, 'k) client" where
  "stop_thread c =
     (if \<not> control_thread_started c then c
      else c\<lparr>control_thread_running := False, control_thread_started := False, control_freq := 0\<rparr>)"

definition start_thread :: "uint32 \<Rightarrow> ('c, 'k) client \<Rightarrow> int \<times> ('c, 'k) client" where
  "start_thread freq c =
     (if \<not> initialized c then (- ENODEV, c)
      else if freq = 0 then (- EINVAL, c)
      else
        let c = (if control_thread_started c then stop_thread c else c) in
        (0, c\<lparr>control_freq := freq, control_thread_running := True,
              control_thread_started := True\<rparr>))"

definition zenoh_publish_state ::
  "client_config \<Rightarrow> zenoh \<Rightarrow> bytes \<Rightarrow> ('c, 'k) client \<Rightarrow> client_transport
     \<Rightarrow> (int \<times> client_transport) option" where
  "zenoh_publish_state cfg z tmp c t =
     (if \<not> initialized c then Some (- ENODEV, t)
      else do {
        tmp \<leftarrow> read_until (max_state_buffer_size cfg) (state_buffer c) tmp (unat (state_payload_size c));
        payload \<leftarrow> mem_read tmp 0 (unat (state_payload_size c));
        Some (zenbedded_transport_publish (transport_cfg cfg) z (pub c) payload t)
      })"

text \<open>What the thread meets in one turn of its loop: the running flag, the state buffer as it is
  then, the answers of zenoh and the two clock readings.\<close>

record control_tick =
  tick_running :: bool
  tick_buffer :: "bytes double_buffer"
  tick_zenoh :: zenoh
  uptime_after_publish :: uint32
  uptime_after_sleep :: uint32

definition period_ms :: "uint32 \<Rightarrow> uint32" where
  "period_ms freq = max (1000 div freq) 1"

definition sleep_ms :: "uint32 \<Rightarrow> uint32 \<Rightarrow> uint32 \<Rightarrow> uint32" where
  "sleep_ms period prev_time now =
     (let diff = now - prev_time in if diff \<ge> period then 1 else period - diff)"

fun control_loop ::
  "client_config \<Rightarrow> uint32 \<Rightarrow> bytes \<Rightarrow> ('c, 'k) client \<Rightarrow> control_tick list \<Rightarrow> uint32
     \<Rightarrow> client_transport \<Rightarrow> (uint32 list \<times> client_transport) option" where
  "control_loop cfg period tmp c [] prev_time t = Some ([], t)"
| "control_loop cfg period tmp c (k # ks) prev_time t =
     (if \<not> tick_running k then Some ([], t)
      else do {
        (ret, t) \<leftarrow> zenoh_publish_state cfg (tick_zenoh k) tmp (c\<lparr>state_buffer := tick_buffer k\<rparr>) t;
        let s = sleep_ms period prev_time (uptime_after_publish k);
        (ss, t) \<leftarrow> control_loop cfg period tmp c ks (uptime_after_sleep k) t;
        Some (s # ss, t)
      })"

definition control_thread_fn ::
  "client_config \<Rightarrow> bytes \<Rightarrow> ('c, 'k) client \<Rightarrow> control_tick list \<Rightarrow> uint32
     \<Rightarrow> client_transport \<Rightarrow> (uint32 list \<times> client_transport) option" where
  "control_thread_fn cfg tmp c ks uptime t =
     (if control_freq c = 0 then None
      else control_loop cfg (period_ms (control_freq c)) tmp c ks uptime t)"

section \<open>Initialisation and teardown\<close>

definition msg_type :: "client_config \<Rightarrow> string \<Rightarrow> string option" where
  "msg_type cfg s = (case tier (transport_cfg cfg) of Tier1 \<Rightarrow> Some s | Tier2 \<Rightarrow> None)"

text \<open>\<open>zi\<close>, \<open>zp\<close> and \<open>zs\<close> are the answers to the three calls of the transport.\<close>

definition init_base ::
  "client_config \<Rightarrow> zenoh \<Rightarrow> zenoh \<Rightarrow> zenoh \<Rightarrow> uint32 \<Rightarrow> size_t \<Rightarrow> size_t
     \<Rightarrow> ('c, 'k) client \<Rightarrow> client_transport \<Rightarrow> int \<times> ('c, 'k) client \<times> client_transport" where
  "init_base cfg zi zp zs freq st_size cmd_size c t =
     (if initialized c then (0, c, t)
      else
        let c = c\<lparr>state_payload_size := st_size\<rparr> in
        if unat (state_payload_size c) > max_state_buffer_size cfg then (- ENOMEM, c, t)
        else
          let c = c\<lparr>cmd_payload_size := cmd_size\<rparr> in
          if unat (cmd_payload_size c) > max_cmd_buffer_size cfg then (- ENOMEM, c, t)
          else
            let (ret, t) = zenbedded_transport_init (transport_cfg cfg) zi (cfg_domain_id cfg)
                             (cfg_node_name cfg) (cfg_zenoh_mode cfg) (Some (cfg_ip_port cfg)) t in
            if ret \<noteq> 0 then (- EIO, c, t)
            else
              let (p, t) = zenbedded_transport_declare_publisher (transport_cfg cfg) zp (pub_topic cfg)
                             (msg_type cfg (state_msg_type cfg)) t;
                  c = c\<lparr>pub := p\<rparr> in
              if p = None then (- EIO, c, zenbedded_transport_destroy (transport_cfg cfg) t)
              else
                let (s, t) = zenbedded_transport_declare_subscriber (transport_cfg cfg) zs
                               (sub_topic cfg) (msg_type cfg (cmd_msg_type cfg))
                               (Some On_Transport_Cmd_Cb) (self_id c) t;
                    c = c\<lparr>sub := s\<rparr> in
                if s = None then (- EIO, c, zenbedded_transport_destroy (transport_cfg cfg) t)
                else
                  let (ret, c) = start_thread freq (c\<lparr>initialized := True, control_freq := freq\<rparr>)
                  in (ret, c, t))"

definition client_destroy ::
  "client_config \<Rightarrow> ('c, 'k) client \<Rightarrow> client_transport \<Rightarrow> ('c, 'k) client \<times> client_transport" where
  "client_destroy cfg c t =
     (if \<not> initialized c then (c, t)
      else
        ((stop_thread c)\<lparr>pub := None, sub := None, initialized := False\<rparr>,
         zenbedded_transport_destroy (transport_cfg cfg) t))"

section \<open>The template\<close>

definition client_init ::
  "('p \<Rightarrow> bytes \<Rightarrow> ('c \<times> bytes) option) \<Rightarrow> ('c \<Rightarrow> size_t) \<Rightarrow>
   ('q \<Rightarrow> bytes \<Rightarrow> ('k \<times> bytes) option) \<Rightarrow> ('k \<Rightarrow> size_t) \<Rightarrow>
   client_config \<Rightarrow> zenoh \<Rightarrow> zenoh \<Rightarrow> zenoh \<Rightarrow> bytes \<Rightarrow> uint32 \<Rightarrow> 'p \<Rightarrow> 'q \<Rightarrow>
   ('c, 'k) client \<Rightarrow> client_transport \<Rightarrow> (int \<times> ('c, 'k) client \<times> client_transport) option" where
  "client_init s_init s_size c_init c_size cfg zi zp zs scratch freq sp cp c t =
     (if initialized c then Some (0, c, t)
      else do {
        let c = reset_buffers cfg c;
        b0 \<leftarrow> get_state_buffer_slot c 0;
        (ctx, b0) \<leftarrow> s_init sp b0;
        b1 \<leftarrow> get_state_buffer_slot c 1;
        (ctx, b1) \<leftarrow> s_init sp b1;
        let c = c\<lparr>state_buffer := (state_buffer c)\<lparr>slots := [b0, b1]\<rparr>, state_ctx := ctx\<rparr>;
        (kctx, _) \<leftarrow> c_init cp scratch;
        let c = c\<lparr>cmd_ctx := kctx\<rparr>;
        Some (init_base cfg zi zp zs freq (s_size ctx) (c_size kctx) c t)
      })"

definition write_state ::
  "('c \<Rightarrow> 'v \<Rightarrow> bytes \<Rightarrow> bytes option) \<Rightarrow> 'v \<Rightarrow> ('c, 'k) client \<Rightarrow> ('c, 'k) client option" where
  "write_state s_write v c =
     (if \<not> initialized c then Some c
      else do {
        (i, buf) \<leftarrow> prepare_state_write_slot c;
        buf \<leftarrow> s_write (state_ctx c) v buf;
        sl \<leftarrow> set_slot (slots (state_buffer c)) i buf;
        Some (commit_state_write_slot i (c\<lparr>state_buffer := (state_buffer c)\<lparr>slots := sl\<rparr>\<rparr>))
      })"

definition read_command ::
  "('k \<Rightarrow> bytes \<Rightarrow> size_t \<Rightarrow> 'w \<Rightarrow> (bool \<times> 'w) option) \<Rightarrow> client_config \<Rightarrow> bytes
     \<Rightarrow> ('c, 'k) client \<Rightarrow> 'w \<Rightarrow> (bool \<times> 'w) option" where
  "read_command c_read cfg tmp c out =
     (if \<not> initialized c then Some (False, out)
      else do {
        tmp \<leftarrow> read_latest_command_raw cfg c tmp (cmd_payload_size c);
        c_read (cmd_ctx c) tmp (cmd_payload_size c) out
      })"

end
