(* ===== verification/Client_Lemmas.thy ===== *)
theory Client_Lemmas
  imports Zenbedded_Client
begin

text \<open>
  The client over any pair of codecs that honour the contracts of \<open>Codecs\<close>: what a publication
  carries, what a read returns, and when the busy loops return.
\<close>

section \<open>The busy loops\<close>

lemma read_until_fits:
  assumes "dbb_wf cap s" "n \<le> cap" "n \<le> length data"
    and "nth_slot (slots s) (active_idx s) = Some b"
  shows "read_until cap s data n = Some (take n b @ drop n data)"
  using dbb_read_latest_active [OF assms] by (subst read_until.simps) simp

text \<open>A size above the capacity is refused by \<open>read_latest\<close> every time: the loop never returns.\<close>

lemma read_until_returns: "read_until cap s data n = Some y \<Longrightarrow> n \<le> cap"
proof (erule read_until.raw_induct [where P = "\<lambda>cap s data n y. n \<le> cap", rotated])
  fix f :: "nat \<Rightarrow> bytes double_buffer \<Rightarrow> bytes \<Rightarrow> nat \<Rightarrow> bytes option" and cap s data n y
  assume 1: "\<And>cap s data n y. f cap s data n = Some y \<Longrightarrow> n \<le> cap"
    "dbb_read_latest cap s (Some data) n \<bind> (\<lambda>r. if fst r then snd r else f cap s data n) = Some y"
  show "n \<le> cap"
  proof (cases "cap < n")
    case True
    then have "dbb_read_latest cap s (Some data) n = Some (False, Some data)"
      by (simp add: dbb_read_latest_def)
    with 1 show ?thesis by simp
  qed simp
qed

lemma read_until_oversize: "cap < n \<Longrightarrow> read_until cap s data n = None"
  using read_until_returns [of cap s data n] by (cases "read_until cap s data n") auto

section \<open>The invariant\<close>

definition client_wf :: "client_config \<Rightarrow> ('c, 'k) client \<Rightarrow> bool" where
  "client_wf cfg c \<longleftrightarrow>
     dbb_wf (max_state_buffer_size cfg) (state_buffer c) \<and>
     dbb_wf (max_cmd_buffer_size cfg) (cmd_buffer c) \<and>
     (initialized c \<longrightarrow>
        unat (state_payload_size c) \<le> max_state_buffer_size cfg \<and>
        unat (cmd_payload_size c) \<le> max_cmd_buffer_size cfg \<and> pub c \<noteq> None \<and> sub c \<noteq> None) \<and>
     (control_thread_started c \<longrightarrow> initialized c \<and> control_freq c \<noteq> 0)"

lemma new_client_wf: "client_wf cfg (new_client cfg i sctx cctx)"
  by (simp add: client_wf_def new_client_def)

lemma stop_thread_wf: "client_wf cfg c \<Longrightarrow> client_wf cfg (stop_thread c)"
  by (auto simp: client_wf_def stop_thread_def)

lemma start_thread_wf:
  "client_wf cfg c \<Longrightarrow> start_thread freq c = (r, c') \<Longrightarrow> client_wf cfg c'"
  by (auto simp: client_wf_def start_thread_def stop_thread_def Let_def split: if_splits)

lemma start_thread_keeps:
  "start_thread freq c = (r, c') \<Longrightarrow>
   initialized c' = initialized c \<and> state_payload_size c' = state_payload_size c \<and>
   cmd_payload_size c' = cmd_payload_size c \<and> pub c' = pub c \<and> sub c' = sub c \<and>
   state_buffer c' = state_buffer c \<and> cmd_buffer c' = cmd_buffer c \<and> state_ctx c' = state_ctx c \<and>
   cmd_ctx c' = cmd_ctx c \<and> self_id c' = self_id c"
  by (auto simp: start_thread_def stop_thread_def Let_def split: if_splits)

lemma client_destroy_wf: "client_wf cfg c \<Longrightarrow> client_wf cfg (fst (client_destroy cfg c t))"
  by (auto simp: client_wf_def client_destroy_def stop_thread_def)

text \<open>The buffers after a command and after a state.\<close>

lemma cmd_cb_wf:
  assumes "client_wf cfg c" "initialized c" "length payload = unat n"
  shows "\<exists>c'. on_transport_cmd_cb cfg payload n c = Some c' \<and> client_wf cfg c' \<and> initialized c'"
proof (cases "n = cmd_payload_size c")
  case True
  have wf: "dbb_wf (max_cmd_buffer_size cfg) (cmd_buffer c)" "unat n \<le> max_cmd_buffer_size cfg"
    "unat n \<le> length payload"
    using assms True by (simp_all add: client_wf_def)
  obtain s' where "dbb_write (max_cmd_buffer_size cfg) (Some payload) (unat n) (cmd_buffer c) =
      Some (True, s')" "dbb_wf (max_cmd_buffer_size cfg) s'"
    using dbb_write_latest [OF wf] by blast
  with assms True show ?thesis
    by (simp add: on_transport_cmd_cb_def write_command_to_buffer_def client_wf_def)
next
  case False
  with assms show ?thesis by (simp add: on_transport_cmd_cb_def)
qed

section \<open>Initialisation\<close>

text \<open>The transport side of \<open>init_base\<close>: a reference is held iff the client got initialised.\<close>

lemma init_base_fresh:
  assumes "init_base cfg zi zp zs freq st cm c t = (r, c', t')" "\<not> initialized c"
    "\<not> control_thread_started c"
  shows "(initialized c' \<longrightarrow>
      unat st \<le> max_state_buffer_size cfg \<and> unat cm \<le> max_cmd_buffer_size cfg \<and>
      state_payload_size c' = st \<and> cmd_payload_size c' = cm \<and> pub c' \<noteq> None \<and> sub c' \<noteq> None \<and>
      (r = 0 \<longleftrightarrow> freq \<noteq> 0) \<and> (freq = 0 \<longrightarrow> r = - EINVAL) \<and> (control_thread_started c' \<longleftrightarrow> freq \<noteq> 0) \<and>
      (freq \<noteq> 0 \<longrightarrow> control_freq c' = freq)) \<and>
    (\<not> initialized c' \<longrightarrow> r \<in> {- ENOMEM, - EIO} \<and> \<not> control_thread_started c') \<and>
    state_buffer c' = state_buffer c \<and> cmd_buffer c' = cmd_buffer c \<and>
    state_ctx c' = state_ctx c \<and> cmd_ctx c' = cmd_ctx c \<and> self_id c' = self_id c"
  using assms
  by (auto simp: init_base_def start_thread_def EINVAL_def Let_def split: if_splits prod.splits)

lemma client_init_commands:
  assumes "client_init s_init s_size c_init c_size cfg zi zp zs scratch freq sp cp c t = Some (r, c', t')"
    and "\<not> initialized c" "\<not> control_thread_started c"
  shows "cmd_buffer c' = dbb_reset (max_cmd_buffer_size cfg)"
proof -
  obtain c1 st cm where c1: "init_base cfg zi zp zs freq st cm c1 t = (r, c', t')"
    "\<not> initialized c1" "\<not> control_thread_started c1" "cmd_buffer c1 = dbb_reset (max_cmd_buffer_size cfg)"
    using assms by (auto simp: client_init_def bind_Some_iff Let_def reset_buffers_def)
  show ?thesis using init_base_fresh [OF c1(1-3)] c1(4) by simp
qed

lemma init_base_wf:
  assumes "init_base cfg zi zp zs freq st cm c t = (r, c', t')" "client_wf cfg c"
  shows "client_wf cfg c'"
proof (cases "initialized c")
  case True
  with assms show ?thesis by (simp add: init_base_def)
next
  case False
  then have "\<not> control_thread_started c" using assms(2) by (simp add: client_wf_def)
  from init_base_fresh [OF assms(1) False this] assms(2) show ?thesis
    by (cases "initialized c'") (auto simp: client_wf_def)
qed

lemma write_state_keeps:
  "write_state w v c = Some c' \<Longrightarrow>
   cmd_accepted_count c' = cmd_accepted_count c \<and> cmd_buffer c' = cmd_buffer c \<and> pub c' = pub c"
  by (auto simp: write_state_def state_slot_defs bind_Some_iff Let_def split: if_splits)

section \<open>Any codecs\<close>

locale client_codecs =
  state_codec cinit csize cwrite valid bytes_needed context_of holds complete wire +
  command_codec rinit rsize rread rvalid rbytes_needed rcontext_of room rwire
  for cinit :: "'p \<Rightarrow> bytes \<Rightarrow> ('c \<times> bytes) option"
    and csize :: "'c \<Rightarrow> size_t"
    and cwrite :: "'c \<Rightarrow> 'v \<Rightarrow> bytes \<Rightarrow> bytes option"
    and valid :: "'p \<Rightarrow> bool"
    and bytes_needed :: "'p \<Rightarrow> nat"
    and context_of :: "'p \<Rightarrow> 'c"
    and holds :: "'p \<Rightarrow> bytes \<Rightarrow> bool"
    and complete :: "'p \<Rightarrow> 'v \<Rightarrow> bool"
    and wire :: "'p \<Rightarrow> 'v \<Rightarrow> bytes"
    and rinit :: "'q \<Rightarrow> bytes \<Rightarrow> ('k \<times> bytes) option"
    and rsize :: "'k \<Rightarrow> size_t"
    and rread :: "'k \<Rightarrow> bytes \<Rightarrow> size_t \<Rightarrow> 'w \<Rightarrow> (bool \<times> 'w) option"
    and rvalid :: "'q \<Rightarrow> bool"
    and rbytes_needed :: "'q \<Rightarrow> nat"
    and rcontext_of :: "'q \<Rightarrow> 'k"
    and room :: "'q \<Rightarrow> 'w \<Rightarrow> bool"
    and rwire :: "'q \<Rightarrow> 'w \<Rightarrow> bytes"
begin

text \<open>A client that was initialised with the parameters \<open>p\<close> and \<open>q\<close>.\<close>

definition ready :: "client_config \<Rightarrow> 'p \<Rightarrow> 'q \<Rightarrow> ('c, 'k) client \<Rightarrow> bool" where
  "ready cfg p q c \<longleftrightarrow>
     client_wf cfg c \<and> initialized c \<and> max_state_buffer_size cfg \<le> 2 ^ 31 \<and>
     max_cmd_buffer_size cfg \<le> 2 ^ 31 \<and> valid p \<and> rvalid q \<and>
     unat (state_payload_size c) = bytes_needed p \<and> unat (cmd_payload_size c) = rbytes_needed q \<and>
     state_ctx c = context_of p \<and> cmd_ctx c = rcontext_of q \<and>
     (\<forall>b \<in> set (slots (state_buffer c)). holds p b)"

lemma ready_sizes:
  assumes "ready cfg p q c"
  shows "bytes_needed p \<le> max_state_buffer_size cfg" "rbytes_needed q \<le> max_cmd_buffer_size cfg"
    "bytes_needed p \<le> 2 ^ 31" "rbytes_needed q \<le> 2 ^ 31"
  using assms by (auto simp: ready_def client_wf_def)

lemma init_gets_ready:
  assumes "client_wf cfg c" "\<not> initialized c" "valid p" "rvalid q"
    and "max_state_buffer_size cfg \<le> 2 ^ 31" "max_cmd_buffer_size cfg \<le> 2 ^ 31"
    and "bytes_needed p \<le> max_state_buffer_size cfg" "rbytes_needed q \<le> max_cmd_buffer_size cfg"
    and "length scratch = max_cmd_buffer_size cfg"
  shows "\<exists>r c' t'. client_init cinit csize rinit rsize cfg zi zp zs scratch freq p q c t =
      Some (r, c', t') \<and> client_wf cfg c' \<and> (initialized c' \<longrightarrow> ready cfg p q c') \<and>
      (initialized c' \<longrightarrow> (if freq = 0 then r = - EINVAL else r = 0 \<and> control_freq c' = freq)) \<and>
      (\<not> initialized c' \<longrightarrow> r = - EIO)"
proof -
  obtain b where b: "cinit p (replicate (max_state_buffer_size cfg) 0) = Some (context_of p, b)"
    "length b = max_state_buffer_size cfg" "holds p b"
    using init_template [OF assms(3,7,5)] by blast
  obtain b' where b': "rinit q scratch = Some (rcontext_of q, b')"
    using init_any_scratch [of q scratch] assms(4,6,8,9) by auto
  have small: "bytes_needed p \<le> 2 ^ 31" "rbytes_needed q \<le> 2 ^ 31" using assms(5-8) by auto
  note sz = size_of_context [OF assms(3) small(1)] rsize_of_context [OF assms(4) small(2)]
  let ?c = "(reset_buffers cfg c)\<lparr>state_buffer := (dbb_reset (max_state_buffer_size cfg))
      \<lparr>slots := [b, b]\<rparr>, state_ctx := context_of p, cmd_ctx := rcontext_of q\<rparr>"
  obtain r c' t' where base: "init_base cfg zi zp zs freq (csize (context_of p))
      (rsize (rcontext_of q)) ?c t = (r, c', t')"
    by (metis prod_cases3)
  have init: "client_init cinit csize rinit rsize cfg zi zp zs scratch freq p q c t = Some (r, c', t')"
    using assms(2) b(1) b' base
    by (simp add: client_init_def get_state_buffer_slot_def Let_def reset_buffers_def dbb_slot_def dbb_reset_def nth_slot_def)
  have wf: "client_wf cfg ?c"
    using assms(1,2) b(2)
    by (auto simp: client_wf_def reset_buffers_def dbb_wf_def db_wf_def dbb_reset_def)
  have fresh: "\<not> initialized ?c" "\<not> control_thread_started ?c"
    using assms(1,2) by (auto simp: reset_buffers_def client_wf_def)
  note e = init_base_fresh [OF base fresh]
  have "client_wf cfg c'" using init_base_wf [OF base wf] .
  moreover have "ready cfg p q c'" if "initialized c'"
    using e that sz assms(3-6) b(3) \<open>client_wf cfg c'\<close>
    by (auto simp: ready_def reset_buffers_def)
  moreover have "\<not> initialized c' \<longrightarrow> r = - EIO"
    using base fresh sz assms(7,8)
    by (auto simp: init_base_def start_thread_def Let_def split: if_splits prod.splits)
  ultimately show ?thesis
    using init e by auto
qed

text \<open>Writing a state and publishing.\<close>

lemma write_state_ready:
  assumes "ready cfg p q c" "complete p v"
  shows "\<exists>c' b. write_state cwrite v c = Some c' \<and> ready cfg p q c' \<and> pub c' = pub c \<and>
      nth_slot (slots (state_buffer c')) (active_idx (state_buffer c')) = Some b \<and>
      take (bytes_needed p) b = wire p v"
proof -
  have "db_wf (state_buffer c)" and st: "dbb_wf (max_state_buffer_size cfg) (state_buffer c)"
    using assms(1) by (auto simp: ready_def client_wf_def dbb_wf_def)
  then obtain x y i where s: "state_buffer c = \<lparr>slots = [x, y], active_idx = i\<rparr>" "i = 0 \<or> i = 1"
    by (cases rule: db_wfE) auto
  have len: "length x = max_state_buffer_size cfg" "length y = max_state_buffer_size cfg"
    and h: "holds p x" "holds p y"
    using s st assms(1) by (auto simp: dbb_wf_def ready_def)
  have v: "valid p" "bytes_needed p \<le> 2 ^ 31" "state_ctx c = context_of p"
    using assms(1) ready_sizes [OF assms(1)] by (auto simp: ready_def)
  obtain x' where x': "cwrite (context_of p) v x = Some x'" "length x' = length x" "holds p x'"
      "take (bytes_needed p) x' = wire p v"
    using write_wire [OF v(1,2) h(1) assms(2)] by blast
  obtain y' where y': "cwrite (context_of p) v y = Some y'" "length y' = length y" "holds p y'"
      "take (bytes_needed p) y' = wire p v"
    using write_wire [OF v(1,2) h(2) assms(2)] by blast
  show ?thesis
    using s(2)
  proof
    assume i: "i = 0"
    have "write_state cwrite v c = Some (c\<lparr>state_buffer := \<lparr>slots = [x, y'], active_idx = 1\<rparr>\<rparr>)"
      using assms(1) y'(1) v(3) by (simp add: write_state_def state_slot_defs ready_def s(1) i db_ops Let_def)
    moreover have "ready cfg p q (c\<lparr>state_buffer := \<lparr>slots = [x, y'], active_idx = 1\<rparr>\<rparr>)"
      using assms(1) h y' len ready_sizes [OF assms(1)]
      by (simp add: ready_def client_wf_def dbb_wf_def db_wf_def)
    ultimately show ?thesis
      using y'(4) by (simp add: nth_slot_def)
  next
    assume i: "i = 1"
    have "write_state cwrite v c = Some (c\<lparr>state_buffer := \<lparr>slots = [x', y], active_idx = 0\<rparr>\<rparr>)"
      using assms(1) x'(1) v(3) by (simp add: write_state_def state_slot_defs ready_def s(1) i db_ops Let_def)
    moreover have "ready cfg p q (c\<lparr>state_buffer := \<lparr>slots = [x', y], active_idx = 0\<rparr>\<rparr>)"
      using assms(1) h x' len ready_sizes [OF assms(1)]
      by (simp add: ready_def client_wf_def dbb_wf_def db_wf_def)
    ultimately show ?thesis
      using x'(4) by (simp add: nth_slot_def)
  qed
qed

lemma publish_active:
  assumes "ready cfg p q c" "length tmp = max_state_buffer_size cfg"
    and "nth_slot (slots (state_buffer c)) (active_idx (state_buffer c)) = Some b"
  shows "zenoh_publish_state cfg z tmp c t =
     Some (zenbedded_transport_publish (transport_cfg cfg) z (pub c) (take (bytes_needed p) b) t)"
proof -
  have "read_until (max_state_buffer_size cfg) (state_buffer c) tmp (bytes_needed p) =
      Some (take (bytes_needed p) b @ drop (bytes_needed p) tmp)"
    using assms ready_sizes [OF assms(1)]
    by (intro read_until_fits) (auto simp: ready_def client_wf_def)
  moreover have "length b = max_state_buffer_size cfg"
    using assms by (auto simp: ready_def client_wf_def dbb_wf_def nth_slot_def split: if_splits)
  ultimately show ?thesis
    using assms ready_sizes [OF assms(1)]
    by (simp add: zenoh_publish_state_def ready_def mem_read_def)
qed

lemma write_then_publish:
  assumes "ready cfg p q c" "complete p v" "length tmp = max_state_buffer_size cfg"
  shows "\<exists>c'. write_state cwrite v c = Some c' \<and> ready cfg p q c' \<and>
     zenoh_publish_state cfg z tmp c' t =
       Some (zenbedded_transport_publish (transport_cfg cfg) z (pub c) (wire p v) t)"
proof -
  obtain c' b where c': "write_state cwrite v c = Some c'" "ready cfg p q c'" "pub c' = pub c"
    "nth_slot (slots (state_buffer c')) (active_idx (state_buffer c')) = Some b"
    "take (bytes_needed p) b = wire p v"
    using write_state_ready [OF assms(1,2)] by blast
  with publish_active [OF c'(2) assms(3) c'(4), of z t] show ?thesis by auto
qed

text \<open>Commands.\<close>

lemma command_accepted:
  assumes "ready cfg p q c" "length payload = rbytes_needed q"
  shows "\<exists>c' b. on_transport_cmd_cb cfg payload (word_of_nat (length payload)) c = Some c' \<and>
    ready cfg p q c' \<and> cmd_accepted_count c' = cmd_accepted_count c + 1 \<and>
    nth_slot (slots (cmd_buffer c')) (active_idx (cmd_buffer c')) = Some b \<and>
    take (rbytes_needed q) b = payload"
proof -
  have sz: "rbytes_needed q \<le> max_cmd_buffer_size cfg" "rbytes_needed q < 2 ^ 32"
    using ready_sizes [OF assms(1)] by simp_all
  have n: "unat (word_of_nat (length payload) :: size_t) = rbytes_needed q"
    using assms(2) sz by (simp add: unat_of_nat)
  have eq: "word_of_nat (length payload) = cmd_payload_size c"
    using assms n by (simp add: ready_def word_unat_eq_iff)
  have wf: "dbb_wf (max_cmd_buffer_size cfg) (cmd_buffer c)"
    using assms(1) by (simp add: ready_def client_wf_def)
  obtain s b where s: "dbb_write (max_cmd_buffer_size cfg) (Some payload) (rbytes_needed q)
      (cmd_buffer c) = Some (True, s)" "dbb_wf (max_cmd_buffer_size cfg) s"
    "nth_slot (slots s) (active_idx s) = Some b" "take (rbytes_needed q) b = payload"
    using dbb_write_latest [OF wf sz(1), of payload] assms(2) by auto
  then show ?thesis
    using assms eq n by (auto simp: on_transport_cmd_cb_def write_command_to_buffer_def ready_def client_wf_def)
qed

lemma command_dropped:
  assumes "ready cfg p q c" "unat n \<noteq> rbytes_needed q"
  shows "on_transport_cmd_cb cfg payload n c = Some c"
  using assms by (auto simp: ready_def on_transport_cmd_cb_def)

lemma read_command_active:
  assumes "ready cfg p q c" "length tmp = max_cmd_buffer_size cfg"
    and "nth_slot (slots (cmd_buffer c)) (active_idx (cmd_buffer c)) = Some b"
  shows "read_command rread cfg tmp c out =
     rread (rcontext_of q) (take (rbytes_needed q) b @ drop (rbytes_needed q) tmp)
       (cmd_payload_size c) out"
proof -
  have "read_until (max_cmd_buffer_size cfg) (cmd_buffer c) tmp (rbytes_needed q) =
      Some (take (rbytes_needed q) b @ drop (rbytes_needed q) tmp)"
    using assms ready_sizes [OF assms(1)]
    by (intro read_until_fits) (auto simp: ready_def client_wf_def)
  then show ?thesis
    using assms(1) by (simp add: read_command_def read_latest_command_raw_def ready_def)
qed

lemma command_then_read:
  assumes "ready cfg p q c" "room q w" "room q out" "length tmp = max_cmd_buffer_size cfg"
  shows "\<exists>c'. on_transport_cmd_cb cfg (rwire q w) (word_of_nat (length (rwire q w))) c = Some c' \<and>
    ready cfg p q c' \<and> cmd_accepted_count c' = cmd_accepted_count c + 1 \<and>
    read_command rread cfg tmp c' out = Some (True, w)"
proof -
  have q: "rvalid q" using assms(1) by (simp add: ready_def)
  have len: "length (rwire q w) = rbytes_needed q"
    using rwire_length [OF q ready_sizes(4) [OF assms(1)] assms(2)] .
  obtain c' b where c': "on_transport_cmd_cb cfg (rwire q w) (word_of_nat (length (rwire q w))) c = Some c'"
    "ready cfg p q c'" "cmd_accepted_count c' = cmd_accepted_count c + 1"
    "nth_slot (slots (cmd_buffer c')) (active_idx (cmd_buffer c')) = Some b"
    "take (rbytes_needed q) b = rwire q w"
    using command_accepted [OF assms(1) len] by blast
  have "rread (rcontext_of q) (rwire q w @ drop (rbytes_needed q) tmp) (cmd_payload_size c') out =
      Some (True, w)"
    using c'(2) ready_sizes(4) [OF assms(1)]
    by (intro read_wire [OF q _ assms(3,2)]) (simp_all add: ready_def)
  then show ?thesis
    using c' read_command_active [OF c'(2) assms(4) c'(4), of out] by auto
qed

text \<open>Whatever bytes of the right size arrived last, or none, a read returns.\<close>

lemma read_command_total:
  assumes "ready cfg p q c" "room q out" "length tmp = max_cmd_buffer_size cfg"
  shows "\<exists>w. read_command rread cfg tmp c out = Some (True, w) \<and> room q w"
proof -
  obtain b where b: "nth_slot (slots (cmd_buffer c)) (active_idx (cmd_buffer c)) = Some b"
    "length b = max_cmd_buffer_size cfg"
    using dbb_active_ex assms(1) by (fastforce simp: ready_def client_wf_def)
  have "rvalid q" "rbytes_needed q \<le> unat (cmd_payload_size c)"
    using assms(1) by (auto simp: ready_def)
  with read_total [of q out "take (rbytes_needed q) b @ drop (rbytes_needed q) tmp"
      "cmd_payload_size c"] show ?thesis
    using assms(2,3) ready_sizes [OF assms(1)] b
    by (simp add: read_command_active [OF assms(1,3) b(1)])
qed

text \<open>Runs: any number of writes, any number of deliveries.\<close>

primrec write_states :: "'v list \<Rightarrow> ('c, 'k) client \<Rightarrow> ('c, 'k) client option" where
  "write_states [] c = Some c"
| "write_states (v # vs) c = Option.bind (write_state cwrite v c) (write_states vs)"

lemma writes_ready:
  "ready cfg p q c \<Longrightarrow> \<forall>v \<in> set vs. complete p v \<Longrightarrow>
   \<exists>c'. write_states vs c = Some c' \<and> ready cfg p q c' \<and> pub c' = pub c"
proof (induction vs arbitrary: c)
  case Nil
  then show ?case by simp
next
  case (Cons v vs)
  obtain c1 where "write_state cwrite v c = Some c1" "ready cfg p q c1" "pub c1 = pub c"
    using write_state_ready [of cfg p q c v] Cons.prems by auto
  with Cons show ?case by fastforce
qed

lemma write_states_snoc:
  "write_states (vs @ [v]) c = Option.bind (write_states vs c) (write_state cwrite v)"
  by (induction vs arbitrary: c) (auto split: Option.bind_splits)

lemma last_write_is_published:
  assumes "ready cfg p q c" "\<forall>v \<in> set vs. complete p v" "complete p v"
    and "length tmp = max_state_buffer_size cfg"
  shows "\<exists>c'. write_states (vs @ [v]) c = Some c' \<and> ready cfg p q c' \<and>
     zenoh_publish_state cfg z tmp c' t =
       Some (zenbedded_transport_publish (transport_cfg cfg) z (pub c) (wire p v) t)"
proof -
  obtain c1 where c1: "write_states vs c = Some c1" "ready cfg p q c1" "pub c1 = pub c"
    using writes_ready [OF assms(1,2)] by blast
  with write_then_publish [OF c1(2) assms(3,4), of z t] show ?thesis
    by (auto simp: write_states_snoc)
qed

end

text \<open>Deliveries by the transport, in order.\<close>

primrec deliver_all ::
  "client_config \<Rightarrow> bytes list \<Rightarrow> ('c, 'k) client \<Rightarrow> ('c, 'k) client option" where
  "deliver_all cfg [] c = Some c"
| "deliver_all cfg (b # bs) c =
     Option.bind (on_transport_cmd_cb cfg b (word_of_nat (length b)) c) (deliver_all cfg bs)"

lemma deliver_all_append:
  "deliver_all cfg (xs @ ys) c = Option.bind (deliver_all cfg xs c) (deliver_all cfg ys)"
  by (induction xs arbitrary: c) (auto split: Option.bind_splits)

lemma deliver_all_keeps:
  "deliver_all cfg bs c = Some c' \<Longrightarrow>
   state_buffer c' = state_buffer c \<and> pub c' = pub c \<and> initialized c' = initialized c \<and>
   state_payload_size c' = state_payload_size c"
proof (induction bs arbitrary: c)
  case Nil
  then show ?case by simp
next
  case (Cons b bs)
  then show ?case
    by (fastforce simp: bind_Some_iff on_transport_cmd_cb_def write_command_to_buffer_def
        split: if_splits)
qed

definition accepted :: "nat \<Rightarrow> bytes list \<Rightarrow> bytes list" where
  "accepted n bs = filter (\<lambda>b. length b = n) bs"

context client_codecs
begin

definition command_is :: "'q \<Rightarrow> ('c, 'k) client \<Rightarrow> bytes \<Rightarrow> bool" where
  "command_is q c payload \<longleftrightarrow>
     (\<exists>b. nth_slot (slots (cmd_buffer c)) (active_idx (cmd_buffer c)) = Some b \<and>
          take (rbytes_needed q) b = payload)"

lemma command_is_start:
  "cmd_buffer c = dbb_reset N \<Longrightarrow> rbytes_needed q \<le> N \<Longrightarrow> command_is q c (replicate (rbytes_needed q) 0)"
  by (simp add: command_is_def dbb_reset_def nth_slot_def)

lemma command_is_cong: "cmd_buffer c' = cmd_buffer c \<Longrightarrow> command_is q c' b = command_is q c b"
  by (simp add: command_is_def)

lemma deliveries:
  "ready cfg p q c \<Longrightarrow> command_is q c start \<Longrightarrow> \<forall>b \<in> set bs. length b < 2 ^ 32 \<Longrightarrow>
   \<exists>c'. deliver_all cfg bs c = Some c' \<and> ready cfg p q c' \<and>
     cmd_accepted_count c' = cmd_accepted_count c + word_of_nat (length (accepted (rbytes_needed q) bs)) \<and>
     command_is q c' (last (start # accepted (rbytes_needed q) bs))"
proof (induction bs arbitrary: c start)
  case Nil
  then show ?case by (simp add: accepted_def)
next
  case (Cons b bs)
  have b: "unat (word_of_nat (length b) :: size_t) = length b"
    using Cons.prems(3) by (intro unat_word32_of_nat) simp
  show ?case
  proof (cases "length b = rbytes_needed q")
    case True
    obtain c1 where c1: "on_transport_cmd_cb cfg b (word_of_nat (length b)) c = Some c1"
      "ready cfg p q c1" "cmd_accepted_count c1 = cmd_accepted_count c + 1" "command_is q c1 b"
      using command_accepted [OF Cons.prems(1) True] by (auto simp: command_is_def)
    from Cons.IH [OF c1(2,4)] Cons.prems(3) obtain c' where
      "deliver_all cfg bs c1 = Some c'" "ready cfg p q c'"
      "cmd_accepted_count c' = cmd_accepted_count c1 + word_of_nat (length (accepted (rbytes_needed q) bs))"
      "command_is q c' (last (b # accepted (rbytes_needed q) bs))" by auto
    with c1 True show ?thesis by (simp add: accepted_def)
  next
    case False
    then have "on_transport_cmd_cb cfg b (word_of_nat (length b)) c = Some c"
      using command_dropped [OF Cons.prems(1), of "word_of_nat (length b)" b] b by simp
    with Cons.IH [OF Cons.prems(1,2)] Cons.prems(3) False show ?thesis
      by (auto simp: accepted_def)
  qed
qed

lemma deliver_all_ready:
  assumes "ready cfg p q c" "\<forall>b \<in> set bs. length b < 2 ^ 32"
  shows "\<exists>c'. deliver_all cfg bs c = Some c' \<and> ready cfg p q c' \<and>
    cmd_accepted_count c' = cmd_accepted_count c + word_of_nat (length (accepted (rbytes_needed q) bs))"
proof -
  obtain b where "nth_slot (slots (cmd_buffer c)) (active_idx (cmd_buffer c)) = Some b"
    using dbb_active_ex assms(1) by (fastforce simp: ready_def client_wf_def)
  then have "command_is q c (take (rbytes_needed q) b)" by (auto simp: command_is_def)
  with deliveries [OF assms(1)] assms(2) show ?thesis by blast
qed

text \<open>A read returns the command the buffer holds, new or not.\<close>

lemma read_current:
  assumes "ready cfg p q c" "command_is q c (rwire q w)" "room q w" "room q out"
    and "length tmp = max_cmd_buffer_size cfg"
  shows "read_command rread cfg tmp c out = Some (True, w)"
proof -
  obtain b where b: "nth_slot (slots (cmd_buffer c)) (active_idx (cmd_buffer c)) = Some b"
    "take (rbytes_needed q) b = rwire q w"
    using assms(2) by (auto simp: command_is_def)
  have "rvalid q" using assms(1) by (simp add: ready_def)
  then have "rread (rcontext_of q) (rwire q w @ drop (rbytes_needed q) tmp) (cmd_payload_size c) out =
      Some (True, w)"
    using assms(1) ready_sizes(4) [OF assms(1)]
    by (intro read_wire [OF _ _ assms(4,3)]) (simp_all add: ready_def)
  then show ?thesis using b read_command_active [OF assms(1,5) b(1), of out] by auto
qed

lemma read_after_deliveries:
  assumes "ready cfg p q c" "\<forall>b \<in> set bs. length b < 2 ^ 32" "room q w" "room q out"
    and "length tmp = max_cmd_buffer_size cfg"
    and "accepted (rbytes_needed q) bs \<noteq> []" "last (accepted (rbytes_needed q) bs) = rwire q w"
  shows "\<exists>c'. deliver_all cfg bs c = Some c' \<and>
     cmd_accepted_count c' = cmd_accepted_count c + word_of_nat (length (accepted (rbytes_needed q) bs)) \<and>
     read_command rread cfg tmp c' out = Some (True, w)"
proof -
  obtain b0 where "nth_slot (slots (cmd_buffer c)) (active_idx (cmd_buffer c)) = Some b0"
    using dbb_active_ex assms(1) by (fastforce simp: ready_def client_wf_def)
  then have "command_is q c (take (rbytes_needed q) b0)" by (auto simp: command_is_def)
  from deliveries [OF assms(1) this assms(2)] obtain c' where c':
    "deliver_all cfg bs c = Some c'" "ready cfg p q c'"
    "cmd_accepted_count c' = cmd_accepted_count c + word_of_nat (length (accepted (rbytes_needed q) bs))"
    "command_is q c' (rwire q w)"
    using assms(6,7) by auto
  with read_current [OF c'(2,4) assms(3-5)] show ?thesis by blast
qed

text \<open>The application may read after more deliveries than it has counted: it gets the newest.\<close>

lemma read_newest:
  assumes "ready cfg p q c" "\<forall>b \<in> set bs. length b < 2 ^ 32" "\<forall>b \<in> set late. length b < 2 ^ 32"
    and "room q w" "room q out" "length tmp = max_cmd_buffer_size cfg"
    and "accepted (rbytes_needed q) (bs @ late) \<noteq> []"
    and "last (accepted (rbytes_needed q) (bs @ late)) = rwire q w"
    and "deliver_all cfg bs c = Some c1"
  shows "\<exists>c2. deliver_all cfg late c1 = Some c2 \<and> read_command rread cfg tmp c2 out = Some (True, w)"
proof -
  have "\<exists>c2. deliver_all cfg (bs @ late) c = Some c2 \<and> read_command rread cfg tmp c2 out = Some (True, w)"
    using read_after_deliveries [OF assms(1) _ assms(4,5,6,7,8)] assms(2,3) by auto
  then show ?thesis using assms(9) by (auto simp: deliver_all_append)
qed

end

interpretation joint_client: client_codecs joint_state_init joint_state_payload_size
  joint_state_write js_params_ok js_bytes js_context js_holds js_complete js_wire
  joint_command_init joint_command_payload_size joint_command_read jc_params_ok jc_bytes
  jc_context jc_room jc_wire
  by (intro client_codecs.intro joint_state.state_codec_axioms joint_command.command_codec_axioms)

interpretation raw_client: client_codecs raw_init "raw_payload_size n" "raw_write n" "\<lambda>_. True"
  "\<lambda>_. unat n" "\<lambda>_. ()" "\<lambda>_. raw_holds n" "\<lambda>_. raw_image n" "\<lambda>_ v. v"
  raw_init "raw_payload_size m" "raw_read m" "\<lambda>_. True" "\<lambda>_. unat m" "\<lambda>_. ()" "\<lambda>_. raw_image m"
  "\<lambda>_ v. v" for n m
  by (intro client_codecs.intro raw_state.state_codec_axioms raw_command.command_codec_axioms)

end
