(* ===== verification/Client_Properties.thy ===== *)
theory Client_Properties
  imports Client_Lemmas
begin

text \<open>
  The guarantees of the client, in terms of the code's functions: what the wire carries after any
  sequence of writes, what a reader gets after any sequence of deliveries, that the busy loops
  return, that the loop timing is right across the wrap of the clock, and what the client leaves
  behind in the transport.
\<close>

section \<open>References the client holds\<close>

lemma init_ok_started:
  assumes "zenbedded_transport_init cfg z d n m l t = (r, t')" "r = 0" "transport_inv t"
    and "unat (transport_ref_count t) < 2 ^ 32 - 1"
  shows "unat (transport_ref_count t') = Suc (unat (transport_ref_count t))" "transport_inv t'"
    "is_initialized t'"
proof -
  have max: "transport_ref_count t \<noteq> - 1"
    using assms(4) by (auto simp: unsigned_minus_1_eq_mask mask_eq_exp_minus_1)
  show "transport_inv t'" by (rule init_inv [OF assms(3) max assms(1)])
  have "unat (transport_ref_count t + 1) = Suc (unat (transport_ref_count t))"
    using assms(4) by (simp add: unat_word_ariths)
  then show "unat (transport_ref_count t') = Suc (unat (transport_ref_count t))" "is_initialized t'"
    using init_effect [OF assms(1)] assms(2,3) by (auto simp: transport_inv_def split: if_splits)
qed

lemma declare_pub_refs:
  assumes "zenbedded_transport_declare_publisher cfg z topic ty t = (h, t')" "transport_inv t"
    and "is_initialized t"
  shows "transport_inv t'" "transport_ref_count t' = transport_ref_count t" "is_initialized t'"
  using declare_publisher_effect [OF assms(1)] assms(2,3) inv_same_session [of t t']
  by (auto simp: same_session_def)

lemma declare_sub_refs:
  assumes "zenbedded_transport_declare_subscriber cfg z topic ty cb d t = (h, t')" "transport_inv t"
    and "is_initialized t"
  shows "transport_inv t'" "transport_ref_count t' = transport_ref_count t" "is_initialized t'"
  using declare_subscriber_effect [OF assms(1)] assms(2,3) inv_same_session [of t t']
  by (auto simp: same_session_def)

lemma init_base_refs:
  assumes "init_base cfg zi zp zs freq st cm c t = (r, c', t')" "\<not> initialized c"
    and "transport_inv t" "unat (transport_ref_count t) < 2 ^ 32 - 1"
  shows "transport_inv t' \<and> unat (transport_ref_count t') =
    unat (transport_ref_count t) + (if initialized c' then 1 else 0)"
proof (cases "unat st > max_state_buffer_size cfg \<or> unat cm > max_cmd_buffer_size cfg")
  case True
  with assms show ?thesis by (auto simp: init_base_def Let_def split: if_splits)
next
  case False
  let ?cfg = "transport_cfg cfg"
  obtain r1 t1 where i: "zenbedded_transport_init ?cfg zi (cfg_domain_id cfg) (cfg_node_name cfg)
      (cfg_zenoh_mode cfg) (Some (cfg_ip_port cfg)) t = (r1, t1)" by fastforce
  show ?thesis
  proof (cases "r1 = 0")
    case bad: False
    have "transport_ref_count t1 = transport_ref_count t"
      using init_effect [OF i] bad by (auto split: if_splits)
    moreover have "transport_ref_count t \<noteq> - 1"
      using assms(4) by (auto simp: unsigned_minus_1_eq_mask mask_eq_exp_minus_1)
    then have "transport_inv t1" by (rule init_inv [OF assms(3) _ i])
    ultimately show ?thesis
      using assms(1,2) False i bad by (auto simp: init_base_def Let_def)
  next
    case ok: True
    note s = init_ok_started [OF i ok assms(3,4)]
    obtain p t2 where p: "zenbedded_transport_declare_publisher ?cfg zp (pub_topic cfg)
        (msg_type cfg (state_msg_type cfg)) t1 = (p, t2)" by fastforce
    note sp = declare_pub_refs [OF p s(2,3)]
    obtain b t3 where b: "zenbedded_transport_declare_subscriber ?cfg zs (sub_topic cfg)
        (msg_type cfg (cmd_msg_type cfg)) (Some On_Transport_Cmd_Cb) (self_id c) t2 = (b, t3)"
      by fastforce
    note sb = declare_sub_refs [OF b sp(1,3)]
    show ?thesis
      using assms(1,2) False i ok p b s sp sb destroy_inv [of t2 ?cfg] destroy_refs [of t2 ?cfg]
        destroy_inv [of t3 ?cfg] destroy_refs [of t3 ?cfg] start_thread_keeps
      by (auto simp: init_base_def Let_def split: if_splits prod.splits dest!: start_thread_keeps)
  qed
qed

section \<open>A small system\<close>

definition tier1_config :: client_config where
  "tier1_config = \<lparr>transport_cfg = sample_config, max_state_buffer_size = 128,
     max_cmd_buffer_size = 96, cfg_domain_id = 0, cfg_node_name = ''node'',
     cfg_zenoh_mode = ''client'', cfg_ip_port = ''127.0.0.1:7447'', pub_topic = ''joint_states'',
     sub_topic = ''joint_commands'', state_msg_type = ''sensor_msgs::msg::dds_::JointState_'',
     cmd_msg_type = ''control_msgs::msg::dds_::JointCommand_''\<rparr>"

definition tier2_config :: client_config where
  "tier2_config = tier1_config\<lparr>transport_cfg := sample_config\<lparr>tier := Tier2\<rparr>\<rparr>"

definition fresh_sub :: "(client_cb, nat) zenbedded_sub_s" where
  "fresh_sub = \<lparr>s_in_use = False, user_cb = None, user_data = 0, s_topic_keyexpr = [],
     s_lv_keyexpr = []\<rparr>"

definition fresh_transport :: client_transport where
  "fresh_transport = transport_start [sample_pub, sample_pub] [fresh_sub, fresh_sub]"

lemma fresh_transport_inv: "transport_inv fresh_transport"
  unfolding fresh_transport_def
  by (rule transport_start_inv) (simp_all add: sample_pub_def fresh_sub_def)

definition one_joint :: joint_state_params where
  "one_joint = \<lparr>frame_id = None, joint_names = [''m''], p_num_joints = 1\<rparr>"

definition one_command :: joint_command_params where
  "one_command = \<lparr>cmd_frame_id = None, cmd_joint_names = [''m''], cmd_num_joints = 1,
     interface_name = Some ''velocity''\<rparr>"

definition any_ctx :: zcdr_joint_state_ctx_t where
  "any_ctx = \<lparr>num_joints = 0, offset_timestamp = 0, offset_position = 0, offset_velocity = 0,
     offset_effort = 0, payload_size = 0\<rparr>"

definition any_cctx :: zcdr_joint_command_ctx_t where
  "any_cctx = \<lparr>c_num_joints = 0, c_offset_timestamp = 0, c_offset_values = 0, c_payload_size = 0\<rparr>"

definition joint_init ::
  "client_config \<Rightarrow> zenoh \<Rightarrow> zenoh \<Rightarrow> zenoh \<Rightarrow> bytes \<Rightarrow> uint32 \<Rightarrow> joint_state_params
     \<Rightarrow> joint_command_params \<Rightarrow> (zcdr_joint_state_ctx_t, zcdr_joint_command_ctx_t) client
     \<Rightarrow> client_transport
     \<Rightarrow> (int \<times> (zcdr_joint_state_ctx_t, zcdr_joint_command_ctx_t) client \<times> client_transport) option"
where
  "joint_init = client_init joint_state_init joint_state_payload_size joint_command_init
     joint_command_payload_size"

definition sample_client ::
  "(int \<times> (zcdr_joint_state_ctx_t, zcdr_joint_command_ctx_t) client \<times> client_transport) option"
where
  "sample_client = joint_init tier1_config sample_zenoh sample_zenoh sample_zenoh
     (replicate 96 0xEE) 50 one_joint one_command (new_client tier1_config 7 any_ctx any_cctx)
     fresh_transport"

lemma sample_sizes: "js_bytes one_joint \<le> 128" "jc_bytes one_command \<le> 96"
  by code_simp+

lemma sample_client_up:
  "case sample_client of None \<Rightarrow> False | Some (r, c, t) \<Rightarrow> r = 0 \<and> initialized c \<and> pub c = Some 0"
  by code_simp

lemma joint_init_ready:
  assumes "client_wf cfg c" "\<not> initialized c" "js_params_ok p" "jc_params_ok q"
    and "max_state_buffer_size cfg \<le> 2 ^ 31" "max_cmd_buffer_size cfg \<le> 2 ^ 31"
    and "js_bytes p \<le> max_state_buffer_size cfg" "jc_bytes q \<le> max_cmd_buffer_size cfg"
    and "length scratch = max_cmd_buffer_size cfg"
    and "joint_init cfg zi zp zs scratch freq p q c t = Some (r, c', t')" "initialized c'"
  shows "joint_client.ready cfg p q c'"
  using joint_client.init_gets_ready [OF assms(1-9), of zi zp zs freq t] assms(10,11)
  by (auto simp: joint_init_def)

section \<open>Properties\<close>

text \<open>C2: what a Tier 1 client publishes. After a successful init, and after any sequence of state
  writes, the next publication hands zenoh exactly the CDR encoding of the last value written, and
  it returns: initialisation in both slots, patching the inactive slot, the flip and the copy out
  compose to the encoder of the specification.\<close>

theorem client_publishes_cdr_joint_state:
  assumes "client_wf cfg c" and "\<not> initialized c" and "js_params_ok p" and "jc_params_ok q"
    and "max_state_buffer_size cfg \<le> 2 ^ 31" and "max_cmd_buffer_size cfg \<le> 2 ^ 31"
    and "js_bytes p \<le> max_state_buffer_size cfg" and "jc_bytes q \<le> max_cmd_buffer_size cfg"
    and "length scratch = max_cmd_buffer_size cfg"
    and "joint_init cfg zi zp zs scratch freq p q c t = Some (r, c1, t1)" and "initialized c1"
    and "\<forall>v \<in> set vs. js_complete p v" and "js_complete p v" and "p_num_joints p \<noteq> 0"
    and "length tmp = max_state_buffer_size cfg"
  shows "\<exists>c2. joint_client.write_states (vs @ [v]) c1 = Some c2 \<and>
    zenoh_publish_state cfg z tmp c2 t2 =
      Some (zenbedded_transport_publish (transport_cfg cfg) z (pub c1)
        (kCdrHeader @ cdr_joint_state (js_message p v)) t2)"
proof -
  have "js_wf (p_num_joints p) (js_of p)"
    using js_same_template [OF assms(3)] by (simp add: js_same_def)
  then have "js_wf (p_num_joints p) (js_message p v)"
    using assms(13) unfolding js_message_def by (intro js_wf_patch) (auto simp: js_complete_def)
  then have "js_wire p v = kCdrHeader @ cdr_joint_state (js_message p v)"
    using lay_joint_state_cdr assms(14) by (simp add: js_wire_def)
  with joint_client.last_write_is_published [OF joint_init_ready [OF assms(1-11)] assms(12,13,15), of z t2]
  show ?thesis by auto
qed

definition one_value :: joint_state_value where
  "one_value = \<lparr>stamp_sec = 5, stamp_nanosec = 6, positions = Some [0x3FF0000000000000],
     velocities = Some [1], efforts = Some [2]\<rparr>"

theorem client_publishes_cdr_joint_state_witness:
  "\<exists>c1 t1 c2. sample_client = Some (0, c1, t1) \<and>
     joint_client.write_states [one_value, one_value\<lparr>stamp_sec := 9\<rparr>] c1 = Some c2 \<and>
     zenoh_publish_state tier1_config sample_zenoh (replicate 128 0xEE) c2 t1 =
       Some (zenbedded_transport_publish sample_config sample_zenoh (Some 0)
         (kCdrHeader @ cdr_joint_state (js_message one_joint (one_value\<lparr>stamp_sec := 9\<rparr>))) t1)"
proof -
  obtain c1 t1 where s: "sample_client = Some (0, c1, t1)" "initialized c1" "pub c1 = Some 0"
    using sample_client_up by (auto split: option.splits prod.splits)
  have "\<exists>c2. joint_client.write_states ([one_value] @ [one_value\<lparr>stamp_sec := 9\<rparr>]) c1 = Some c2 \<and>
    zenoh_publish_state tier1_config sample_zenoh (replicate 128 0xEE) c2 t1 =
      Some (zenbedded_transport_publish (transport_cfg tier1_config) sample_zenoh (pub c1)
        (kCdrHeader @ cdr_joint_state (js_message one_joint (one_value\<lparr>stamp_sec := 9\<rparr>))) t1)"
    by (rule client_publishes_cdr_joint_state [OF new_client_wf [of tier1_config 7 any_ctx any_cctx]
          _ _ _ _ _ _ _ _ s(1) [unfolded sample_client_def]])
      (use s(2) sample_sizes in \<open>simp_all add: new_client_def js_params_ok_def one_joint_def
          jc_params_ok_def one_command_def tier1_config_def js_complete_def one_value_def array_ok_def\<close>)
  moreover have "transport_cfg tier1_config = sample_config" by (simp add: tier1_config_def)
  ultimately show ?thesis using s(1) unfolding s(3) append.simps by metis
qed

text \<open>C3: what a Tier 1 client reads. After a successful init, let any sequence of payloads arrive,
  of whatever sizes: those of another size than the agreed one are dropped, the counter of accepted
  commands advances by the number of the others, and if the last of these is the encoding of a
  command then \<open>read_command\<close> returns exactly that command.\<close>

theorem client_reads_last_command:
  assumes "client_wf cfg c" and "\<not> initialized c" and "js_params_ok p" and "jc_params_ok q"
    and "max_state_buffer_size cfg \<le> 2 ^ 31" and "max_cmd_buffer_size cfg \<le> 2 ^ 31"
    and "js_bytes p \<le> max_state_buffer_size cfg" and "jc_bytes q \<le> max_cmd_buffer_size cfg"
    and "length scratch = max_cmd_buffer_size cfg"
    and "joint_init cfg zi zp zs scratch freq p q c t = Some (r, c1, t1)" and "initialized c1"
    and "\<forall>b \<in> set bs. length b < 2 ^ 32" and "jc_room q w" and "jc_room q out"
    and "length tmp = max_cmd_buffer_size cfg" and "accepted (jc_bytes q) bs \<noteq> []"
    and "last (accepted (jc_bytes q) bs) = jc_wire q w"
  shows "\<exists>c2. deliver_all cfg bs c1 = Some c2 \<and>
    accepted_command_count c2 =
      accepted_command_count c1 + word_of_nat (length (accepted (jc_bytes q) bs)) \<and>
    read_command joint_command_read cfg tmp c2 out = Some (True, w)"
  using joint_client.read_after_deliveries [OF joint_init_ready [OF assms(1-11)] assms(12-17)]
  by (simp add: accepted_command_count_def)

definition one_cmd :: joint_command_value where
  "one_cmd = \<lparr>cmd_stamp_sec = 1, cmd_stamp_nanosec = 2, cmd_values = Some [0x4000000000000000]\<rparr>"

theorem client_reads_last_command_witness:
  "\<exists>c1 t1 c2. sample_client = Some (0, c1, t1) \<and>
     deliver_all tier1_config [[1, 2, 3], jc_wire one_command one_cmd, []] c1 = Some c2 \<and>
     accepted_command_count c2 = accepted_command_count c1 + 1 \<and>
     read_command joint_command_read tier1_config (replicate 96 0xEE) c2
       (one_cmd\<lparr>cmd_values := Some [0]\<rparr>) = Some (True, one_cmd)"
proof -
  obtain c1 t1 where s: "sample_client = Some (0, c1, t1)" "initialized c1"
    using sample_client_up by (auto split: option.splits prod.splits)
  have wire: "length (jc_wire one_command one_cmd) = jc_bytes one_command"
    using sample_sizes by (intro joint_command.rwire_length)
      (simp_all add: jc_params_ok_def one_command_def jc_room_def one_cmd_def)
  have n: "accepted (jc_bytes one_command) [[1, 2, 3], jc_wire one_command one_cmd, []] =
      [jc_wire one_command one_cmd]" using wire by (simp add: accepted_def) (simp add: jc_bytes_def)
  have "length (jc_wire one_command one_cmd) < 2 ^ 32" using wire sample_sizes by simp
  then have len: "\<forall>b \<in> set [[1, 2, 3], jc_wire one_command one_cmd, []]. length b < 2 ^ 32" by simp
  have "\<exists>c2. deliver_all tier1_config [[1, 2, 3], jc_wire one_command one_cmd, []] c1 = Some c2 \<and>
    accepted_command_count c2 = accepted_command_count c1 +
      word_of_nat (length (accepted (jc_bytes one_command) [[1, 2, 3], jc_wire one_command one_cmd, []])) \<and>
    read_command joint_command_read tier1_config (replicate 96 0xEE) c2
       (one_cmd\<lparr>cmd_values := Some [0]\<rparr>) = Some (True, one_cmd)"
    by (rule client_reads_last_command [OF new_client_wf [of tier1_config 7 any_ctx any_cctx]
          _ _ _ _ _ _ _ _ s(1) [unfolded sample_client_def] s(2) len])
      (use sample_sizes in \<open>simp_all add: n, simp_all add: new_client_def js_params_ok_def one_joint_def
          jc_params_ok_def one_command_def tier1_config_def jc_room_def one_cmd_def\<close>)
  moreover have "word_of_nat (length [jc_wire one_command one_cmd]) = (1 :: uint32)" by simp
  ultimately show ?thesis using s(1) unfolding n by metis
qed

text \<open>the busy loops \<open>while (!read_...) {}\<close> of the publisher and of \<open>read_command\<close> return, at
  their first turn and with the contents of the active slot, exactly when the payload size does not
  exceed the capacity of the buffer; otherwise they spin for ever.\<close>

theorem client_read_loop_returns_iff:
  assumes "dbb_wf cap s" and "length data = cap"
  shows "(\<exists>out. read_until cap s data n = Some out) \<longleftrightarrow> n \<le> cap"
proof -
  obtain b where b: "nth_slot (slots s) (active_idx s) = Some b"
    using dbb_active_ex [OF assms(1)] by blast
  show ?thesis
    using read_until_fits [OF assms(1) _ _ b, of n data] read_until_oversize [of cap n s data] assms(2)
    by (cases "n \<le> cap") auto
qed

theorem client_read_loop_returns_iff_witness:
  "(\<exists>out. read_until 4 (dbb_reset 4) (replicate 4 0) 3 = Some out) \<and>
   \<not> (\<exists>out. read_until 4 (dbb_reset 4) (replicate 4 0) 5 = Some out)"
  using client_read_loop_returns_iff [of 4 "dbb_reset 4" "replicate 4 0"] by simp

text \<open>C37: an initialised client holds exactly one reference to the transport, a failed init none: on
  every path of \<open>init_base\<close>, errors of the declarations included, the reference count is what it was
  plus one if the client came up, and \<open>destroy\<close> gives that reference back.\<close>

theorem client_reference_balance:
  assumes "init_base cfg zi zp zs freq st cm c t = (r, c1, t1)" and "\<not> initialized c"
    and "transport_inv t" and "unat (transport_ref_count t) < 2 ^ 32 - 1"
  shows "unat (transport_ref_count t1) =
      unat (transport_ref_count t) + (if initialized c1 then 1 else 0) \<and>
    transport_ref_count (snd (client_destroy cfg c1 t1)) = transport_ref_count t"
proof -
  note e = init_base_refs [OF assms]
  then have "unat (transport_ref_count (snd (client_destroy cfg c1 t1))) = unat (transport_ref_count t)"
    using destroy_refs [of t1 "transport_cfg cfg"] by (auto simp: client_destroy_def split: if_splits)
  with e show ?thesis by (simp add: word_unat_eq_iff)
qed

theorem client_reference_balance_witness:
  "case init_base tier2_config sample_zenoh (sample_zenoh\<lparr>z_declare_ok := False\<rparr>) sample_zenoh 10 4 4
     (new_client tier2_config 1 () ()) fresh_transport of
   (r, c1, t1) \<Rightarrow> r = - EIO \<and> unat (transport_ref_count t1) = 0"
proof -
  let ?i = "init_base tier2_config sample_zenoh (sample_zenoh\<lparr>z_declare_ok := False\<rparr>) sample_zenoh 10 4 4
     (new_client tier2_config 1 () ()) fresh_transport"
  have "case ?i of (r, c1, t1) \<Rightarrow> r = - EIO \<and> \<not> initialized c1" by code_simp
  then obtain c1 t1 where i: "?i = (- EIO, c1, t1)" "\<not> initialized c1" by (auto split: prod.splits)
  from client_reference_balance [OF i(1) _ fresh_transport_inv] i show ?thesis
    by (simp add: new_client_def fresh_transport_def transport_start_def)
qed

text \<open>the pacing of the control thread. With a frequency between 1 and 1000 Hz the period is
  \<open>1000 div freq\<close> milliseconds, and if publishing took \<open>e\<close> ms, read off a 32 bit clock that may wrap
  in between, the thread sleeps the rest of the period, and 1 ms when there is none.\<close>

theorem control_period_kept:
  assumes "1 \<le> unat freq" and "unat freq \<le> 1000" and "e < 2 ^ 32"
  shows "unat (period_ms freq) = 1000 div unat freq \<and>
    unat (sleep_ms (period_ms freq) t (t + word_of_nat e)) =
      (if 1000 div unat freq \<le> e then 1 else 1000 div unat freq - e)"
proof -
  have "1 \<le> 1000 div unat freq" using assms(1,2) by (simp add: div_greater_zero_iff Suc_le_eq)
  moreover have d: "unat (1000 div freq) = 1000 div unat freq"
    by (simp add: unat_div)
  ultimately have p: "unat (period_ms freq) = 1000 div unat freq"
    by (auto simp: period_ms_def max_def word_le_nat_alt)
  have e: "unat (word_of_nat e :: uint32) = e" using assms(3) by (rule unat_word32_of_nat)
  have diff: "(t + word_of_nat e) - t = word_of_nat e" by simp
  show ?thesis
    unfolding sleep_ms_def Let_def diff
    by (auto simp: p word_le_nat_alt e unat_sub)
qed

theorem control_period_kept_witness:
  "unat (period_ms 50) = 20 \<and> unat (sleep_ms (period_ms 50) 0xFFFFFFFE (0xFFFFFFFE + word_of_nat 7)) = 13"
  using control_period_kept [of 50 7 "0xFFFFFFFE"] by simp

text \<open>a client asked to run at 0 Hz reports \<open>-EINVAL\<close> but stays initialised, without a thread: a
  second init with a proper frequency reports success and starts nothing.\<close>

theorem client_init_zero_frequency:
  assumes "\<not> initialized c" and "client_wf cfg c"
    and "init_base cfg zi zp zs 0 st cm c t = (r, c1, t1)" and "r = - EINVAL"
  shows "initialized c1 \<and> \<not> control_thread_started c1 \<and>
    init_base cfg zi zp zs freq st cm c1 t1 = (0, c1, t1)"
proof -
  have "\<not> control_thread_started c" using assms(1,2) by (simp add: client_wf_def)
  note e = init_base_fresh [OF assms(3,1) this]
  have "initialized c1" using e assms(4) by (auto simp: EINVAL_def ENOMEM_def EIO_def)
  with e show ?thesis by (simp add: init_base_def)
qed

theorem client_init_zero_frequency_witness:
  "\<exists>c1 t1. init_base tier2_config sample_zenoh sample_zenoh sample_zenoh 0 4 4
      (new_client tier2_config 1 () ()) fresh_transport = (- EINVAL, c1, t1) \<and>
    init_base tier2_config sample_zenoh sample_zenoh sample_zenoh 100 4 4 c1 t1 = (0, c1, t1) \<and>
    \<not> control_thread_started c1"
proof -
  let ?i = "init_base tier2_config sample_zenoh sample_zenoh sample_zenoh 0 4 4
     (new_client tier2_config 1 () ()) fresh_transport"
  have "fst ?i = - EINVAL" by code_simp
  then obtain c1 t1 where i: "?i = (- EINVAL, c1, t1)" by (cases ?i) auto
  from client_init_zero_frequency [OF _ new_client_wf i refl, of 100] i show ?thesis
    by (auto simp: new_client_def)
qed

text \<open>C17: a Tier 2 loop from end to end. A client \<open>a\<close> publishes structs of \<open>n\<close> bytes which a client
  \<open>b\<close> takes as commands: the last struct that \<open>a\<close> wrote is what it hands to zenoh, and when the
  transport of \<open>b\<close> receives these bytes it calls back, and \<open>b\<close> reads that struct.\<close>

theorem tier2_struct_end_to_end:
  assumes "raw_client.ready n k cfg () () a" and "raw_client.ready l n cfg' () () b"
    and "\<forall>v \<in> set vs. length v = unat n" and "length v = unat n" and "length out = unat n"
    and "0 < unat n" and "unat n \<le> max_rx_buffer_size tcfg" and "user_cb s = Some On_Transport_Cmd_Cb"
    and "length tmp = max_state_buffer_size cfg" and "length tmp' = max_cmd_buffer_size cfg'"
  shows "\<exists>a' b'. raw_client.write_states n (vs @ [v]) a = Some a' \<and>
    zenoh_publish_state cfg z tmp a' t =
      Some (zenbedded_transport_publish (transport_cfg cfg) z (pub a) v t) \<and>
    internal_sub_handler tcfg (Some s) v = Some (On_Transport_Cmd_Cb, v, user_data s) \<and>
    on_transport_cmd_cb cfg' v (word_of_nat (length v)) b = Some b' \<and>
    read_command (raw_read n) cfg' tmp' b' out = Some (True, v)"
proof -
  have v: "raw_image n v" "raw_image n out" "\<forall>v \<in> set vs. raw_image n v"
    using assms(3-5) by (simp_all add: raw_image_def)
  obtain a' where a': "raw_client.write_states n (vs @ [v]) a = Some a'"
    "zenoh_publish_state cfg z tmp a' t =
      Some (zenbedded_transport_publish (transport_cfg cfg) z (pub a) v t)"
    using raw_client.last_write_is_published [OF assms(1) v(3,1) assms(9), of z t] by blast
  obtain b' where b': "on_transport_cmd_cb cfg' v (word_of_nat (length v)) b = Some b'"
    "read_command (raw_read n) cfg' tmp' b' out = Some (True, v)"
    using raw_client.command_then_read [OF assms(2) v(1,2) assms(10)] by blast
  have "internal_sub_handler tcfg (Some s) v = Some (On_Transport_Cmd_Cb, v, user_data s)"
    using assms(4,6-8) by (simp add: internal_sub_handler_def)
  with a' b' show ?thesis by blast
qed

definition raw_up :: "nat \<Rightarrow> (int \<times> (unit, unit) client \<times> client_transport) option" where
  "raw_up i = client_init raw_init (raw_payload_size 4) raw_init (raw_payload_size 4) tier2_config
     sample_zenoh sample_zenoh sample_zenoh (replicate 96 0) 100 () ()
     (new_client tier2_config i () ()) fresh_transport"

lemma raw_up_initialized:
  "case raw_up i of None \<Rightarrow> False | Some (r, c, t) \<Rightarrow> initialized c"
  by code_simp

lemma raw_up_returns: "\<exists>c t. raw_up i = Some (0, c, t)"
proof -
  have "case raw_up i of None \<Rightarrow> False | Some (r, c, t) \<Rightarrow> r = 0" by code_simp
  then show ?thesis by (auto split: option.splits prod.splits)
qed

lemma raw_up_ready:
  assumes "raw_up i = Some (r, c, t)"
  shows "raw_client.ready 4 4 tier2_config () () c"
proof -
  have "initialized c" using raw_up_initialized [of i] assms by simp
  then show ?thesis
    using raw_client.init_gets_ready [OF new_client_wf [of tier2_config i "()" "()"],
        where p = "()" and q = "()" and n = 4 and m = 4 and scratch = "replicate 96 0" and
        zi = sample_zenoh and zp = sample_zenoh and zs = sample_zenoh and freq = 100 and
        t = fresh_transport] assms
    by (auto simp: raw_up_def new_client_def tier2_config_def tier1_config_def)
qed

theorem tier2_struct_end_to_end_witness:
  "\<exists>a b t t' a' b'. raw_up 1 = Some (0, a, t) \<and> raw_up 2 = Some (0, b, t') \<and>
     raw_client.write_states 4 [[0, 0, 0, 1], [9, 8, 7, 6]] a = Some a' \<and>
     on_transport_cmd_cb tier2_config [9, 8, 7, 6] 4 b = Some b' \<and>
     read_command (raw_read 4) tier2_config (replicate 96 0) b' [0, 0, 0, 0] = Some (True, [9, 8, 7, 6])"
proof -
  obtain a t b t' where ab: "raw_up 1 = Some (0, a, t)" "raw_up 2 = Some (0, b, t')"
    using raw_up_returns by blast
  let ?s = "fresh_sub\<lparr>user_cb := Some On_Transport_Cmd_Cb\<rparr>"
  have "\<exists>a' b'. raw_client.write_states 4 ([[0, 0, 0, 1]] @ [[9, 8, 7, 6]]) a = Some a' \<and>
    zenoh_publish_state tier2_config sample_zenoh (replicate 128 0) a' t =
      Some (zenbedded_transport_publish (transport_cfg tier2_config) sample_zenoh (pub a) [9, 8, 7, 6] t) \<and>
    internal_sub_handler sample_config (Some ?s) [9, 8, 7, 6] =
      Some (On_Transport_Cmd_Cb, [9, 8, 7, 6], user_data ?s) \<and>
    on_transport_cmd_cb tier2_config [9, 8, 7, 6] (word_of_nat (length [9, 8, 7, 6 :: byte])) b = Some b' \<and>
    read_command (raw_read 4) tier2_config (replicate 96 0) b' [0, 0, 0, 0] = Some (True, [9, 8, 7, 6])"
    by (rule tier2_struct_end_to_end [OF raw_up_ready [OF ab(1)] raw_up_ready [OF ab(2)]])
      (simp_all add: sample_config_def tier2_config_def tier1_config_def)
  moreover have "word_of_nat (length [9, 8, 7, 6 :: byte]) = (4 :: size_t)" by simp
  ultimately show ?thesis using ab unfolding append.simps by metis
qed

text \<open>What a successful \<open>init_base\<close> leaves in the transport, for its client and for the others.\<close>

lemma init_base_slots:
  assumes "init_base cfg zi zp zs freq st cm c t = (r, c', t')" "\<not> initialized c" "initialized c'"
    and "transport_inv t"
  shows "self_id c' = self_id c \<and>
    (\<exists>i j. pub c' = Some i \<and> sub c' = Some j \<and> i < length (pub_pool t') \<and> j < length (sub_pool t') \<and>
      used_pubs t' ! i \<and> used_subs t' ! j \<and> user_cb (sub_pool t' ! j) = Some On_Transport_Cmd_Cb \<and>
      user_data (sub_pool t' ! j) = self_id c) \<and>
    (\<forall>i < length (pub_pool t). used_pubs t ! i \<longrightarrow> i < length (pub_pool t') \<and> used_pubs t' ! i) \<and>
    (\<forall>j < length (sub_pool t). used_subs t ! j \<longrightarrow>
       j < length (sub_pool t') \<and> used_subs t' ! j \<and> sub_pool t' ! j = sub_pool t ! j)"
proof -
  obtain r1 t1 p t2 s where tr: "zenbedded_transport_init (transport_cfg cfg) zi (cfg_domain_id cfg)
      (cfg_node_name cfg) (cfg_zenoh_mode cfg) (Some (cfg_ip_port cfg)) t = (r1, t1)"
    "zenbedded_transport_declare_publisher (transport_cfg cfg) zp (pub_topic cfg)
      (msg_type cfg (state_msg_type cfg)) t1 = (Some p, t2)"
    "zenbedded_transport_declare_subscriber (transport_cfg cfg) zs (sub_topic cfg)
      (msg_type cfg (cmd_msg_type cfg)) (Some On_Transport_Cmd_Cb) (self_id c) t2 = (Some s, t')"
    "pub c' = Some p" "sub c' = Some s" "self_id c' = self_id c"
    using assms(1-3)
    by (auto simp: init_base_def start_thread_def stop_thread_def Let_def split: if_splits prod.splits)
  have pools: "pub_pool t1 = pub_pool t" "sub_pool t1 = sub_pool t" using init_effect [OF tr(1)] by simp_all
  note dp = declare_publisher_effect [OF tr(2)] and ds = declare_subscriber_effect [OF tr(3)]
  have len: "length (used_pubs x) = length (pub_pool x)" "length (used_subs x) = length (sub_pool x)" for x
    by (simp_all add: used_pubs_def used_subs_def)
  have "length (used_pubs t2) = length (used_pubs t1)" "length (used_subs t') = length (used_subs t2)"
    using dp ds by simp_all
  then have lens: "length (pub_pool t') = length (pub_pool t)" "length (sub_pool t') = length (sub_pool t)"
    using dp ds pools by (simp_all add: len)
  have p: "p < length (pub_pool t')" "used_pubs t' ! p"
    using dp ds lens pools by (auto simp: used_pubs_def)
  have s: "s < length (sub_pool t')" "used_subs t' ! s" using ds dp lens pools by auto
  have other_p: "used_pubs t' ! i" if "i < length (pub_pool t)" "used_pubs t ! i" for i
    using declare_keeps_used [OF tr(2), of i] that ds pools by (simp add: used_pubs_def)
  have other_s: "sub_pool t' ! j = sub_pool t ! j" if "j < length (sub_pool t)" "used_subs t ! j" for j
    using declare_subscriber_others [OF tr(3), of j] that dp pools by (simp add: used_subs_def)
  have used_s: "used_subs t' ! j" if "j < length (sub_pool t)" "used_subs t ! j" for j
    using other_s [OF that] that lens by (simp add: used_subs_def)
  show ?thesis using tr(4-6) p s ds other_p other_s used_s lens by auto
qed

text \<open>C40: while another client keeps the transport open, \<open>destroy\<close> of a client leaves its publisher
  and subscriber declared. For any two clients that came up one after the other on one transport,
  whatever their payload sizes, frequencies and ids: after \<open>destroy\<close> of the first the session is
  alive, its handles are gone from the client, but their slots are still in use, and every command
  payload that fits the receive buffer is still delivered to the address of the destroyed client.\<close>

theorem client_destroy_leaves_subscription:
  assumes one: "init_base cfg zi zp zs f st cm a t0 = (ra, a', t1)" "\<not> initialized a" "initialized a'"
    and two: "init_base cfg zi' zp' zs' f' st' cm' b t1 = (rb, b', t2)" "\<not> initialized b" "initialized b'"
    and t0: "transport_inv t0" "unat (transport_ref_count t0) < 2 ^ 32 - 2"
    and destroy: "client_destroy cfg a' t2 = (d, t3)"
    and payload: "bs \<noteq> []" "length bs \<le> max_rx_buffer_size (transport_cfg cfg)"
  shows "\<not> initialized d \<and> pub d = None \<and> sub d = None \<and> is_initialized t3 \<and>
    (\<exists>i j. pub a' = Some i \<and> sub a' = Some j \<and> used_pubs t3 ! i \<and> used_subs t3 ! j \<and>
      internal_sub_handler (transport_cfg cfg) (Some (sub_pool t3 ! j)) bs =
        Some (On_Transport_Cmd_Cb, bs, self_id a))"
proof -
  have r1: "transport_inv t1" "unat (transport_ref_count t1) = unat (transport_ref_count t0) + 1"
    using init_base_refs [OF one(1,2) t0(1)] t0(2) one(3) by auto
  have r2: "transport_inv t2" "unat (transport_ref_count t2) = unat (transport_ref_count t0) + 2"
    using init_base_refs [OF two(1,2) r1(1)] t0(2) r1(2) two(3) by auto
  have up: "is_initialized t2" "transport_ref_count t2 \<noteq> 0" "transport_ref_count t2 \<noteq> 1"
    using r2 by (auto simp: transport_inv_def)
  have d: "\<not> initialized d" "pub d = None" "sub d = None"
    "t3 = t2\<lparr>transport_ref_count := transport_ref_count t2 - 1\<rparr>"
    using destroy one(3) destroy_other [of t2 "transport_cfg cfg"] up by (auto simp: client_destroy_def)
  note sa = init_base_slots [OF one t0(1)] and sb = init_base_slots [OF two r1(1)]
  obtain i j where ij: "pub a' = Some i" "sub a' = Some j" "used_pubs t2 ! i" "used_subs t2 ! j"
    "user_cb (sub_pool t2 ! j) = Some On_Transport_Cmd_Cb" "user_data (sub_pool t2 ! j) = self_id a"
    using sa sb by metis
  then show ?thesis
    using d up(1) payload by (auto simp: used_pubs_def used_subs_def internal_sub_handler_def Let_def)
qed

theorem client_destroy_leaves_subscription_witness:
  "\<exists>c1 t1 c2 t2 j. init_base tier2_config sample_zenoh sample_zenoh sample_zenoh 10 4 4
      (new_client tier2_config 1 () ()) fresh_transport = (0, c1, t1) \<and>
    init_base tier2_config sample_zenoh sample_zenoh sample_zenoh 10 4 4
      (new_client tier2_config 2 () ()) t1 = (0, c2, t2) \<and> sub c1 = Some j \<and>
    internal_sub_handler (transport_cfg tier2_config)
      (Some (sub_pool (snd (client_destroy tier2_config c1 t2)) ! j)) [1, 2, 3, 4] =
        Some (On_Transport_Cmd_Cb, [1, 2, 3, 4], 1)"
proof -
  let ?i = "\<lambda>k t. init_base tier2_config sample_zenoh sample_zenoh sample_zenoh 10 4 4
      (new_client tier2_config k () ()) t"
  have "case ?i 1 fresh_transport of (r1, c1, t1) \<Rightarrow>
      (case ?i 2 t1 of (r2, c2, t2) \<Rightarrow> r1 = 0 \<and> r2 = 0 \<and> initialized c1 \<and> initialized c2)"
    by code_simp
  then obtain c1 t1 c2 t2 where i: "?i 1 fresh_transport = (0, c1, t1)" "initialized c1"
    "?i 2 t1 = (0, c2, t2)" "initialized c2"
    by (auto split: prod.splits)
  obtain d t3 where d: "client_destroy tier2_config c1 t2 = (d, t3)" by (rule prod.exhaust)
  have n: "\<not> initialized (new_client tier2_config k () ())" "self_id (new_client tier2_config k () ()) = k" for k
    by (simp_all add: new_client_def)
  have "unat (transport_ref_count fresh_transport) < 2 ^ 32 - 2"
    by (simp add: fresh_transport_def transport_start_def)
  moreover have "[1, 2, 3, 4 :: byte] \<noteq> []" by simp
  moreover have "length [1, 2, 3, 4 :: byte] \<le> max_rx_buffer_size (transport_cfg tier2_config)"
    by (simp add: tier2_config_def tier1_config_def sample_config_def)
  ultimately obtain j where "sub c1 = Some j"
    "internal_sub_handler (transport_cfg tier2_config) (Some (sub_pool t3 ! j)) [1, 2, 3, 4] =
        Some (On_Transport_Cmd_Cb, [1, 2, 3, 4], 1)"
    using client_destroy_leaves_subscription [OF i(1) n(1) i(2) i(3) n(1) i(4) fresh_transport_inv _ d] n(2)
    by metis
  with i d show ?thesis by auto
qed

end
