(* ===== verification/Ieee754.thy ===== *)
theory Ieee754
  imports Prelude
begin

text \<open>
  The floating-point conversions the C++ code performs with \<open>static_cast\<close>, on bit patterns: a
  finite number is a sign, a mantissa and a power of two, reading a pattern is exact, and writing
  one rounds to nearest, ties to even, as every target of the project does. A conversion to an
  integer type truncates, and is undefined (\<open>None\<close>) when the result does not fit the type or the
  operand is not finite. The payload of a NaN that results from a conversion is not specified by
  the language; here it is the quiet NaN.
\<close>

section \<open>Formats\<close>

record fmt =
  frac_bits :: nat
  exp_bits :: nat

definition binary32 :: fmt where "binary32 = \<lparr>frac_bits = 23, exp_bits = 8\<rparr>"
definition binary64 :: fmt where "binary64 = \<lparr>frac_bits = 52, exp_bits = 11\<rparr>"

text \<open>The exponent of the last bit of a subnormal number.\<close>

definition emin :: "fmt \<Rightarrow> int" where
  "emin f = 2 - 2 ^ (exp_bits f - 1) - int (frac_bits f)"

definition inf_bits :: "fmt \<Rightarrow> nat" where
  "inf_bits f = (2 ^ exp_bits f - 1) * 2 ^ frac_bits f"

definition sign_bit :: "fmt \<Rightarrow> bool \<Rightarrow> nat" where
  "sign_bit f s = (if s then 2 ^ (exp_bits f + frac_bits f) else 0)"

datatype fp = NaN | Infinite bool | Fin bool nat int

definition fp_decode :: "fmt \<Rightarrow> nat \<Rightarrow> fp" where
  "fp_decode f b =
     (let fr = b mod 2 ^ frac_bits f;
          ex = b div 2 ^ frac_bits f mod 2 ^ exp_bits f;
          s = odd (b div 2 ^ (exp_bits f + frac_bits f))
      in if ex = 2 ^ exp_bits f - 1 then (if fr = 0 then Infinite s else NaN)
         else if ex = 0 then Fin s fr (emin f)
         else Fin s (2 ^ frac_bits f + fr) (emin f + int ex - 1))"

fun nat_bits :: "nat \<Rightarrow> nat" where
  "nat_bits n = (if n = 0 then 0 else Suc (nat_bits (n div 2)))"

declare nat_bits.simps [simp del]

text \<open>\<open>m / 2^k\<close> rounded to nearest, ties to even.\<close>

definition round_shift :: "nat \<Rightarrow> int \<Rightarrow> nat" where
  "round_shift m k =
     (if k \<le> 0 then m * 2 ^ nat (- k)
      else
        let q = m div 2 ^ nat k; r = m mod 2 ^ nat k; h = 2 ^ (nat k - 1)
        in if h < r \<or> (r = h \<and> odd q) then q + 1 else q)"

text \<open>The exponent of the last bit that is kept of \<open>m * 2^e\<close>.\<close>

definition mant_exp :: "fmt \<Rightarrow> nat \<Rightarrow> int \<Rightarrow> int" where
  "mant_exp f m e =
     (if m = 0 then emin f else max (e + int (nat_bits m) - int (Suc (frac_bits f))) (emin f))"

text \<open>The pattern of the rounded mantissa is added to that of the exponent, so a mantissa that
  rounds up to the next power of two carries into the exponent.\<close>

definition fp_encode :: "fmt \<Rightarrow> fp \<Rightarrow> nat" where
  "fp_encode f x =
     (case x of
        NaN \<Rightarrow> inf_bits f + 2 ^ (frac_bits f - 1)
      | Infinite s \<Rightarrow> sign_bit f s + inf_bits f
      | Fin s m e \<Rightarrow>
          let E = mant_exp f m e;
              b = nat (E - emin f) * 2 ^ frac_bits f + round_shift m (E - e)
          in sign_bit f s + min b (inf_bits f))"

definition fp_trunc :: "fp \<Rightarrow> int option" where
  "fp_trunc x =
     (case x of
        Fin s m e \<Rightarrow>
          let n = (if 0 \<le> e then m * 2 ^ nat e else m div 2 ^ nat (- e))
          in Some (if s then - int n else int n)
      | _ \<Rightarrow> None)"

section \<open>The conversions of the code\<close>

definition of_f64 :: "f64 \<Rightarrow> fp" where "of_f64 d = fp_decode binary64 (unat d)"
definition of_f32 :: "f32 \<Rightarrow> fp" where "of_f32 x = fp_decode binary32 (unat x)"
definition to_f64 :: "fp \<Rightarrow> f64" where "to_f64 x = word_of_nat (fp_encode binary64 x)"
definition to_f32 :: "fp \<Rightarrow> f32" where "to_f32 x = word_of_nat (fp_encode binary32 x)"

definition float_to_double :: "f32 \<Rightarrow> f64" where "float_to_double x = to_f64 (of_f32 x)"
definition double_to_float :: "f64 \<Rightarrow> f32" where "double_to_float d = to_f32 (of_f64 d)"

definition int_to_double :: "int \<Rightarrow> f64" where
  "int_to_double i = to_f64 (Fin (i < 0) (nat \<bar>i\<bar>) 0)"

definition double_to_int :: "int \<Rightarrow> int \<Rightarrow> f64 \<Rightarrow> int option" where
  "double_to_int lo hi d =
     (case fp_trunc (of_f64 d) of
        None \<Rightarrow> None
      | Some i \<Rightarrow> if lo \<le> i \<and> i \<le> hi then Some i else None)"

definition isnan :: "f64 \<Rightarrow> bool" where "isnan d \<longleftrightarrow> of_f64 d = NaN"

section \<open>The number of bits\<close>

lemma nat_bits_0 [simp]: "nat_bits 0 = 0"
  by (simp add: nat_bits.simps)

lemma nat_bits_upper: "n < 2 ^ nat_bits n"
proof (induction n rule: nat_bits.induct)
  case (1 n)
  then show ?case
    by (cases "n = 0") (auto simp: nat_bits.simps [of n] less_mult_imp_div_less)
qed

lemma nat_bits_le: "n < 2 ^ k \<Longrightarrow> nat_bits n \<le> k"
proof (induction k arbitrary: n)
  case (Suc k)
  then have "n div 2 < 2 ^ k" by (simp add: less_mult_imp_div_less)
  with Suc.IH show ?case by (simp add: nat_bits.simps [of n])
qed simp

lemma nat_bits_ge: "2 ^ k \<le> n \<Longrightarrow> Suc k \<le> nat_bits n"
  using nat_bits_upper [of n] by (metis less_le_trans nat_power_less_imp_less not_less_eq_eq not_le zero_less_numeral le_less_trans)

lemma nat_bits_eq: "2 ^ k \<le> n \<Longrightarrow> n < 2 ^ Suc k \<Longrightarrow> nat_bits n = Suc k"
  using nat_bits_le [of n "Suc k"] nat_bits_ge [of k n] by simp

lemma nat_bits_lower: "n \<noteq> 0 \<Longrightarrow> 2 ^ (nat_bits n - 1) \<le> n"
proof (rule ccontr)
  assume n: "n \<noteq> 0" and "\<not> 2 ^ (nat_bits n - 1) \<le> n"
  then have "nat_bits n \<le> nat_bits n - 1" by (intro nat_bits_le) simp
  with n show False by (simp add: nat_bits.simps [of n])
qed

lemma nat_bits_pos: "n \<noteq> 0 \<Longrightarrow> 0 < nat_bits n"
  by (simp add: nat_bits.simps [of n])

lemma nat_bits_shift: "n \<noteq> 0 \<Longrightarrow> nat_bits (n * 2 ^ j) = nat_bits n + j"
proof -
  assume n: "n \<noteq> 0"
  obtain k where k: "nat_bits n = Suc k" using nat_bits_pos [OF n] by (cases "nat_bits n") auto
  have "2 ^ k \<le> n" "n < 2 ^ Suc k" using nat_bits_lower [OF n] nat_bits_upper [of n] by (simp_all add: k)
  then have "2 ^ (k + j) \<le> n * 2 ^ j" "n * 2 ^ j < 2 ^ Suc (k + j)"
    by (simp_all add: power_add)
  then show ?thesis by (simp add: nat_bits_eq k)
qed

section \<open>Exact conversions\<close>

text \<open>Every pattern that is not a NaN is the encoding of what it decodes to.\<close>

definition fmt_ok :: "fmt \<Rightarrow> bool" where
  "fmt_ok f \<longleftrightarrow> 0 < exp_bits f \<and> 0 < frac_bits f"

lemma fmt_ok [simp]: "fmt_ok binary32" "fmt_ok binary64"
  by (simp_all add: fmt_ok_def binary32_def binary64_def)

lemma pattern_split:
  fixes b :: nat
  assumes "b < 2 ^ Suc (p + w)"
  shows "b = (if odd (b div 2 ^ (w + p)) then 2 ^ (w + p) else 0) +
    (b div 2 ^ p mod 2 ^ w) * 2 ^ p + b mod 2 ^ p"
proof -
  have "b div 2 ^ (w + p) < 2" using assms by (simp add: less_mult_imp_div_less add.commute)
  then have s: "b div 2 ^ (w + p) = (if odd (b div 2 ^ (w + p)) then 1 else 0)"
    by (cases "b div 2 ^ (w + p)") auto
  have "b = b div 2 ^ p * 2 ^ p + b mod 2 ^ p" by (rule div_mult_mod_eq [symmetric])
  also have "b div 2 ^ p = b div 2 ^ p div 2 ^ w * 2 ^ w + b div 2 ^ p mod 2 ^ w"
    by (rule div_mult_mod_eq [symmetric])
  also have "b div 2 ^ p div 2 ^ w = b div 2 ^ (w + p)"
    by (simp add: div_mult2_eq [symmetric] power_add mult.commute)
  finally show ?thesis
    by (subst (asm) s) (auto simp: power_add algebra_simps split: if_splits)
qed

lemma fp_encode_decode:
  assumes ok: "fmt_ok f" and b: "b < 2 ^ Suc (frac_bits f + exp_bits f)" and nan: "fp_decode f b \<noteq> NaN"
  shows "fp_encode f (fp_decode f b) = b"
proof -
  let ?p = "frac_bits f" and ?w = "exp_bits f"
  define fr where "fr = b mod 2 ^ ?p"
  define ex where "ex = b div 2 ^ ?p mod 2 ^ ?w"
  define s where "s = odd (b div 2 ^ (?w + ?p))"
  have split: "b = sign_bit f s + ex * 2 ^ ?p + fr"
    using pattern_split [OF b] by (simp add: sign_bit_def s_def ex_def fr_def)
  have fr: "fr < 2 ^ ?p" and ex: "ex < 2 ^ ?w" by (simp_all add: fr_def ex_def)
  note dec = fp_decode_def [of f b, folded fr_def ex_def s_def, unfolded Let_def]
  show ?thesis
  proof (cases "ex = 2 ^ ?w - 1")
    case True
    with nan have "fr = 0" by (auto simp: dec split: if_splits)
    moreover from this True have "fp_decode f b = Infinite s" by (simp add: dec)
    ultimately show ?thesis using True split by (simp add: fp_encode_def inf_bits_def)
  next
    case False
    then have lt: "ex * 2 ^ ?p + fr < inf_bits f"
    proof -
      have "Suc ex \<le> 2 ^ ?w - 1" using False ex by simp
      then have "Suc ex * 2 ^ ?p \<le> inf_bits f" unfolding inf_bits_def by (rule mult_le_mono1)
      then show ?thesis using fr by simp
    qed
    show ?thesis
    proof (cases "ex = 0")
      case True
      have "nat_bits fr \<le> ?p" using fr by (rule nat_bits_le)
      then have "mant_exp f fr (emin f) = emin f" by (simp add: mant_exp_def)
      moreover from True False have "fp_decode f b = Fin s fr (emin f)" by (simp add: dec)
      ultimately show ?thesis
        using True lt split by (simp add: fp_encode_def round_shift_def Let_def)
    next
      case normal: False
      let ?m = "2 ^ ?p + fr" and ?e = "emin f + int ex - 1"
      have "nat_bits ?m = Suc ?p" using fr by (intro nat_bits_eq) simp_all
      then have E: "mant_exp f ?m ?e = ?e" using normal by (simp add: mant_exp_def)
      have "nat (?e - emin f) * 2 ^ ?p + ?m = ex * 2 ^ ?p + fr"
        using normal by (cases ex) (simp_all add: nat_diff_distrib)
      moreover from False normal have "fp_decode f b = Fin s ?m ?e" by (simp add: dec)
      ultimately show ?thesis
        using lt split E by (simp add: fp_encode_def round_shift_def Let_def)
    qed
  qed
qed

text \<open>Reading the parts of a pattern.\<close>

lemma fp_decode_parts:
  assumes "fr < 2 ^ frac_bits f" "ex < 2 ^ exp_bits f"
  shows "fp_decode f (sign_bit f s + (ex * 2 ^ frac_bits f + fr)) =
    (if ex = 2 ^ exp_bits f - 1 then (if fr = 0 then Infinite s else NaN)
     else if ex = 0 then Fin s fr (emin f)
     else Fin s (2 ^ frac_bits f + fr) (emin f + int ex - 1))"
proof -
  let ?p = "frac_bits f" and ?w = "exp_bits f" and ?S = "if s then 1 else 0 :: nat"
  let ?b = "sign_bit f s + (ex * 2 ^ ?p + fr)"
  have sb: "sign_bit f s = ?S * 2 ^ ?w * 2 ^ ?p" by (simp add: sign_bit_def power_add)
  have b: "?b = fr + 2 ^ ?p * (?S * 2 ^ ?w + ex)" unfolding sb by (simp add: algebra_simps)
  have mod: "?b mod 2 ^ ?p = fr" unfolding b using assms(1) by simp
  have div: "?b div 2 ^ ?p = ?S * 2 ^ ?w + ex" unfolding b using assms(1) by simp
  have ex: "?b div 2 ^ ?p mod 2 ^ ?w = ex" unfolding div using assms(2) by simp
  have "?b div 2 ^ (?w + ?p) = ?b div 2 ^ ?p div 2 ^ ?w"
    by (simp add: div_mult2_eq [symmetric] power_add mult.commute)
  then have s: "?b div 2 ^ (?w + ?p) = ?S" unfolding div using assms(2) by simp
  show ?thesis unfolding fp_decode_def Let_def mod ex s by simp
qed

lemma fp_decode_encode_exact:
  assumes m: "m \<noteq> 0" and bits: "nat_bits m \<le> Suc (frac_bits f)"
    and E: "E = e + int (nat_bits m) - int (Suc (frac_bits f))"
    and low: "emin f \<le> E" and high: "nat (E - emin f) + 2 < 2 ^ exp_bits f"
  shows "fp_decode f (fp_encode f (Fin s m e)) = Fin s (m * 2 ^ nat (e - E)) E"
proof -
  let ?p = "frac_bits f" and ?w = "exp_bits f" and ?j = "nat (e - E)" and ?x = "nat (E - emin f)"
  let ?m = "m * 2 ^ ?j"
  have j: "e - E = int ?j" "nat_bits m + ?j = Suc ?p" using E bits by simp_all
  have nb: "nat_bits ?m = Suc ?p" using nat_bits_shift [OF m, of ?j] j(2) by simp
  have lo: "2 ^ ?p \<le> ?m" using nat_bits_lower [of ?m] m nb by simp
  have hi: "?m < 2 * 2 ^ ?p" using nat_bits_upper [of ?m] nb by simp
  have me: "mant_exp f m e = E" using m E low by (simp add: mant_exp_def)
  have "E \<le> e" using E bits by simp
  then have rs: "round_shift m (E - e) = ?m" by (simp add: round_shift_def)
  define fr where "fr = ?m - 2 ^ ?p"
  have fr: "fr < 2 ^ ?p" and mfr: "?m = 2 ^ ?p + fr" using lo hi by (simp_all add: fr_def)
  have enc: "?x * 2 ^ ?p + ?m = Suc ?x * 2 ^ ?p + fr" by (simp add: mfr)
  have "Suc (Suc ?x) * 2 ^ ?p \<le> inf_bits f"
    unfolding inf_bits_def by (rule mult_le_mono1) (use high in simp)
  then have "Suc ?x * 2 ^ ?p + fr < inf_bits f" using fr by simp
  then have "fp_encode f (Fin s m e) = sign_bit f s + (Suc ?x * 2 ^ ?p + fr)"
    using enc by (simp add: fp_encode_def Let_def me rs)
  then have "fp_decode f (fp_encode f (Fin s m e)) = Fin s (2 ^ ?p + fr) (emin f + int (Suc ?x) - 1)"
  proof -
    have "Suc ?x < 2 ^ ?w" "Suc ?x \<noteq> 2 ^ ?w - 1" using high by linarith+
    with fp_decode_parts [OF fr, of "Suc ?x" s] show ?thesis
      using \<open>fp_encode f (Fin s m e) = _\<close> by (simp only: if_False) simp
  qed
  then show ?thesis using low by (simp add: mfr)
qed

lemma round_shift_scale: "round_shift (m * 2 ^ j) (k + int j) = round_shift m k"
proof (cases "0 < k")
  case True
  define n where "n = nat k - 1"
  have k: "k = int (Suc n)" using True by (simp add: n_def)
  have nk: "nat (k + int j) = Suc n + j" "nat k = Suc n" by (simp_all add: k)
  have q: "m * 2 ^ j div 2 ^ (Suc n + j) = m div 2 ^ Suc n"
    by (simp only: power_add) (simp add: div_mult_mult2)
  have r: "m * 2 ^ j mod 2 ^ (Suc n + j) = (m mod 2 ^ Suc n) * 2 ^ j"
    using mult_mod_right [of "2 ^ j" m "2 ^ Suc n"] by (simp only: power_add mult.commute)
  have h: "(2 :: nat) ^ (Suc n + j - 1) = 2 ^ n * 2 ^ j" by (simp add: power_add)
  show ?thesis
    using True unfolding round_shift_def nk q r h by (simp add: Let_def)
next
  case False
  show ?thesis
  proof (cases "k + int j \<le> 0")
    case True
    then have "nat (- k) = j + nat (- (k + int j))" by simp
    then have "(2 :: nat) ^ nat (- k) = 2 ^ j * 2 ^ nat (- (k + int j))" by (simp only: power_add)
    with True False show ?thesis by (simp add: round_shift_def)
  next
    case pos: False
    define i where "i = nat (k + int j)"
    define n where "n = nat (- k)"
    have j: "j = n + i" using False pos by (simp add: i_def n_def)
    have "(2 :: nat) ^ j = 2 ^ n * 2 ^ i" unfolding j by (rule power_add)
    then have eq: "m * 2 ^ j = (m * 2 ^ n) * 2 ^ i" by simp
    have "m * 2 ^ j div 2 ^ i = m * 2 ^ n" unfolding eq by (rule nonzero_mult_div_cancel_right) simp
    moreover have "m * 2 ^ j mod 2 ^ i = 0" unfolding eq by (rule mod_mult_self2_is_0)
    ultimately show ?thesis
      using False pos unfolding round_shift_def Let_def by (simp flip: i_def n_def)
  qed
qed

lemma fp_encode_scale:
  assumes "m \<noteq> 0"
  shows "fp_encode f (Fin s (m * 2 ^ j) (e - int j)) = fp_encode f (Fin s m e)"
proof -
  have E: "mant_exp f (m * 2 ^ j) (e - int j) = mant_exp f m e"
    using assms nat_bits_shift [OF assms, of j] by (simp add: mant_exp_def)
  have "round_shift (m * 2 ^ j) (mant_exp f m e - (e - int j)) = round_shift m (mant_exp f m e - e)"
    using round_shift_scale [of m j "mant_exp f m e - e"] by (simp add: algebra_simps)
  then show ?thesis by (simp add: fp_encode_def E Let_def)
qed

section \<open>The conversions that lose nothing\<close>

lemma fp_decode_bounds:
  assumes "fp_decode f b = Fin s m e"
  shows "m < 2 ^ Suc (frac_bits f)" "emin f \<le> e" "e \<le> emin f + 2 ^ exp_bits f - 3 \<or> e = emin f"
proof -
  define ex where "ex = b div 2 ^ frac_bits f mod 2 ^ exp_bits f"
  have fr: "b mod 2 ^ frac_bits f < 2 ^ frac_bits f" by simp
  have "ex < 2 ^ exp_bits f" by (simp add: ex_def)
  note d = assms [unfolded fp_decode_def Let_def, folded ex_def]
  have "b mod 2 ^ frac_bits f < 2 * 2 ^ frac_bits f" using fr by linarith
  then show "m < 2 ^ Suc (frac_bits f)" using d by (auto split: if_splits)
  show "emin f \<le> e" using d by (auto split: if_splits)
  have "ex \<noteq> 2 ^ exp_bits f - 1" using d by (auto split: if_splits)
  then have "ex + 2 \<le> 2 ^ exp_bits f" using \<open>ex < 2 ^ exp_bits f\<close> by linarith
  then have "int ex + 2 \<le> 2 ^ exp_bits f" by (metis of_nat_le_iff of_nat_add of_nat_numeral of_nat_power)
  then show "e \<le> emin f + 2 ^ exp_bits f - 3 \<or> e = emin f" using d by (auto split: if_splits)
qed

lemma fp_encode_bound:
  "0 < frac_bits f \<Longrightarrow> fp_encode f x < 2 ^ Suc (frac_bits f + exp_bits f)"
proof -
  assume p: "0 < frac_bits f"
  let ?B = "2 ^ (frac_bits f + exp_bits f) :: nat"
  obtain k where k: "(2 :: nat) ^ exp_bits f = Suc k" by (metis not0_implies_Suc power_not_zero zero_neq_numeral)
  have inf: "inf_bits f + 2 ^ frac_bits f = ?B"
    by (simp add: inf_bits_def power_add k)
  have "(2 :: nat) ^ (frac_bits f - 1) < 2 ^ frac_bits f" using p by simp
  moreover have "sign_bit f s \<le> ?B" for s by (simp add: sign_bit_def add.commute)
  moreover have "inf_bits f < ?B" using inf by (metis less_add_same_cancel1 zero_less_power zero_less_numeral)
  ultimately show ?thesis
    using inf by (cases x) (auto simp: fp_encode_def Let_def add_le_less_mono mult_2 min_def
        intro: add_le_less_mono le_less_trans)
qed

lemma unat_to_f64: "unat (to_f64 x) = fp_encode binary64 x"
  and unat_to_f32: "unat (to_f32 x) = fp_encode binary32 x"
  using fp_encode_bound [of binary64 x] fp_encode_bound [of binary32 x]
  by (simp_all add: to_f64_def to_f32_def binary64_def binary32_def unat_of_nat)

lemma to_f64_of_f64: "\<not> isnan d \<Longrightarrow> to_f64 (of_f64 d) = d"
proof -
  assume nan: "\<not> isnan d"
  have "unat d < 2 ^ Suc (frac_bits binary64 + exp_bits binary64)"
    using unsigned_less [of d] by (simp add: binary64_def)
  then have "fp_encode binary64 (fp_decode binary64 (unat d)) = unat d"
    using nan by (intro fp_encode_decode) (simp_all add: isnan_def of_f64_def)
  then show ?thesis by (simp add: of_f64_def to_f64_def)
qed

lemma to_f32_of_f32: "of_f32 x \<noteq> NaN \<Longrightarrow> to_f32 (of_f32 x) = x"
proof -
  assume nan: "of_f32 x \<noteq> NaN"
  have "unat x < 2 ^ Suc (frac_bits binary32 + exp_bits binary32)"
    using unsigned_less [of x] by (simp add: binary32_def)
  then have "fp_encode binary32 (fp_decode binary32 (unat x)) = unat x"
    using nan by (intro fp_encode_decode) (simp_all add: isnan_def of_f32_def)
  then show ?thesis by (simp add: of_f32_def to_f32_def)
qed

lemma emin_values [simp]: "emin binary32 = - 149" "emin binary64 = - 1074"
  by (simp_all add: emin_def binary32_def binary64_def)

lemma of_f64_zero: "of_f64 (to_f64 (Fin s 0 e)) = Fin s 0 (- 1074)"
proof -
  have "fp_encode binary64 (Fin s 0 e) = sign_bit binary64 s + (0 * 2 ^ frac_bits binary64 + 0)"
    by (simp add: fp_encode_def mant_exp_def round_shift_def Let_def)
  then show ?thesis
    using fp_decode_parts [of 0 binary64 0 s]
    by (simp add: of_f64_def unat_to_f64) (simp add: binary64_def)
qed

text \<open>A number of at most 53 bits and moderate exponent is represented exactly.\<close>

lemma of_f64_exact:
  assumes "m \<noteq> 0" "nat_bits m \<le> 53" "- 1000 \<le> e" "e \<le> 900"
  shows "of_f64 (to_f64 (Fin s m e)) =
    Fin s (m * 2 ^ nat (53 - int (nat_bits m))) (e - (53 - int (nat_bits m)))"
proof -
  have "0 < nat_bits m" using assms(1) by (rule nat_bits_pos)
  then have "fp_decode binary64 (fp_encode binary64 (Fin s m e)) =
      Fin s (m * 2 ^ nat (e - (e + int (nat_bits m) - 53))) (e + int (nat_bits m) - 53)"
    using assms by (intro fp_decode_encode_exact) (simp_all add: binary64_def emin_def)
  then show ?thesis by (simp add: of_f64_def unat_to_f64 algebra_simps)
qed

text \<open>Widening a \<open>float\<close> and narrowing it again is the identity.\<close>

lemma double_to_float_to_double:
  assumes "of_f32 x \<noteq> NaN"
  shows "double_to_float (float_to_double x) = x"
proof (cases "of_f32 x")
  case NaN
  with assms show ?thesis by simp
next
  case (Infinite s)
  have "of_f64 (to_f64 (Infinite s)) = Infinite s"
    using fp_decode_parts [of 0 binary64 "2 ^ exp_bits binary64 - 1" s]
    by (simp add: of_f64_def unat_to_f64 fp_encode_def inf_bits_def)
  then show ?thesis
    using to_f32_of_f32 [OF assms] Infinite by (simp add: double_to_float_def float_to_double_def)
next
  case (Fin s m e)
  have b: "m < 2 ^ 24" "- 149 \<le> e" "e \<le> 104"
    using fp_decode_bounds [of binary32 "unat x" s m e] Fin
    by (auto simp: of_f32_def) (simp_all add: binary32_def)
  have restored: "to_f32 (Fin s m e) = x" using to_f32_of_f32 [OF assms] Fin by simp
  show ?thesis
  proof (cases "m = 0")
    case True
    have "to_f32 (Fin s 0 (- 1074)) = to_f32 (Fin s 0 e)"
      by (simp add: to_f32_def fp_encode_def mant_exp_def round_shift_def Let_def)
    then show ?thesis
      using restored True Fin by (simp add: double_to_float_def float_to_double_def of_f64_zero)
  next
    case False
    let ?j = "nat (53 - int (nat_bits m))"
    have nb: "nat_bits m \<le> 24" using b(1) by (rule nat_bits_le)
    have "of_f64 (to_f64 (Fin s m e)) = Fin s (m * 2 ^ ?j) (e - int ?j)"
      using of_f64_exact [OF False, of e s] nb b(2,3) by simp
    then show ?thesis
      using restored Fin fp_encode_scale [OF False, of binary32 s ?j e]
      by (simp add: double_to_float_def float_to_double_def to_f32_def)
  qed
qed

text \<open>Integers of at most 53 bits survive the conversion to \<open>double\<close>.\<close>

lemma fp_trunc_int_to_double:
  assumes "\<bar>i\<bar> < 2 ^ 53"
  shows "fp_trunc (of_f64 (int_to_double i)) = Some i"
proof (cases "i = 0")
  case True
  then show ?thesis by (simp add: int_to_double_def of_f64_zero fp_trunc_def)
next
  case False
  let ?m = "nat \<bar>i\<bar>"
  have m: "?m \<noteq> 0" using False by simp
  have nb: "nat_bits ?m \<le> 53" using assms by (intro nat_bits_le) (simp add: nat_less_iff)
  let ?j = "nat (53 - int (nat_bits ?m))"
  have "of_f64 (int_to_double i) = Fin (i < 0) (?m * 2 ^ ?j) (- int ?j)"
    using of_f64_exact [OF m nb, of 0 "i < 0"] nb by (simp add: int_to_double_def)
  moreover have "?m * 2 ^ ?j div 2 ^ ?j = ?m" by simp
  ultimately show ?thesis
    by (auto simp: fp_trunc_def Let_def)
qed

lemma double_to_int_of_int:
  "\<bar>i\<bar> < 2 ^ 53 \<Longrightarrow> lo \<le> i \<Longrightarrow> i \<le> hi \<Longrightarrow> double_to_int lo hi (int_to_double i) = Some i"
  by (simp add: double_to_int_def fp_trunc_int_to_double)

lemma double_to_int_range: "double_to_int lo hi d = Some i \<Longrightarrow> lo \<le> i \<and> i \<le> hi"
  by (auto simp: double_to_int_def split: option.splits if_splits)

lemma double_to_int_NaN: "isnan d \<Longrightarrow> double_to_int lo hi d = None"
  by (simp add: double_to_int_def isnan_def fp_trunc_def)

lemma isnan_zero: "\<not> isnan 0"
  by (simp add: isnan_def of_f64_def fp_decode_def binary64_def)

text \<open>Evaluation on literals.\<close>

lemma nat_bits_numeral [simp]:
  "nat_bits (numeral n) = Suc (nat_bits (numeral n div 2))" "nat_bits (Suc 0) = 1" "nat_bits 1 = 1"
  by (simp_all add: nat_bits.simps [of "numeral n"] nat_bits.simps [of "Suc 0"] nat_bits.simps [of 1])

lemmas fp_eval = float_to_double_def double_to_float_def to_f64_def to_f32_def of_f64_def of_f32_def
  fp_decode_def fp_encode_def binary32_def binary64_def emin_def inf_bits_def sign_bit_def
  mant_exp_def round_shift_def Let_def int_to_double_def double_to_int_def fp_trunc_def

text \<open>The same for \<open>double\<close> alone, with the constants of the format computed once.\<close>

lemma fp_encode_binary64:
  "fp_encode binary64 (Fin s m e) = (if s then 9223372036854775808 else 0) +
     min (nat (mant_exp binary64 m e + 1074) * 4503599627370496 + round_shift m (mant_exp binary64 m e - e))
       9218868437227405312"
  by (simp add: fp_encode_def Let_def sign_bit_def inf_bits_def) (simp add: binary64_def)

lemma mant_exp_binary64:
  "mant_exp binary64 m e = (if m = 0 then - 1074 else max (e + int (nat_bits m) - 53) (- 1074))"
  by (simp add: mant_exp_def) (simp add: binary64_def)

lemma fp_decode_binary64:
  "fp_decode binary64 b =
     (let fr = b mod 4503599627370496; ex = b div 4503599627370496 mod 2048;
          s = odd (b div 9223372036854775808)
      in if ex = 2047 then (if fr = 0 then Infinite s else NaN)
         else if ex = 0 then Fin s fr (- 1074)
         else Fin s (4503599627370496 + fr) (int ex - 1075))"
  by (simp add: fp_decode_def Let_def) (simp add: binary64_def)

lemmas f64_eval = fp_encode_binary64 mant_exp_binary64 fp_decode_binary64 round_shift_def to_f64_def
  of_f64_def int_to_double_def double_to_int_def fp_trunc_def Let_def

end
