(* ===== verification/Interface_Schema.thy ===== *)
theory Interface_Schema
  imports Ieee754
begin

text \<open>
  \<open>zenbedded_hardware_interface/interface_schema.hpp\<close> and \<open>.cpp\<close>: the schema that tells the host how
  the raw structs of the firmware are laid out. It is read from YAML, names every field with its
  type and byte offset, is written out as the C header the firmware compiles, and converts between
  \<open>double\<close> and the bytes of one field. yaml-cpp is not part of the repository: its functions are the
  record \<open>yaml_api\<close>, an argument, with the exceptions it may throw as \<open>Inl\<close> the message.
\<close>

section \<open>Data\<close>

datatype FieldType = FLOAT32 | FLOAT64 | INT32 | UINT64 | INT16 | UINT8

record FlatField =
  component :: string
  field_name :: string
  field_type :: FieldType
  byte_offset :: nat

record InterfaceSchema =
  schema_valid :: bool
  schema_error :: string
  state_buffer_size :: nat
  command_buffer_size :: nat
  state_flat_fields :: "FlatField list"
  command_flat_fields :: "FlatField list"

definition empty_schema :: InterfaceSchema where
  "empty_schema = \<lparr>schema_valid = False, schema_error = [], state_buffer_size = 0,
     command_buffer_size = 0, state_flat_fields = [], command_flat_fields = []\<rparr>"

record 'n yaml_api =
  yaml_load :: "string \<Rightarrow> string + 'n"
  yaml_get :: "'n \<Rightarrow> string \<Rightarrow> string + 'n option"
  yaml_items :: "'n \<Rightarrow> ('n \<times> 'n) list"
  yaml_string :: "'n \<Rightarrow> string + string"

section \<open>Parsing\<close>

definition parse_field_type :: "string \<Rightarrow> FieldType \<times> string" where
  "parse_field_type type_str =
     (if type_str = ''float32'' then (FLOAT32, [])
      else if type_str = ''float64'' \<or> type_str = ''double'' then (FLOAT64, [])
      else if type_str = ''int32'' then (INT32, [])
      else if type_str = ''uint64'' then (UINT64, [])
      else if type_str = ''int16'' then (INT16, [])
      else if type_str = ''uint8'' then (UINT8, [])
      else (FLOAT32, ''Unknown type: '' @ type_str))"

definition field_byte_size :: "FieldType \<Rightarrow> nat" where
  "field_byte_size ty =
     (case ty of FLOAT32 \<Rightarrow> 4 | FLOAT64 \<Rightarrow> 8 | INT32 \<Rightarrow> 4 | UINT64 \<Rightarrow> 8 | INT16 \<Rightarrow> 2 | UINT8 \<Rightarrow> 1)"

text \<open>The vector and the running size are updated as the loop goes, so they keep what was parsed
  when a field is rejected or yaml-cpp throws.\<close>

datatype outcome = Parsed | Rejected string | Threw string

fun parse_component_fields ::
  "'n yaml_api \<Rightarrow> ('n \<times> 'n) list \<Rightarrow> string \<Rightarrow> FlatField list \<times> nat \<Rightarrow> (FlatField list \<times> nat) \<times> outcome"
where
  "parse_component_fields y [] name acc = (acc, Parsed)"
| "parse_component_fields y ((k, v) # items) name (flds, buffer_size) =
     (case yaml_string y k of
        Inl e \<Rightarrow> ((flds, buffer_size), Threw e)
      | Inr field \<Rightarrow>
          (case yaml_string y v of
             Inl e \<Rightarrow> ((flds, buffer_size), Threw e)
           | Inr type_str \<Rightarrow>
               let (ty, type_error) = parse_field_type type_str in
               if type_error \<noteq> [] then
                 ((flds, buffer_size),
                  Rejected (''Field '' @ [CHR 0x27] @ field @ [CHR 0x27] @ '' in component '' @
                    [CHR 0x27] @ name @ [CHR 0x27] @ '': '' @ type_error))
               else
                 parse_component_fields y items name
                   (flds @ [\<lparr>component = name, field_name = field, field_type = ty,
                               byte_offset = buffer_size\<rparr>],
                    buffer_size + field_byte_size ty)))"

fun parse_interfaces ::
  "'n yaml_api \<Rightarrow> ('n \<times> 'n) list \<Rightarrow> FlatField list \<times> nat \<Rightarrow> (FlatField list \<times> nat) \<times> outcome"
where
  "parse_interfaces y [] acc = (acc, Parsed)"
| "parse_interfaces y ((k, v) # comps) acc =
     (case yaml_string y k of
        Inl e \<Rightarrow> (acc, Threw e)
      | Inr name \<Rightarrow>
          (case parse_component_fields y (yaml_items y v) name acc of
             (acc, Parsed) \<Rightarrow> parse_interfaces y comps acc
           | (acc, bad) \<Rightarrow> (acc, bad)))"

definition with_error :: "string \<Rightarrow> InterfaceSchema \<Rightarrow> InterfaceSchema" where
  "with_error e s = s\<lparr>schema_error := e\<rparr>"

definition yaml_error :: "string \<Rightarrow> string" where
  "yaml_error e = ''YAML parse error: '' @ e"

definition parse_section ::
  "'n yaml_api \<Rightarrow> 'n \<Rightarrow> (FlatField list \<times> nat \<Rightarrow> InterfaceSchema) \<Rightarrow> (InterfaceSchema \<Rightarrow> InterfaceSchema)
     \<Rightarrow> InterfaceSchema" where
  "parse_section y node store continue =
     (case parse_interfaces y (yaml_items y node) ([], 0) of
        (acc, Parsed) \<Rightarrow> continue (store acc)
      | (acc, Rejected e) \<Rightarrow> with_error e (store acc)
      | (acc, Threw e) \<Rightarrow> with_error (yaml_error e) (store acc))"

definition from_yaml :: "'n yaml_api \<Rightarrow> string \<Rightarrow> InterfaceSchema" where
  "from_yaml y text =
     (case yaml_load y text of
        Inl e \<Rightarrow> with_error (yaml_error e) empty_schema
      | Inr root \<Rightarrow>
          (case yaml_get y root ''state_interfaces'' of
             Inl e \<Rightarrow> with_error (yaml_error e) empty_schema
           | Inr None \<Rightarrow> with_error (''Missing '' @ [CHR 0x27] @ ''state_interfaces'' @ [CHR 0x27] @
                           '' in schema'') empty_schema
           | Inr (Some states) \<Rightarrow>
               (case yaml_get y root ''command_interfaces'' of
                  Inl e \<Rightarrow> with_error (yaml_error e) empty_schema
                | Inr None \<Rightarrow> with_error (''Missing '' @ [CHR 0x27] @ ''command_interfaces'' @ [CHR 0x27] @
                                '' in schema'') empty_schema
                | Inr (Some commands) \<Rightarrow>
                    parse_section y states
                      (\<lambda>(fs, n). empty_schema\<lparr>state_flat_fields := fs, state_buffer_size := n\<rparr>)
                      (\<lambda>s. parse_section y commands
                         (\<lambda>(fs, n). s\<lparr>command_flat_fields := fs, command_buffer_size := n\<rparr>)
                         (\<lambda>s. s\<lparr>schema_valid := True\<rparr>)))))"

text \<open>\<open>content\<close> is what the file holds, \<open>None\<close> when it cannot be opened.\<close>

definition from_yaml_file :: "'n yaml_api \<Rightarrow> string option \<Rightarrow> string \<Rightarrow> InterfaceSchema" where
  "from_yaml_file y content file_path =
     (case content of
        None \<Rightarrow> with_error (''Cannot open file: '' @ file_path) empty_schema
      | Some text \<Rightarrow> from_yaml y text)"

section \<open>The generated header\<close>

definition field_type_to_c_type :: "FieldType \<Rightarrow> string" where
  "field_type_to_c_type ty =
     (case ty of FLOAT32 \<Rightarrow> ''float'' | FLOAT64 \<Rightarrow> ''double'' | INT32 \<Rightarrow> ''int32_t''
      | UINT64 \<Rightarrow> ''uint64_t'' | INT16 \<Rightarrow> ''int16_t'' | UINT8 \<Rightarrow> ''uint8_t'')"

definition nl :: string where "nl = [CHR 0x0A]"

definition c_member :: "FlatField \<Rightarrow> string" where
  "c_member f = ''  '' @ field_type_to_c_type (field_type f) @ '' '' @ component f @ ''_'' @
     field_name f @ '';'' @ nl"

definition c_guard :: string where "c_guard = ''ZENBEDDED_SCHEMA__GENERATED__INTERFACE_DATA_H_''"

definition c_header :: "InterfaceSchema \<Rightarrow> string" where
  "c_header s =
     ''#ifndef '' @ c_guard @ nl @ ''#define '' @ c_guard @ nl @ nl @
     ''#include <stdint.h>'' @ nl @ nl @
     ''#define ZENBEDDED_STATE_BYTE_SIZE '' @ fmt_u (state_buffer_size s) @ nl @
     ''#define ZENBEDDED_COMMAND_BYTE_SIZE '' @ fmt_u (command_buffer_size s) @ nl @ nl @
     ''#pragma pack(push, 1)'' @ nl @ ''typedef struct'' @ nl @ ''{'' @ nl @
     concat (map c_member (state_flat_fields s)) @
     ''} zenbedded_state_t;'' @ nl @ nl @ ''typedef struct'' @ nl @ ''{'' @ nl @
     concat (map c_member (command_flat_fields s)) @
     ''} zenbedded_command_t;'' @ nl @ ''#pragma pack(pop)'' @ nl @ nl @
     ''#endif  // '' @ c_guard @ nl"

text \<open>The result and, when the file could be opened, what is written to it.\<close>

definition write_c_header :: "InterfaceSchema \<Rightarrow> bool \<Rightarrow> bool \<times> string option" where
  "write_c_header s open_ok =
     (if \<not> schema_valid s then (False, None)
      else if \<not> open_ok then (False, None)
      else (True, Some (c_header s)))"

section \<open>Fields\<close>

definition decode_field :: "FieldType \<Rightarrow> bytes \<Rightarrow> nat \<Rightarrow> f64 option" where
  "decode_field ty buffer off =
     (case ty of
        FLOAT32 \<Rightarrow> map_option (\<lambda>bs. float_to_double (of_le32 bs)) (mem_read buffer off 4)
      | FLOAT64 \<Rightarrow> map_option of_le64 (mem_read buffer off 8)
      | INT32 \<Rightarrow> map_option (\<lambda>bs. int_to_double (sint (of_le32 bs))) (mem_read buffer off 4)
      | UINT64 \<Rightarrow> map_option (\<lambda>bs. int_to_double (uint (of_le64 bs))) (mem_read buffer off 8)
      | INT16 \<Rightarrow> map_option (\<lambda>bs. int_to_double (sint (of_le16 bs))) (mem_read buffer off 2)
      | UINT8 \<Rightarrow> map_option (\<lambda>bs. int_to_double (uint (hd bs))) (mem_read buffer off 1))"

definition read_state_field :: "InterfaceSchema \<Rightarrow> bytes \<Rightarrow> nat \<Rightarrow> f64 option" where
  "read_state_field s buffer field_index =
     (if field_index \<ge> length (state_flat_fields s) then Some 0
      else
        let f = state_flat_fields s ! field_index
        in decode_field (field_type f) buffer (byte_offset f))"

definition read_command_field :: "InterfaceSchema \<Rightarrow> bytes \<Rightarrow> nat \<Rightarrow> f64 option" where
  "read_command_field s buffer field_index =
     (if field_index \<ge> length (command_flat_fields s) then Some 0
      else
        let f = command_flat_fields s ! field_index
        in decode_field (field_type f) buffer (byte_offset f))"

definition encode_field :: "FieldType \<Rightarrow> f64 \<Rightarrow> bytes option" where
  "encode_field ty value =
     (case ty of
        FLOAT32 \<Rightarrow> Some (le32 (double_to_float value))
      | FLOAT64 \<Rightarrow> Some (le64 value)
      | INT32 \<Rightarrow> map_option (\<lambda>i. le32 (word_of_int i)) (double_to_int (- (2 ^ 31)) (2 ^ 31 - 1) value)
      | UINT64 \<Rightarrow> map_option (\<lambda>i. le64 (word_of_int i)) (double_to_int 0 (2 ^ 64 - 1) value)
      | INT16 \<Rightarrow> map_option (\<lambda>i. le16 (word_of_int i)) (double_to_int (- (2 ^ 15)) (2 ^ 15 - 1) value)
      | UINT8 \<Rightarrow> map_option (\<lambda>i. [word_of_int i]) (double_to_int 0 (2 ^ 8 - 1) value))"

definition write_command_field :: "InterfaceSchema \<Rightarrow> bytes \<Rightarrow> nat \<Rightarrow> f64 \<Rightarrow> bytes option" where
  "write_command_field s buffer field_index value =
     (if field_index \<ge> length (command_flat_fields s) then Some buffer
      else
        let f = command_flat_fields s ! field_index
        in Option.bind (encode_field (field_type f) value) (mem_write buffer (byte_offset f)))"

end
