(* ===== verification/Schema_Properties.thy ===== *)
theory Schema_Properties
  imports Interface_Schema
begin

text \<open>
  What parsing accepts; the layout it computes is that of packed structs, in which fields do not
  overlap; and writing and reading a field are inverse up to what its type can hold.
\<close>

section \<open>Packed layouts\<close>

definition field_sizes :: "FlatField list \<Rightarrow> nat list" where
  "field_sizes fs = map (\<lambda>f. field_byte_size (field_type f)) fs"

definition packed :: "FlatField list \<Rightarrow> nat \<Rightarrow> bool" where
  "packed fs n \<longleftrightarrow> n = sum_list (field_sizes fs) \<and>
     (\<forall>i < length fs. byte_offset (fs ! i) = sum_list (field_sizes (take i fs)))"

lemma packed_Nil [simp]: "packed [] 0"
  by (simp add: packed_def field_sizes_def)

lemma packed_snoc:
  "packed fs n \<Longrightarrow> byte_offset f = n \<Longrightarrow> packed (fs @ [f]) (n + field_byte_size (field_type f))"
  by (auto simp: packed_def field_sizes_def nth_append less_Suc_eq)

lemma parse_component_fields_packed:
  "parse_component_fields y items name acc = (acc', out) \<Longrightarrow> packed (fst acc) (snd acc) \<Longrightarrow>
   packed (fst acc') (snd acc')"
proof (induction y items name acc rule: parse_component_fields.induct)
  case (2 y k v items name fs n)
  show ?case
  proof (cases "\<exists>f ts. yaml_string y k = Inr f \<and> yaml_string y v = Inr ts \<and>
      snd (parse_field_type ts) = []")
    case True
    then obtain f ts where ft: "yaml_string y k = Inr f" "yaml_string y v = Inr ts"
      "snd (parse_field_type ts) = []" by blast
    obtain ty where ty: "parse_field_type ts = (ty, [])" using ft(3) by (cases "parse_field_type ts") auto
    show ?thesis
      using 2(2) ft ty packed_snoc [of fs n "\<lparr>component = name, field_name = f, field_type = ty, byte_offset = n\<rparr>"] 2(3)
      by (auto intro!: 2(1) [OF ft(1,2) ty [symmetric]])
  next
    case False
    with 2(2,3) show ?thesis by (auto split: sum.splits prod.splits if_splits)
  qed
qed auto

lemma parse_interfaces_packed:
  "parse_interfaces y comps acc = (acc', out) \<Longrightarrow> packed (fst acc) (snd acc) \<Longrightarrow>
   packed (fst acc') (snd acc')"
proof (induction y comps acc rule: parse_interfaces.induct)
  case (2 y k v comps acc)
  show ?case
  proof (cases "yaml_string y k")
    case (Inl e)
    with 2 show ?thesis by simp
  next
    case (Inr name)
    obtain acc1 o1 where p: "parse_component_fields y (yaml_items y v) name acc = (acc1, o1)"
      by fastforce
    note pc = parse_component_fields_packed [OF p "2.prems"(2)]
    show ?thesis
    proof (cases o1)
      case Parsed
      with 2 Inr p pc show ?thesis by (cases acc1) auto
    qed (use 2 Inr p pc in auto)
  qed
qed auto

lemma from_yaml_packed:
  "packed (state_flat_fields (from_yaml y text)) (state_buffer_size (from_yaml y text)) \<and>
   packed (command_flat_fields (from_yaml y text)) (command_buffer_size (from_yaml y text))"
proof -
  have "packed (fst (fst (parse_interfaces y items ([], 0)))) (snd (fst (parse_interfaces y items ([], 0))))"
    for items
    using parse_interfaces_packed [of y items "([], 0)"] by (metis fst_conv packed_Nil snd_conv surj_pair)
  then have *: "\<And>items fs n out. parse_interfaces y items ([], 0) = ((fs, n), out) \<Longrightarrow> packed fs n"
    by (metis fst_conv snd_conv)
  show ?thesis
    by (auto simp: from_yaml_def parse_section_def with_error_def empty_schema_def
        split: sum.splits option.splits prod.splits outcome.splits dest!: *)
qed

text \<open>Consequences: fields lie inside the buffer and apart from each other.\<close>

lemma sum_take_Suc:
  "i < length fs \<Longrightarrow> sum_list (field_sizes (take (Suc i) fs)) =
     sum_list (field_sizes (take i fs)) + field_byte_size (field_type (fs ! i))"
  by (simp add: take_Suc_conv_app_nth field_sizes_def)

lemma sum_take_mono:
  assumes "i \<le> j"
  shows "sum_list (field_sizes (take i fs)) \<le> sum_list (field_sizes (take j fs))"
proof -
  have "take j fs = take i fs @ take (j - i) (drop i fs)"
    using assms by (metis le_add_diff_inverse take_add)
  then show ?thesis by (simp add: field_sizes_def)
qed

lemma packed_in_bounds:
  "packed fs n \<Longrightarrow> i < length fs \<Longrightarrow> byte_offset (fs ! i) + field_byte_size (field_type (fs ! i)) \<le> n"
  using sum_take_Suc [of i fs] sum_take_mono [of "Suc i" "length fs" fs] by (simp add: packed_def)

lemma packed_apart:
  "packed fs n \<Longrightarrow> i < j \<Longrightarrow> j < length fs \<Longrightarrow>
   byte_offset (fs ! i) + field_byte_size (field_type (fs ! i)) \<le> byte_offset (fs ! j)"
  using sum_take_Suc [of i fs] sum_take_mono [of "Suc i" j fs] by (simp add: packed_def)

lemma packed_disjoint:
  assumes "packed fs n" "i < length fs" "j < length fs" "i \<noteq> j"
  shows "byte_offset (fs ! j) + field_byte_size (field_type (fs ! j)) \<le> byte_offset (fs ! i) \<or>
    byte_offset (fs ! i) + field_byte_size (field_type (fs ! i)) \<le> byte_offset (fs ! j)"
  using packed_apart [OF assms(1), of i j] packed_apart [OF assms(1), of j i] assms(2-4)
  by (cases "i < j") auto

section \<open>Fields\<close>

lemma sint_word_of_int_id:
  "- (2 ^ 31) \<le> i \<Longrightarrow> i \<le> 2 ^ 31 - 1 \<Longrightarrow> sint (word_of_int i :: 32 word) = i"
  by (simp add: signed_of_int signed_take_bit_int_eq_self)

lemma sint16_word_of_int_id:
  "- (2 ^ 15) \<le> i \<Longrightarrow> i \<le> 2 ^ 15 - 1 \<Longrightarrow> sint (word_of_int i :: 16 word) = i"
  by (simp add: signed_of_int signed_take_bit_int_eq_self)

lemma uint64_word_of_int_id: "0 \<le> i \<Longrightarrow> i \<le> 2 ^ 64 - 1 \<Longrightarrow> uint (word_of_int i :: 64 word) = i"
  by (simp add: unsigned_of_int take_bit_int_eq_self)

lemma uint8_word_of_int_id: "0 \<le> i \<Longrightarrow> i \<le> 2 ^ 8 - 1 \<Longrightarrow> uint (word_of_int i :: 8 word) = i"
  by (simp add: unsigned_of_int take_bit_int_eq_self)

text \<open>What a field of a type keeps of a value, \<open>None\<close> when the conversion is undefined.\<close>

definition field_value :: "FieldType \<Rightarrow> f64 \<Rightarrow> f64 option" where
  "field_value ty v =
     (case ty of
        FLOAT32 \<Rightarrow> Some (float_to_double (double_to_float v))
      | FLOAT64 \<Rightarrow> Some v
      | INT32 \<Rightarrow> map_option int_to_double (double_to_int (- (2 ^ 31)) (2 ^ 31 - 1) v)
      | UINT64 \<Rightarrow> map_option int_to_double (double_to_int 0 (2 ^ 64 - 1) v)
      | INT16 \<Rightarrow> map_option int_to_double (double_to_int (- (2 ^ 15)) (2 ^ 15 - 1) v)
      | UINT8 \<Rightarrow> map_option int_to_double (double_to_int 0 (2 ^ 8 - 1) v))"

lemma encode_field_length: "encode_field ty v = Some bs \<Longrightarrow> length bs = field_byte_size ty"
  by (auto simp: encode_field_def field_byte_size_def split: FieldType.splits)

lemma encode_field_None: "encode_field ty v = None \<longleftrightarrow> field_value ty v = None"
  by (auto simp: encode_field_def field_value_def split: FieldType.splits)

lemma decode_encode_field:
  assumes "encode_field ty v = Some bs" "mem_read buf off (field_byte_size ty) = Some bs"
  shows "decode_field ty buf off = field_value ty v"
proof (cases ty)
  case INT32
  with assms double_to_int_range [of "- (2 ^ 31)" "2 ^ 31 - 1" v] show ?thesis
    by (auto simp: encode_field_def decode_field_def field_value_def field_byte_size_def
        sint_word_of_int_id)
next
  case UINT64
  with assms double_to_int_range [of 0 "2 ^ 64 - 1" v] show ?thesis
    by (auto simp: encode_field_def decode_field_def field_value_def field_byte_size_def
        uint64_word_of_int_id)
next
  case INT16
  with assms double_to_int_range [of "- (2 ^ 15)" "2 ^ 15 - 1" v] show ?thesis
    by (auto simp: encode_field_def decode_field_def field_value_def field_byte_size_def
        sint16_word_of_int_id)
next
  case UINT8
  with assms double_to_int_range [of 0 "2 ^ 8 - 1" v] show ?thesis
    by (auto simp: encode_field_def decode_field_def field_value_def field_byte_size_def
        uint8_word_of_int_id)
qed (use assms in \<open>auto simp: encode_field_def decode_field_def field_value_def field_byte_size_def\<close>)

lemma decode_field_cong:
  "mem_read buf' off (field_byte_size ty) = mem_read buf off (field_byte_size ty) \<Longrightarrow>
   decode_field ty buf' off = decode_field ty buf off"
  by (simp add: decode_field_def field_byte_size_def split: FieldType.splits)

lemma decode_field_total:
  "off + field_byte_size ty \<le> length buf \<Longrightarrow> \<exists>v. decode_field ty buf off = Some v"
  by (simp add: decode_field_def field_byte_size_def mem_read_def split: FieldType.splits)

text \<open>The values a type can hold come back unchanged.\<close>

definition field_holds :: "FieldType \<Rightarrow> f64 \<Rightarrow> bool" where
  "field_holds ty v \<longleftrightarrow>
     (case ty of
        FLOAT32 \<Rightarrow> (\<exists>x. of_f32 x \<noteq> NaN \<and> v = float_to_double x)
      | FLOAT64 \<Rightarrow> True
      | INT32 \<Rightarrow> (\<exists>i. - (2 ^ 31) \<le> i \<and> i \<le> 2 ^ 31 - 1 \<and> v = int_to_double i)
      | UINT64 \<Rightarrow> (\<exists>i. 0 \<le> i \<and> i < 2 ^ 53 \<and> v = int_to_double i)
      | INT16 \<Rightarrow> (\<exists>i. - (2 ^ 15) \<le> i \<and> i \<le> 2 ^ 15 - 1 \<and> v = int_to_double i)
      | UINT8 \<Rightarrow> (\<exists>i. 0 \<le> i \<and> i \<le> 2 ^ 8 - 1 \<and> v = int_to_double i))"

lemma field_value_exact: "field_holds ty v \<Longrightarrow> field_value ty v = Some v"
  by (auto simp: field_holds_def field_value_def double_to_float_to_double double_to_int_of_int
      split: FieldType.splits)

lemma write_command_field_effect:
  assumes "packed (command_flat_fields s) (command_buffer_size s)"
    and "length buf = command_buffer_size s" and "i < length (command_flat_fields s)"
  shows "(case write_command_field s buf i v of
      None \<Rightarrow> field_value (field_type (command_flat_fields s ! i)) v = None
    | Some buf' \<Rightarrow> length buf' = length buf \<and>
        read_command_field s buf' i = field_value (field_type (command_flat_fields s ! i)) v \<and>
        read_command_field s buf' i \<noteq> None \<and>
        (\<forall>j < length (command_flat_fields s). j \<noteq> i \<longrightarrow>
           read_command_field s buf' j = read_command_field s buf j))"
proof -
  let ?f = "command_flat_fields s ! i"
  let ?ty = "field_type ?f" and ?off = "byte_offset ?f"
  have bnd: "?off + field_byte_size ?ty \<le> length buf"
    using packed_in_bounds [OF assms(1,3)] assms(2) by simp
  show ?thesis
  proof (cases "encode_field ?ty v")
    case None
    then show ?thesis
      using assms(3) by (simp add: write_command_field_def encode_field_None [symmetric])
  next
    case (Some bs)
    have len: "length bs = field_byte_size ?ty" using Some by (rule encode_field_length)
    obtain buf' where w: "mem_write buf ?off bs = Some buf'" using bnd len by (simp add: mem_write_def)
    have "decode_field ?ty buf' ?off = field_value ?ty v"
      using decode_encode_field [OF Some] mem_read_write_same [OF w] len by simp
    moreover have "field_value ?ty v \<noteq> None" using Some encode_field_None [of ?ty v] by simp
    moreover have "decode_field (field_type (command_flat_fields s ! j)) buf'
        (byte_offset (command_flat_fields s ! j)) =
      decode_field (field_type (command_flat_fields s ! j)) buf (byte_offset (command_flat_fields s ! j))"
      if "j < length (command_flat_fields s)" "j \<noteq> i" for j
      using packed_disjoint [OF assms(1,3) that(1)] that(2) len
      by (intro decode_field_cong mem_read_write_other [OF w]) auto
    ultimately show ?thesis
      using w Some assms(3) mem_write_length [OF w]
      by (simp add: write_command_field_def read_command_field_def Let_def)
  qed
qed

section \<open>What parsing accepts\<close>

definition entry_ok :: "'n yaml_api \<Rightarrow> 'n \<times> 'n \<Rightarrow> bool" where
  "entry_ok y kv \<longleftrightarrow>
     (case (yaml_string y (fst kv), yaml_string y (snd kv)) of
        (Inr f, Inr ts) \<Rightarrow> snd (parse_field_type ts) = [] | _ \<Rightarrow> False)"

definition entry_of :: "'n yaml_api \<Rightarrow> string \<Rightarrow> 'n \<times> 'n \<Rightarrow> string \<times> string \<times> FieldType" where
  "entry_of y name kv =
     (name, projr (yaml_string y (fst kv)), fst (parse_field_type (projr (yaml_string y (snd kv)))))"

definition section_ok :: "'n yaml_api \<Rightarrow> 'n \<Rightarrow> bool" where
  "section_ok y node \<longleftrightarrow>
     list_all (\<lambda>c. isl (yaml_string y (fst c)) = False \<and> list_all (entry_ok y) (yaml_items y (snd c)))
       (yaml_items y node)"

definition section_entries :: "'n yaml_api \<Rightarrow> 'n \<Rightarrow> (string \<times> string \<times> FieldType) list" where
  "section_entries y node =
     concat (map (\<lambda>c. map (entry_of y (projr (yaml_string y (fst c)))) (yaml_items y (snd c)))
       (yaml_items y node))"

definition field_key :: "FlatField \<Rightarrow> string \<times> string \<times> FieldType" where
  "field_key f = (component f, field_name f, field_type f)"

lemma parse_component_fields_accepts:
  "parse_component_fields y items name acc = (acc', out) \<Longrightarrow>
   (out = Parsed \<longleftrightarrow> list_all (entry_ok y) items) \<and>
   (out = Parsed \<longrightarrow> map field_key (fst acc') = map field_key (fst acc) @ map (entry_of y name) items) \<and>
   (\<forall>e. out = Rejected e \<longrightarrow> e \<noteq> [])"
proof (induction y items name acc rule: parse_component_fields.induct)
  case (2 y k v items name fs n)
  show ?case
  proof (cases "entry_ok y (k, v)")
    case True
    then obtain f ts where ft: "yaml_string y k = Inr f" "yaml_string y v = Inr ts"
      "snd (parse_field_type ts) = []" by (auto simp: entry_ok_def split: sum.splits)
    obtain ty where ty: "parse_field_type ts = (ty, [])" using ft(3) by (cases "parse_field_type ts") auto
    let ?f = "\<lparr>component = name, field_name = f, field_type = ty, byte_offset = n\<rparr>"
    have "parse_component_fields y items name (fs @ [?f], n + field_byte_size ty) = (acc', out)"
      using 2(2) ft ty by simp
    from 2(1) [OF ft(1,2) ty [symmetric] refl _ this] True ft ty show ?thesis
      by (simp add: field_key_def entry_of_def)
  next
    case False
    with 2(2) show ?thesis
      by (auto simp: entry_ok_def split: sum.splits prod.splits if_splits)
  qed
qed auto

lemma parse_interfaces_accepts:
  "parse_interfaces y comps acc = (acc', out) \<Longrightarrow>
   (out = Parsed \<longleftrightarrow> list_all (\<lambda>c. isl (yaml_string y (fst c)) = False \<and>
      list_all (entry_ok y) (yaml_items y (snd c))) comps) \<and>
   (out = Parsed \<longrightarrow> map field_key (fst acc') = map field_key (fst acc) @
      concat (map (\<lambda>c. map (entry_of y (projr (yaml_string y (fst c)))) (yaml_items y (snd c))) comps)) \<and>
   (\<forall>e. out = Rejected e \<longrightarrow> e \<noteq> [])"
proof (induction y comps acc rule: parse_interfaces.induct)
  case (2 y k v comps acc)
  show ?case
  proof (cases "yaml_string y k")
    case (Inl e)
    with 2 show ?thesis by auto
  next
    case (Inr name)
    obtain acc1 o1 where p: "parse_component_fields y (yaml_items y v) name acc = (acc1, o1)"
      by fastforce
    note pc = parse_component_fields_accepts [OF p]
    show ?thesis
    proof (cases o1)
      case Parsed
      with 2 Inr p pc show ?thesis by (cases acc1) auto
    qed (use 2 Inr p pc in auto)
  qed
qed auto

lemma parse_section_accepts:
  assumes "\<And>fs n. schema_valid (store (fs, n)) = False"
  shows "schema_valid (parse_section y node store continue) \<longleftrightarrow>
     (\<exists>fs n. section_ok y node \<and> map field_key fs = section_entries y node \<and>
        parse_interfaces y (yaml_items y node) ([], 0) = ((fs, n), Parsed) \<and>
        schema_valid (continue (store (fs, n))))"
proof -
  obtain fs n out where p: "parse_interfaces y (yaml_items y node) ([], 0) = ((fs, n), out)"
    by (metis surj_pair)
  from parse_interfaces_accepts [OF p] show ?thesis
    using assms p
    by (cases out) (auto simp: parse_section_def with_error_def section_ok_def section_entries_def)
qed

section \<open>Properties\<close>

text \<open>C28: parsing accepts exactly the well-formed schemas: the text loads, both sections are present,
  and in both every component name, field name and type is a scalar and every type is known.\<close>

theorem from_yaml_accepts_iff:
  "schema_valid (from_yaml y text) \<longleftrightarrow>
     (\<exists>root states commands. yaml_load y text = Inr root \<and>
        yaml_get y root ''state_interfaces'' = Inr (Some states) \<and>
        yaml_get y root ''command_interfaces'' = Inr (Some commands) \<and>
        section_ok y states \<and> section_ok y commands)"
proof (cases "\<exists>root states commands. yaml_load y text = Inr root \<and>
    yaml_get y root ''state_interfaces'' = Inr (Some states) \<and>
    yaml_get y root ''command_interfaces'' = Inr (Some commands)")
  case True
  then obtain root st cm where r: "yaml_load y text = Inr root"
    "yaml_get y root ''state_interfaces'' = Inr (Some st)"
    "yaml_get y root ''command_interfaces'' = Inr (Some cm)" by blast
  have acc: "\<exists>fs n. map field_key fs = section_entries y node \<and>
      parse_interfaces y (yaml_items y node) ([], 0) = ((fs, n), Parsed)" if "section_ok y node" for node
  proof -
    obtain fs n out where p: "parse_interfaces y (yaml_items y node) ([], 0) = ((fs, n), out)"
      by (metis surj_pair)
    from parse_interfaces_accepts [OF p] that p show ?thesis
      by (auto simp: section_ok_def section_entries_def)
  qed
  show ?thesis
    using r acc [of st] acc [of cm]
    by (auto simp: from_yaml_def parse_section_accepts empty_schema_def)
next
  case False
  then show ?thesis
    by (auto simp: from_yaml_def with_error_def empty_schema_def split: sum.splits option.splits)
qed

text \<open>A YAML tree, as the parser sees one: the scalars and maps of the schema files.\<close>

datatype ynode = YScalar string | YMap "(ynode \<times> ynode) list"

definition tree_api :: "ynode \<Rightarrow> ynode yaml_api" where
  "tree_api root =
     \<lparr>yaml_load = (\<lambda>_. Inr root),
      yaml_get = (\<lambda>n k. case n of YScalar _ \<Rightarrow> Inl ''bad subscript''
                       | YMap kvs \<Rightarrow> Inr (map_of kvs (YScalar k))),
      yaml_items = (\<lambda>n. case n of YScalar _ \<Rightarrow> [] | YMap kvs \<Rightarrow> kvs),
      yaml_string = (\<lambda>n. case n of YScalar s \<Rightarrow> Inr s | YMap _ \<Rightarrow> Inl ''bad conversion'')\<rparr>"

definition sample_yaml :: ynode where
  "sample_yaml = YMap
     [(YScalar ''state_interfaces'', YMap
        [(YScalar ''arm'', YMap [(YScalar ''position'', YScalar ''float32''),
                                 (YScalar ''ticks'', YScalar ''uint64'')])]),
      (YScalar ''command_interfaces'', YMap
        [(YScalar ''arm'', YMap [(YScalar ''mode'', YScalar ''uint8''),
                                 (YScalar ''velocity'', YScalar ''double''),
                                 (YScalar ''current'', YScalar ''int16'')])])]"

definition sample_schema :: InterfaceSchema where
  "sample_schema = from_yaml (tree_api sample_yaml) []"

lemma sample_schema_eq: "sample_schema =
  \<lparr>schema_valid = True, schema_error = [], state_buffer_size = 12, command_buffer_size = 11,
   state_flat_fields =
     [\<lparr>component = ''arm'', field_name = ''position'', field_type = FLOAT32, byte_offset = 0\<rparr>,
      \<lparr>component = ''arm'', field_name = ''ticks'', field_type = UINT64, byte_offset = 4\<rparr>],
   command_flat_fields =
     [\<lparr>component = ''arm'', field_name = ''mode'', field_type = UINT8, byte_offset = 0\<rparr>,
      \<lparr>component = ''arm'', field_name = ''velocity'', field_type = FLOAT64, byte_offset = 1\<rparr>,
      \<lparr>component = ''arm'', field_name = ''current'', field_type = INT16, byte_offset = 9\<rparr>]\<rparr>"
  by code_simp

lemma sample_schema_packed:
  "packed (command_flat_fields sample_schema) (command_buffer_size sample_schema)"
  using from_yaml_packed [of "tree_api sample_yaml" "[]"] by (simp add: sample_schema_def)

text \<open>the layout of a parsed schema is that of packed structs, whatever the text: every offset is
  the sum of the sizes of the fields before it and the buffer sizes are the sums of all, for states
  and for commands.\<close>

theorem from_yaml_layout_packed:
  "packed (state_flat_fields (from_yaml y text)) (state_buffer_size (from_yaml y text)) \<and>
   packed (command_flat_fields (from_yaml y text)) (command_buffer_size (from_yaml y text))"
  by (rule from_yaml_packed)

text \<open>C29: the fields of a valid schema are those of the text, in its order, in both sections.\<close>

theorem from_yaml_fields_in_order:
  assumes "schema_valid (from_yaml y text)"
  shows "\<exists>root states commands. yaml_load y text = Inr root \<and>
    yaml_get y root ''state_interfaces'' = Inr (Some states) \<and>
    yaml_get y root ''command_interfaces'' = Inr (Some commands) \<and>
    map field_key (state_flat_fields (from_yaml y text)) = section_entries y states \<and>
    map field_key (command_flat_fields (from_yaml y text)) = section_entries y commands"
proof -
  obtain root st cm where r: "yaml_load y text = Inr root"
    "yaml_get y root ''state_interfaces'' = Inr (Some st)"
    "yaml_get y root ''command_interfaces'' = Inr (Some cm)"
    using assms by (auto simp: from_yaml_def with_error_def empty_schema_def
        split: sum.splits option.splits)
  obtain fs n o1 where p: "parse_interfaces y (yaml_items y st) ([], 0) = ((fs, n), o1)"
    by (metis surj_pair)
  obtain gs m o2 where q: "parse_interfaces y (yaml_items y cm) ([], 0) = ((gs, m), o2)"
    by (metis surj_pair)
  have o: "o1 = Parsed" "o2 = Parsed"
    using assms r p q by (auto simp: from_yaml_def parse_section_def with_error_def empty_schema_def
        split: outcome.splits)
  then have "from_yaml y text = \<lparr>schema_valid = True, schema_error = [], state_buffer_size = n,
      command_buffer_size = m, state_flat_fields = fs, command_flat_fields = gs\<rparr>"
    using r p q by (simp add: from_yaml_def parse_section_def empty_schema_def)
  with r o parse_interfaces_accepts [OF p] parse_interfaces_accepts [OF q] show ?thesis
    by (auto simp: section_entries_def)
qed

theorem from_yaml_fields_in_order_witness:
  "\<exists>st cm. map field_key (state_flat_fields sample_schema) = section_entries (tree_api sample_yaml) st \<and>
     map field_key (command_flat_fields sample_schema) = section_entries (tree_api sample_yaml) cm \<and>
     length (command_flat_fields sample_schema) = 3"
  using from_yaml_fields_in_order [of "tree_api sample_yaml" "[]"] sample_schema_eq
  by (auto simp: sample_schema_def)

text \<open>a schema is valid exactly when it carries no error text: every rejection and every exception
  of the YAML library, and a file that cannot be opened, leaves an invalid schema that says why.\<close>

theorem from_yaml_file_error_reported:
  "schema_valid (from_yaml_file y content path) \<longleftrightarrow> schema_error (from_yaml_file y content path) = []"
proof -
  have rej: "e \<noteq> []" if "parse_interfaces y items acc = (acc', Rejected e)" for items acc acc' e
    using parse_interfaces_accepts [OF that] by simp
  have "schema_valid (from_yaml y t) \<longleftrightarrow> schema_error (from_yaml y t) = []" for t
    by (auto simp: from_yaml_def parse_section_def with_error_def yaml_error_def empty_schema_def
        split: sum.splits option.splits prod.splits outcome.splits dest: rej)
  then show ?thesis
    by (simp add: from_yaml_file_def with_error_def empty_schema_def split: option.splits)
qed

text \<open>C31: field access. Writing field \<open>i\<close> of a command buffer of the right size either is undefined,
  which is exactly when the value does not fit the type, or it keeps the size of the buffer, reading
  field \<open>i\<close> gives what the type keeps of the value, and every other field reads as before.\<close>

theorem write_command_field_frame:
  assumes "packed (command_flat_fields s) (command_buffer_size s)"
    and "length buf = command_buffer_size s" and "i < length (command_flat_fields s)"
  shows "case write_command_field s buf i v of
      None \<Rightarrow> field_value (field_type (command_flat_fields s ! i)) v = None
    | Some buf' \<Rightarrow> length buf' = length buf \<and>
        read_command_field s buf' i = field_value (field_type (command_flat_fields s ! i)) v \<and>
        read_command_field s buf' i \<noteq> None \<and>
        (\<forall>j < length (command_flat_fields s). j \<noteq> i \<longrightarrow>
           read_command_field s buf' j = read_command_field s buf j)"
  by (rule write_command_field_effect [OF assms])

theorem write_command_field_frame_witness:
  "case write_command_field sample_schema (replicate 11 0) 1 0x3FF8000000000000 of
     None \<Rightarrow> False
   | Some buf' \<Rightarrow> length buf' = 11 \<and> read_command_field sample_schema buf' 1 = Some 0x3FF8000000000000 \<and>
       read_command_field sample_schema buf' 2 = read_command_field sample_schema (replicate 11 0) 2"
  using write_command_field_frame [OF sample_schema_packed, of "replicate 11 0" 1 "0x3FF8000000000000"]
  by (auto simp: sample_schema_eq field_value_def split: option.splits)

text \<open>C32: no loss where none is necessary. A value that the field's type can represent (any \<open>double\<close>, a
  widened \<open>float\<close>, an integer in range, for \<open>uint64\<close> below \<open>2^53\<close>) is written and reads back bit for
  bit.\<close>

theorem command_field_roundtrip:
  assumes "packed (command_flat_fields s) (command_buffer_size s)"
    and "length buf = command_buffer_size s" and "i < length (command_flat_fields s)"
    and "field_holds (field_type (command_flat_fields s ! i)) v"
  shows "\<exists>buf'. write_command_field s buf i v = Some buf' \<and> read_command_field s buf' i = Some v"
  using write_command_field_effect [OF assms(1-3), of v] field_value_exact [OF assms(4)]
  by (auto split: option.splits)

theorem command_field_roundtrip_witness:
  "\<exists>buf'. write_command_field sample_schema (replicate 11 0) 2 (int_to_double (- 7)) = Some buf' \<and>
     read_command_field sample_schema buf' 2 = Some (int_to_double (- 7))"
proof -
  have "field_holds INT16 (int_to_double (- 7))"
    unfolding field_holds_def by (simp, rule exI [of _ "- 7"]) simp
  then show ?thesis
    by (intro command_field_roundtrip [OF sample_schema_packed]) (simp_all add: sample_schema_eq)
qed

text \<open>a command that does not fit an integer field is undefined behaviour, not an error: 300 for a
  \<open>uint8\<close> field.\<close>

theorem write_out_of_range_undefined:
  "write_command_field sample_schema (replicate 11 0) 0 0x4072C00000000000 = None"
  by (simp add: sample_schema_eq write_command_field_def encode_field_def fp_eval)

end
