(* ===== verification/Zenbedded_Hardware.thy ===== *)
theory Zenbedded_Hardware
  imports Schema_Properties
begin

text \<open>
  \<open>zenbedded_hardware_interface/zenbedded_hardware.hpp\<close> and \<open>.cpp\<close>: the ros2_control system that
  bridges the Tier 2 structs of the firmware to state and command interfaces. The members of
  \<open>ZenbeddedHardware\<close> are a record. What the framework and zenoh do during a call is an argument:
  whether the base class initialises, which of the zenoh declarations throw, and for which handles
  the non-blocking accessors get their lock. What is put on the command topic is kept in a trace.
\<close>

section \<open>State\<close>

record handle =
  h_component :: string
  h_field :: string
  h_value :: f64

record hardware =
  schema :: InterfaceSchema
  zenoh_endpoint :: string
  zenoh_mode :: string
  state_topic :: string
  command_topic :: string
  session :: bool
  state_sub :: bool
  command_pub :: bool
  state_box :: bytes
  command_buffer :: bytes
  hw_commands :: "f64 list"
  hw_states :: "f64 list"
  state_interfaces :: "handle list"
  command_interfaces :: "handle list"
  command_puts :: "bytes list"

datatype CallbackReturn = SUCCESS | ERROR

definition quiet_NaN :: f64 where "quiet_NaN = 0x7FF8000000000000"

text \<open>\<open>std::vector::resize\<close>.\<close>

definition vec_resize :: "nat \<Rightarrow> 'a \<Rightarrow> 'a list \<Rightarrow> 'a list" where
  "vec_resize n x xs = take n xs @ replicate (n - length xs) x"

definition make_handle :: "FlatField \<Rightarrow> handle" where
  "make_handle f = \<lparr>h_component = component f, h_field = field_name f, h_value = 0\<rparr>"

text \<open>\<open>set_value\<close> and \<open>get_optional\<close> do nothing when the handle's lock is taken.\<close>

definition set_value :: "bool \<Rightarrow> f64 \<Rightarrow> handle \<Rightarrow> handle" where
  "set_value locked v h = (if locked then h\<lparr>h_value := v\<rparr> else h)"

definition get_optional :: "bool \<Rightarrow> handle \<Rightarrow> f64 option" where
  "get_optional locked h = (if locked then Some (h_value h) else None)"

section \<open>Lifecycle\<close>

text \<open>The parameters read by \<open>at\<close>, in order; a missing one leaves the earlier ones assigned.\<close>

definition load_parameters :: "(string \<Rightarrow> string option) \<Rightarrow> hardware \<Rightarrow> bool \<times> hardware" where
  "load_parameters ps h =
     (case ps ''zenoh_endpoint'' of
        None \<Rightarrow> (False, h)
      | Some e \<Rightarrow>
          let h = h\<lparr>zenoh_endpoint := e\<rparr> in
          case ps ''state_topic'' of
            None \<Rightarrow> (False, h)
          | Some st \<Rightarrow>
              let h = h\<lparr>state_topic := st\<rparr> in
              case ps ''command_topic'' of
                None \<Rightarrow> (False, h)
              | Some ct \<Rightarrow>
                  let h = h\<lparr>command_topic := ct\<rparr> in
                  (True, h\<lparr>zenoh_mode := (case ps ''zenoh_mode'' of Some m \<Rightarrow> m | None \<Rightarrow> ''client'')\<rparr>))"

definition on_init ::
  "'n yaml_api \<Rightarrow> (string \<Rightarrow> string option) \<Rightarrow> bool \<Rightarrow> (string \<Rightarrow> string option) \<Rightarrow> hardware
     \<Rightarrow> CallbackReturn \<times> hardware" where
  "on_init y files base_ok params h =
     (if \<not> base_ok then (ERROR, h)
      else
        let (ok, h) = load_parameters params h in
        if \<not> ok then (ERROR, h)
        else
          case params ''schema_path'' of
            None \<Rightarrow> (ERROR, h)
          | Some path \<Rightarrow>
              let h = h\<lparr>schema := from_yaml_file y (files path) path\<rparr> in
              if \<not> schema_valid (schema h) then (ERROR, h)
              else
                let s = schema h;
                    ns = length (state_flat_fields s);
                    nc = length (command_flat_fields s)
                in (SUCCESS,
                    h\<lparr>hw_states := vec_resize ns quiet_NaN (hw_states h),
                      hw_commands := vec_resize nc quiet_NaN (hw_commands h),
                      state_box := replicate (state_buffer_size s) 0,
                      command_buffer := vec_resize (command_buffer_size s) 0 (command_buffer h),
                      state_interfaces := map make_handle (state_flat_fields s),
                      command_interfaces := map make_handle (command_flat_fields s)\<rparr>))"

definition on_export_state_interfaces :: "hardware \<Rightarrow> handle list" where
  "on_export_state_interfaces h = state_interfaces h"

definition on_export_command_interfaces :: "hardware \<Rightarrow> handle list" where
  "on_export_command_interfaces h = command_interfaces h"

record activation =
  config_ok :: bool
  session_ok :: bool
  subscriber_ok :: bool
  publisher_ok :: bool
  handle_locked :: "nat \<Rightarrow> bool"

definition denan :: "f64 list \<Rightarrow> f64 list" where
  "denan vs = map (\<lambda>v. if isnan v then 0 else v) vs"

text \<open>The loop over \<open>hw_states_\<close> (\<open>hw_commands_\<close>): each handle that exists is set to its value.\<close>

definition set_handles :: "(nat \<Rightarrow> bool) \<Rightarrow> f64 list \<Rightarrow> handle list \<Rightarrow> handle list" where
  "set_handles locked vs hs =
     map (\<lambda>i. if i < length vs then set_value (locked i) (vs ! i) (hs ! i) else hs ! i) [0..<length hs]"

definition on_activate :: "activation \<Rightarrow> hardware \<Rightarrow> CallbackReturn \<times> hardware" where
  "on_activate a h =
     (if \<not> config_ok a \<or> \<not> session_ok a then (ERROR, h)
      else
        let h = h\<lparr>session := True\<rparr> in
        if \<not> subscriber_ok a then (ERROR, h)
        else
          let h = h\<lparr>state_sub := True\<rparr> in
          if \<not> publisher_ok a then (ERROR, h)
          else
            let h = h\<lparr>command_pub := True\<rparr>;
                h = h\<lparr>hw_states := denan (hw_states h)\<rparr>;
                h = h\<lparr>state_interfaces :=
                      set_handles (handle_locked a) (hw_states h) (state_interfaces h)\<rparr>;
                h = h\<lparr>hw_commands := denan (hw_commands h)\<rparr>;
                h = h\<lparr>command_interfaces :=
                      set_handles (handle_locked a) (hw_commands h) (command_interfaces h)\<rparr>
            in (SUCCESS, h))"

text \<open>The subscriber's callback.\<close>

definition on_state_sample :: "bytes \<Rightarrow> hardware \<Rightarrow> hardware" where
  "on_state_sample bs h =
     (if length bs \<noteq> state_buffer_size (schema h) then h else h\<lparr>state_box := bs\<rparr>)"

definition on_deactivate :: "hardware \<Rightarrow> CallbackReturn \<times> hardware" where
  "on_deactivate h = (SUCCESS, h\<lparr>state_sub := False, command_pub := False, session := False\<rparr>)"

section \<open>The control cycle\<close>

fun read_loop ::
  "InterfaceSchema \<Rightarrow> bytes \<Rightarrow> (nat \<Rightarrow> bool) \<Rightarrow> nat list \<Rightarrow> hardware \<Rightarrow> hardware option" where
  "read_loop s buf locked [] h = Some h"
| "read_loop s buf locked (i # is) h =
     (case read_state_field s buf i of
        None \<Rightarrow> None
      | Some v \<Rightarrow>
          if i < length (hw_states h) then
            let h = h\<lparr>hw_states := (hw_states h)[i := v]\<rparr>;
                h = (if i < length (state_interfaces h)
                     then h\<lparr>state_interfaces := (state_interfaces h)
                            [i := set_value (locked i) v (state_interfaces h ! i)]\<rparr>
                     else h)
            in read_loop s buf locked is h
          else None)"

text \<open>\<open>box_free\<close>: whether \<open>try_get\<close> obtained the lock of the box.\<close>

definition hw_read :: "bool \<Rightarrow> (nat \<Rightarrow> bool) \<Rightarrow> hardware \<Rightarrow> hardware option" where
  "hw_read box_free locked h =
     (if box_free \<and> length (state_box h) = state_buffer_size (schema h)
      then read_loop (schema h) (state_box h) locked [0..<length (state_flat_fields (schema h))] h
      else Some h)"

definition take_command :: "(nat \<Rightarrow> bool) \<Rightarrow> handle list \<Rightarrow> nat \<Rightarrow> f64 \<Rightarrow> f64" where
  "take_command locked hs i old =
     (if i < length hs then
        (case get_optional (locked i) (hs ! i) of
           Some v \<Rightarrow> if \<not> isnan v then v else old
         | None \<Rightarrow> old)
      else old)"

fun write_loop ::
  "InterfaceSchema \<Rightarrow> (nat \<Rightarrow> bool) \<Rightarrow> handle list \<Rightarrow> nat list \<Rightarrow> f64 list \<times> bytes
     \<Rightarrow> (f64 list \<times> bytes) option" where
  "write_loop s locked hs [] st = Some st"
| "write_loop s locked hs (i # is) (cmds, buf) =
     (if i < length cmds then
        let cmds = cmds[i := take_command locked hs i (cmds ! i)] in
        (case write_command_field s buf i (cmds ! i) of
           None \<Rightarrow> None
         | Some buf \<Rightarrow> write_loop s locked hs is (cmds, buf))
      else None)"

definition hw_write :: "(nat \<Rightarrow> bool) \<Rightarrow> hardware \<Rightarrow> hardware option" where
  "hw_write locked h =
     (if \<not> command_pub h then Some h
      else
        case write_loop (schema h) locked (command_interfaces h)
               [0..<length (command_flat_fields (schema h))] (hw_commands h, command_buffer h) of
          None \<Rightarrow> None
        | Some (cmds, buf) \<Rightarrow>
            Some (h\<lparr>hw_commands := cmds, command_buffer := buf, command_puts := command_puts h @ [buf]\<rparr>))"

section \<open>What the hardware relies on: a buffer of fields\<close>

text \<open>
  The schema as the control cycle uses it: \<open>kept s i v\<close> is what field \<open>i\<close> keeps of \<open>v\<close>. A write
  succeeds iff that is defined, stores it, and disturbs no other field.
\<close>

locale field_store =
  fixes wf :: "'s \<Rightarrow> 'b \<Rightarrow> bool"
    and count :: "'s \<Rightarrow> nat"
    and rd :: "'s \<Rightarrow> 'b \<Rightarrow> nat \<Rightarrow> 'v option"
    and wr :: "'s \<Rightarrow> 'b \<Rightarrow> nat \<Rightarrow> 'v \<Rightarrow> 'b option"
    and kept :: "'s \<Rightarrow> nat \<Rightarrow> 'v \<Rightarrow> 'v option"
  assumes wr_defined: "wf s b \<Longrightarrow> i < count s \<Longrightarrow> kept s i v \<noteq> None \<Longrightarrow>
      \<exists>b'. wr s b i v = Some b' \<and> wf s b' \<and> rd s b' i = kept s i v \<and>
           (\<forall>j < count s. j \<noteq> i \<longrightarrow> rd s b' j = rd s b j)"
    and wr_undefined: "wf s b \<Longrightarrow> i < count s \<Longrightarrow> kept s i v = None \<Longrightarrow> wr s b i v = None"
begin

fun write_all :: "'s \<Rightarrow> 'b \<Rightarrow> nat \<Rightarrow> 'v list \<Rightarrow> 'b option" where
  "write_all s b i [] = Some b"
| "write_all s b i (v # vs) = Option.bind (wr s b i v) (\<lambda>b. write_all s b (Suc i) vs)"

lemma write_all_defined:
  "wf s b \<Longrightarrow> i + length vs \<le> count s \<Longrightarrow> \<forall>k < length vs. kept s (i + k) (vs ! k) \<noteq> None \<Longrightarrow>
   \<exists>b'. write_all s b i vs = Some b' \<and> wf s b' \<and>
     (\<forall>k < length vs. rd s b' (i + k) = kept s (i + k) (vs ! k)) \<and>
     (\<forall>j < i. rd s b' j = rd s b j)"
proof (induction vs arbitrary: b i)
  case Nil
  then show ?case by simp
next
  case (Cons v vs)
  have now: "kept s i v \<noteq> None" using Cons.prems(3) by (metis add.right_neutral length_greater_0_conv list.distinct(1) nth_Cons_0)
  have later: "\<forall>k < length vs. kept s (Suc i + k) (vs ! k) \<noteq> None"
    using Cons.prems(3) by (metis add_Suc_shift length_Cons not_less_eq nth_Cons_Suc)
  obtain b1 where b1: "wr s b i v = Some b1" "wf s b1" "rd s b1 i = kept s i v"
    "\<forall>j < count s. j \<noteq> i \<longrightarrow> rd s b1 j = rd s b j"
    using wr_defined [OF Cons.prems(1) _ now] Cons.prems(2) by auto
  obtain b' where b': "write_all s b1 (Suc i) vs = Some b'" "wf s b'"
    "\<forall>k < length vs. rd s b' (Suc i + k) = kept s (Suc i + k) (vs ! k)"
    "\<forall>j < Suc i. rd s b' j = rd s b1 j"
    using Cons.IH [OF b1(2) _ later] Cons.prems(2) by auto
  have "rd s b' (i + k) = kept s (i + k) ((v # vs) ! k)" if "k < length (v # vs)" for k
    using that b1(3) b'(3,4) by (cases k) auto
  moreover have "rd s b' j = rd s b j" if "j < i" for j
    using that b1(4) b'(4) Cons.prems(2) by auto
  ultimately show ?case using b1(1) b' by auto
qed

lemma write_all_undefined:
  "wf s b \<Longrightarrow> i + length vs \<le> count s \<Longrightarrow> write_all s b i vs = Some b' \<Longrightarrow> k < length vs \<Longrightarrow>
   kept s (i + k) (vs ! k) \<noteq> None"
proof (induction vs arbitrary: b i k)
  case Nil
  then show ?case by simp
next
  case (Cons v vs)
  have now: "kept s i v \<noteq> None"
    using wr_undefined [OF Cons.prems(1), of i v] Cons.prems(2,3) by (cases "kept s i v") auto
  obtain b1 where b1: "wr s b i v = Some b1" "wf s b1"
    using wr_defined [OF Cons.prems(1) _ now] Cons.prems(2) by auto
  show ?case
  proof (cases k)
    case 0
    with now show ?thesis by simp
  next
    case (Suc k')
    with Cons.IH [OF b1(2), of "Suc i" k'] Cons.prems b1(1) show ?thesis by simp
  qed
qed

end

definition command_wf :: "InterfaceSchema \<Rightarrow> bytes \<Rightarrow> bool" where
  "command_wf s buf \<longleftrightarrow> packed (command_flat_fields s) (command_buffer_size s) \<and>
     length buf = command_buffer_size s"

definition command_kept :: "InterfaceSchema \<Rightarrow> nat \<Rightarrow> f64 \<Rightarrow> f64 option" where
  "command_kept s i v = field_value (field_type (command_flat_fields s ! i)) v"

interpretation command_fields: field_store command_wf "\<lambda>s. length (command_flat_fields s)"
  read_command_field write_command_field command_kept
proof
  fix s buf i v
  assume wf: "command_wf s buf" and i: "i < length (command_flat_fields s)"
  then have p: "packed (command_flat_fields s) (command_buffer_size s)" "length buf = command_buffer_size s"
    by (simp_all add: command_wf_def)
  note e = write_command_field_effect [OF p i, of v, folded command_kept_def]
  show "write_command_field s buf i v = None" if "command_kept s i v = None"
    using e that by (auto split: option.splits)
  show "\<exists>b'. write_command_field s buf i v = Some b' \<and> command_wf s b' \<and>
      read_command_field s b' i = command_kept s i v \<and>
      (\<forall>j < length (command_flat_fields s). j \<noteq> i \<longrightarrow> read_command_field s b' j = read_command_field s buf j)"
    if "command_kept s i v \<noteq> None"
    using e that p by (auto simp: command_wf_def split: option.splits)
qed

end
