(* ===== verification/Hardware_Properties.thy ===== *)
theory Hardware_Properties
  imports Zenbedded_Hardware
begin

text \<open>
  The guarantees of the schema and of the hardware interface: the layout is that of the generated
  structs, every cycle publishes exactly the commands, never a NaN, and exposes exactly the states
  received.
\<close>

section \<open>The loops of a cycle\<close>

lemma write_loop_all:
  assumes "length cmds = n" "k \<le> n"
  shows "write_loop s locked hs [k..<n] (cmds, buf) =
    map_option (\<lambda>b. (take k cmds @ map (\<lambda>i. take_command locked hs i (cmds ! i)) [k..<n], b))
      (command_fields.write_all s buf k (map (\<lambda>i. take_command locked hs i (cmds ! i)) [k..<n]))"
  using assms
proof (induction "n - k" arbitrary: k cmds buf)
  case 0
  then show ?case by simp
next
  case (Suc d)
  then have k: "k < n" by simp
  let ?v = "take_command locked hs k (cmds ! k)"
  have upt: "[k..<n] = k # [Suc k..<n]" using k by (rule upt_conv_Cons)
  have upd: "map (\<lambda>i. take_command locked hs i (cmds[k := ?v] ! i)) [Suc k..<n] =
      map (\<lambda>i. take_command locked hs i (cmds ! i)) [Suc k..<n]" by simp
  have tk: "take (Suc k) (cmds[k := ?v]) = take k cmds @ [?v]"
    using k Suc.prems(1) by (simp add: take_Suc_conv_app_nth)
  have IH: "write_loop s locked hs [Suc k..<n] (cmds[k := ?v], b) =
      map_option (\<lambda>b. (take (Suc k) (cmds[k := ?v]) @
          map (\<lambda>i. take_command locked hs i (cmds[k := ?v] ! i)) [Suc k..<n], b))
        (command_fields.write_all s b (Suc k)
          (map (\<lambda>i. take_command locked hs i (cmds[k := ?v] ! i)) [Suc k..<n]))" for b
    using Suc.hyps(2) Suc.prems k by (intro Suc.hyps(1)) simp_all
  show ?case
    unfolding upt using k Suc.prems(1)
    by (cases "write_command_field s buf k ?v")
      (simp_all add: IH [unfolded upd tk] del: upt_Suc)
qed

lemma read_loop_all:
  assumes "\<forall>i < n. read_state_field s buf i = Some (v i)" "length (hw_states h) = n" "k \<le> n"
  shows "\<exists>si. read_loop s buf locked [k..<n] h =
    Some (h\<lparr>hw_states := take k (hw_states h) @ map v [k..<n], state_interfaces := si\<rparr>) \<and>
    length si = length (state_interfaces h)"
  using assms(2,3)
proof (induction "n - k" arbitrary: k h)
  case 0
  then show ?case by (intro exI [of _ "state_interfaces h"]) simp
next
  case (Suc d)
  then have k: "k < n" by simp
  have upt: "[k..<n] = k # [Suc k..<n]" using k by (rule upt_conv_Cons)
  define si0 where "si0 = (state_interfaces h)[k := set_value (locked k) (v k) (state_interfaces h ! k)]"
  define h0 where "h0 = h\<lparr>hw_states := (hw_states h)[k := v k], state_interfaces := si0\<rparr>"
  have len: "length (hw_states h0) = n" "length (state_interfaces h0) = length (state_interfaces h)"
    using Suc.prems(1) by (simp_all add: h0_def si0_def)
  have "d = n - Suc k" "Suc k \<le> n" using Suc.hyps(2) k by simp_all
  from Suc.hyps(1) [OF this(1) len(1) this(2)] obtain si where
    si: "read_loop s buf locked [Suc k..<n] h0 =
      Some (h0\<lparr>hw_states := take (Suc k) (hw_states h0) @ map v [Suc k..<n], state_interfaces := si\<rparr>)"
    "length si = length (state_interfaces h)" using len(2) by auto
  have tk: "take (Suc k) (hw_states h0) = take k (hw_states h) @ [v k]"
    using k Suc.prems(1) by (simp add: h0_def take_Suc_conv_app_nth)
  have noh: "\<not> k < length (state_interfaces h) \<Longrightarrow> h\<lparr>hw_states := (hw_states h)[k := v k]\<rparr> = h0"
    by (cases h) (simp add: h0_def si0_def list_update_beyond)
  have "read_loop s buf locked [k..<n] h = read_loop s buf locked [Suc k..<n] h0"
    unfolding upt using assms(1) k Suc.prems(1)
    by (cases "k < length (state_interfaces h)")
      (simp_all add: Let_def noh len(2), simp add: h0_def si0_def)
  also have "\<dots> = Some (h\<lparr>hw_states := take k (hw_states h) @ map v [k..<n], state_interfaces := si\<rparr>)"
    unfolding si(1) tk upt by (simp add: h0_def del: upt_Suc)
  finally show ?case using si(2) by blast
qed

section \<open>The invariant\<close>

definition hardware_ok :: "hardware \<Rightarrow> bool" where
  "hardware_ok h \<longleftrightarrow>
     packed (state_flat_fields (schema h)) (state_buffer_size (schema h)) \<and>
     command_wf (schema h) (command_buffer h) \<and>
     length (hw_states h) = length (state_flat_fields (schema h)) \<and>
     length (hw_commands h) = length (command_flat_fields (schema h)) \<and>
     length (state_interfaces h) = length (state_flat_fields (schema h)) \<and>
     length (command_interfaces h) = length (command_flat_fields (schema h)) \<and>
     length (state_box h) = state_buffer_size (schema h)"

definition no_NaN :: "f64 list \<Rightarrow> bool" where
  "no_NaN vs \<longleftrightarrow> list_all (\<lambda>v. \<not> isnan v) vs"

lemma no_NaN_denan: "no_NaN (denan vs)"
  by (auto simp: no_NaN_def denan_def list_all_iff isnan_zero)

text \<open>What a cycle is to send, told from the interfaces: the value of the command interface when its
  lock is obtained (\<open>locked i\<close>) and it is a number, otherwise what was sent last.\<close>

definition cycle_command :: "(nat \<Rightarrow> bool) \<Rightarrow> hardware \<Rightarrow> nat \<Rightarrow> f64" where
  "cycle_command locked h i =
     (if locked i \<and> \<not> isnan (h_value (command_interfaces h ! i)) then h_value (command_interfaces h ! i)
      else hw_commands h ! i)"

definition cycle_commands :: "(nat \<Rightarrow> bool) \<Rightarrow> hardware \<Rightarrow> f64 list" where
  "cycle_commands locked h = map (cycle_command locked h) [0..<length (hw_commands h)]"

lemma take_command_eq:
  "i < length (command_interfaces h) \<Longrightarrow>
   take_command locked (command_interfaces h) i (hw_commands h ! i) = cycle_command locked h i"
  by (simp add: take_command_def get_optional_def cycle_command_def)

lemma cycle_commands_no_NaN: "no_NaN (hw_commands h) \<Longrightarrow> no_NaN (cycle_commands locked h)"
  by (auto simp: no_NaN_def cycle_commands_def cycle_command_def list_all_length)

lemma hw_write_active:
  assumes "hardware_ok h" "command_pub h"
  shows "hw_write locked h =
    map_option (\<lambda>b. h\<lparr>hw_commands := cycle_commands locked h, command_buffer := b,
        command_puts := command_puts h @ [b]\<rparr>)
      (command_fields.write_all (schema h) (command_buffer h) 0 (cycle_commands locked h))"
proof -
  have c: "map (\<lambda>i. take_command locked (command_interfaces h) i (hw_commands h ! i))
      [0..<length (hw_commands h)] = cycle_commands locked h"
    using assms(1) by (simp add: hardware_ok_def cycle_commands_def take_command_eq)
  show ?thesis
    using assms write_loop_all [of "hw_commands h" "length (hw_commands h)" 0 "schema h" locked
        "command_interfaces h" "command_buffer h", unfolded c]
    by (auto simp: hw_write_def hardware_ok_def map_option_case split: option.splits)
qed

lemma write_cycle:
  assumes "hardware_ok h" "command_pub h"
    and "\<forall>i < length (hw_commands h). command_kept (schema h) i (cycle_commands locked h ! i) \<noteq> None"
  shows "\<exists>h' b. hw_write locked h = Some h' \<and>
    h' = h\<lparr>hw_commands := cycle_commands locked h, command_buffer := b, command_puts := command_puts h @ [b]\<rparr> \<and>
    hardware_ok h' \<and>
    (\<forall>i < length (hw_commands h). read_command_field (schema h) b i =
       command_kept (schema h) i (cycle_commands locked h ! i))"
proof -
  have wf: "command_wf (schema h) (command_buffer h)"
    and len: "0 + length (cycle_commands locked h) \<le> length (command_flat_fields (schema h))"
    "length (cycle_commands locked h) = length (hw_commands h)"
    using assms(1) by (simp_all add: hardware_ok_def cycle_commands_def)
  have "\<forall>k < length (cycle_commands locked h).
      command_kept (schema h) (0 + k) (cycle_commands locked h ! k) \<noteq> None"
    using assms(3) len by simp
  from command_fields.write_all_defined [OF wf len(1) this] obtain b where
    b: "command_fields.write_all (schema h) (command_buffer h) 0 (cycle_commands locked h) = Some b"
    "command_wf (schema h) b"
    "\<forall>k < length (cycle_commands locked h). read_command_field (schema h) b (0 + k) =
       command_kept (schema h) (0 + k) (cycle_commands locked h ! k)" by blast
  then show ?thesis
    using hw_write_active [OF assms(1,2), of locked] assms(1) len
    by (auto simp: hardware_ok_def)
qed

lemma write_cycle_result:
  assumes "hardware_ok h" "hw_write locked h = Some h'"
  shows "hardware_ok h' \<and> command_pub h' = command_pub h \<and> schema h' = schema h \<and>
    (no_NaN (hw_commands h) \<longrightarrow> no_NaN (hw_commands h'))"
proof (cases "command_pub h")
  case False
  with assms show ?thesis by (simp add: hw_write_def)
next
  case True
  have wf: "command_wf (schema h) (command_buffer h)"
    and len: "0 + length (cycle_commands locked h) \<le> length (command_flat_fields (schema h))"
    "length (cycle_commands locked h) = length (hw_commands h)"
    using assms(1) by (simp_all add: hardware_ok_def cycle_commands_def)
  obtain b where b: "command_fields.write_all (schema h) (command_buffer h) 0 (cycle_commands locked h) = Some b"
    using hw_write_active [OF assms(1) True, of locked] assms(2) that
    by (cases "command_fields.write_all (schema h) (command_buffer h) 0 (cycle_commands locked h)") auto
  have "\<forall>i < length (hw_commands h). command_kept (schema h) i (cycle_commands locked h ! i) \<noteq> None"
    using command_fields.write_all_undefined [OF wf len(1) b] len(2) by (metis add_0)
  from write_cycle [OF assms(1) True this] assms(2) cycle_commands_no_NaN [of h locked] show ?thesis
    by auto
qed

lemma read_cycle:
  assumes "hardware_ok h"
  shows "\<exists>h'. hw_read box_free locked h = Some h' \<and> hardware_ok h' \<and> hw_commands h' = hw_commands h \<and>
    command_pub h' = command_pub h \<and> schema h' = schema h \<and>
    (box_free \<longrightarrow> (\<forall>i < length (state_flat_fields (schema h)).
       Some (hw_states h' ! i) = read_state_field (schema h) (state_box h) i)) \<and>
    (\<not> box_free \<longrightarrow> h' = h)"
proof (cases box_free)
  case True
  let ?s = "schema h" and ?n = "length (state_flat_fields (schema h))"
  have "\<exists>v. read_state_field ?s (state_box h) i = Some v" if "i < ?n" for i
    using packed_in_bounds [of "state_flat_fields ?s" "state_buffer_size ?s" i] assms that
    by (simp add: hardware_ok_def read_state_field_def Let_def decode_field_total)
  then obtain v where v: "\<forall>i < ?n. read_state_field ?s (state_box h) i = Some (v i)" by metis
  have "length (hw_states h) = ?n" using assms by (simp add: hardware_ok_def)
  from read_loop_all [OF v this, of 0 locked] obtain si where
    "read_loop ?s (state_box h) locked [0..<?n] h =
       Some (h\<lparr>hw_states := map v [0..<?n], state_interfaces := si\<rparr>)"
    "length si = length (state_interfaces h)" by auto
  with True v assms show ?thesis
    by (auto simp: hw_read_def hardware_ok_def)
qed (use assms in \<open>simp add: hw_read_def\<close>)

section \<open>The life of the hardware\<close>

text \<open>Calls of the framework, samples of zenoh, and controllers writing to command interfaces.\<close>

inductive hw_step :: "hardware \<Rightarrow> hardware \<Rightarrow> bool" where
  Sample: "hw_step h (on_state_sample bs h)"
| Read: "hw_read box_free locked h = Some h' \<Longrightarrow> hw_step h h'"
| Write: "hw_write locked h = Some h' \<Longrightarrow> hw_step h h'"
| Controller: "length hs = length (command_interfaces h) \<Longrightarrow> hw_step h (h\<lparr>command_interfaces := hs\<rparr>)"
| Activate: "on_activate a h = (r, h') \<Longrightarrow> hw_step h h'"
| Deactivate: "on_deactivate h = (r, h') \<Longrightarrow> hw_step h h'"

inductive_cases hw_stepE: "hw_step h h'"

definition hw_inv :: "hardware \<Rightarrow> bool" where
  "hw_inv h \<longleftrightarrow> hardware_ok h \<and> (command_pub h \<longrightarrow> no_NaN (hw_commands h))"

lemma length_set_handles [simp]: "length (set_handles locked vs hs) = length hs"
  by (simp add: set_handles_def)

lemma length_denan [simp]: "length (denan vs) = length vs"
  by (simp add: denan_def)

lemma on_activate_inv:
  assumes "on_activate a h = (r, h')" "hw_inv h"
  shows "hw_inv h' \<and> (r = SUCCESS \<longrightarrow> command_pub h')"
  using assms no_NaN_denan [of "hw_commands h"]
  by (auto simp: on_activate_def hw_inv_def hardware_ok_def Let_def split: if_splits)

lemma hw_step_inv: "hw_step h h' \<Longrightarrow> hw_inv h \<Longrightarrow> hw_inv h'"
proof (induction rule: hw_step.induct)
  case (Sample h bs)
  then show ?case by (auto simp: on_state_sample_def hw_inv_def hardware_ok_def)
next
  case (Read box_free locked h h')
  then show ?case using read_cycle [of h box_free locked] by (auto simp: hw_inv_def)
next
  case (Write locked h h')
  then show ?case using write_cycle_result [of h locked h'] by (auto simp: hw_inv_def)
next
  case (Controller hs h)
  then show ?case by (auto simp: hw_inv_def hardware_ok_def)
next
  case (Activate a h r h')
  then show ?case using on_activate_inv by blast
next
  case (Deactivate h r h')
  then show ?case by (auto simp: on_deactivate_def hw_inv_def hardware_ok_def)
qed

lemma hw_steps_inv: "hw_step\<^sup>*\<^sup>* h h' \<Longrightarrow> hw_inv h \<Longrightarrow> hw_inv h'"
  by (induction rule: rtranclp_induct) (auto intro: hw_step_inv)

lemma length_vec_resize [simp]: "length (vec_resize n x xs) = n"
  by (simp add: vec_resize_def)

lemma from_yaml_file_packed:
  "packed (state_flat_fields (from_yaml_file y c p)) (state_buffer_size (from_yaml_file y c p)) \<and>
   packed (command_flat_fields (from_yaml_file y c p)) (command_buffer_size (from_yaml_file y c p))"
  using from_yaml_packed
  by (auto simp: from_yaml_file_def with_error_def empty_schema_def split: option.splits)

lemma on_init_ok:
  assumes "on_init y files base_ok params h = (SUCCESS, h')" "\<not> command_pub h"
  shows "hw_inv h' \<and> \<not> command_pub h' \<and> schema_valid (schema h')"
proof -
  obtain h1 where h1: "load_parameters params h = (True, h1)" "\<not> command_pub h1"
    using assms by (auto simp: on_init_def load_parameters_def Let_def
        split: if_splits prod.splits option.splits)
  obtain path where path: "params ''schema_path'' = Some path"
    using assms h1 by (auto simp: on_init_def split: if_splits option.splits)
  show ?thesis
    using assms(1) h1 path from_yaml_file_packed [of y "files path" path]
    by (auto simp: on_init_def hw_inv_def hardware_ok_def command_wf_def Let_def split: if_splits)
qed

section \<open>A sample system\<close>

definition blank_hardware :: hardware where
  "blank_hardware = \<lparr>schema = empty_schema, zenoh_endpoint = [], zenoh_mode = [], state_topic = [],
     command_topic = [], session = False, state_sub = False, command_pub = False, state_box = [],
     command_buffer = [], hw_commands = [], hw_states = [], state_interfaces = [],
     command_interfaces = [], command_puts = []\<rparr>"

definition sample_params :: "string \<Rightarrow> string option" where
  "sample_params = map_of [(''zenoh_endpoint'', ''tcp/127.0.0.1:7447''), (''state_topic'', ''s''),
     (''command_topic'', ''c''), (''schema_path'', ''schema.yaml'')]"

definition sample_hardware :: hardware where
  "sample_hardware =
     snd (on_init (tree_api sample_yaml) (\<lambda>_. Some []) True sample_params blank_hardware)"

definition all_ok :: activation where
  "all_ok = \<lparr>config_ok = True, session_ok = True, subscriber_ok = True, publisher_ok = True,
     handle_locked = (\<lambda>_. True)\<rparr>"

definition active_hardware :: hardware where
  "active_hardware = snd (on_activate all_ok sample_hardware)"

lemma sample_hardware_init:
  "on_init (tree_api sample_yaml) (\<lambda>_. Some []) True sample_params blank_hardware =
     (SUCCESS, sample_hardware)"
  by (simp add: sample_hardware_def on_init_def load_parameters_def sample_params_def
      from_yaml_file_def Let_def) (simp add: sample_schema_eq flip: sample_schema_def)

lemma sample_hardware_inv: "hw_inv sample_hardware" "\<not> command_pub sample_hardware"
  using on_init_ok [OF sample_hardware_init] by (simp_all add: blank_hardware_def)

lemma sample_hardware_schema: "schema sample_hardware = sample_schema"
  by (simp add: sample_hardware_def on_init_def load_parameters_def sample_params_def
      from_yaml_file_def Let_def) (simp add: sample_schema_eq flip: sample_schema_def)

lemma active_hardware_inv: "hw_inv active_hardware" "command_pub active_hardware"
  "schema active_hardware = sample_schema"
proof -
  obtain r h where a: "on_activate all_ok sample_hardware = (r, h)" by fastforce
  have "r = SUCCESS" "schema h = schema sample_hardware"
    using a by (auto simp: on_activate_def all_ok_def Let_def)
  then show "hw_inv active_hardware" "command_pub active_hardware" "schema active_hardware = sample_schema"
    using on_activate_inv [OF a sample_hardware_inv(1)] a sample_hardware_schema
    by (simp_all add: active_hardware_def)
qed

section \<open>Properties\<close>

text \<open>C16: no NaN reaches the firmware. From a successful init on, over every interleaving of samples,
  read and write cycles, activations (failing ones too), deactivations and controllers that may
  write anything into the command interfaces, NaN included, all buffers keep the sizes of the
  schema, and whenever a publisher exists no command held for publication is a NaN.\<close>

theorem hardware_commands_never_NaN:
  assumes "on_init y files base_ok params h0 = (SUCCESS, h)" and "\<not> command_pub h0"
    and "hw_step\<^sup>*\<^sup>* h h'"
  shows "hardware_ok h' \<and> (command_pub h' \<longrightarrow> no_NaN (hw_commands h'))"
proof -
  have "hw_inv h" using on_init_ok [OF assms(1,2)] by blast
  from hw_steps_inv [OF assms(3) this] show ?thesis by (simp add: hw_inv_def)
qed

theorem hardware_commands_never_NaN_witness:
  "\<exists>h'. hw_step\<^sup>*\<^sup>* sample_hardware h' \<and> command_pub h' \<and> no_NaN (hw_commands h')"
proof -
  have "hw_step sample_hardware active_hardware"
    unfolding active_hardware_def
    by (rule hw_step.Activate [where r = "fst (on_activate all_ok sample_hardware)"]) simp
  then have s: "hw_step\<^sup>*\<^sup>* sample_hardware active_hardware" by (rule r_into_rtranclp)
  have "\<not> command_pub blank_hardware" by (simp add: blank_hardware_def)
  from hardware_commands_never_NaN [OF sample_hardware_init this s] active_hardware_inv s
  show ?thesis by blast
qed

text \<open>what a write cycle sends. With a publisher, and commands that fit their fields, \<open>write\<close>
  publishes exactly one payload, of the size the schema gives, in which every field carries the
  value of its command interface, or the last command where the interface is locked or holds NaN.\<close>

theorem hw_write_publishes_commands:
  assumes "hardware_ok h" and "command_pub h"
    and "\<forall>i < length (hw_commands h). command_kept (schema h) i (cycle_commands locked h ! i) \<noteq> None"
  shows "\<exists>h' payload. hw_write locked h = Some h' \<and> command_puts h' = command_puts h @ [payload] \<and>
    length payload = command_buffer_size (schema h) \<and> hw_commands h' = cycle_commands locked h \<and>
    (\<forall>i < length (hw_commands h). read_command_field (schema h) payload i =
       command_kept (schema h) i (cycle_commands locked h ! i))"
  using write_cycle [OF assms] by (auto simp: hardware_ok_def command_wf_def)

lemma denan_NaN: "isnan quiet_NaN"
  by (simp add: isnan_def quiet_NaN_def fp_eval)

lemma active_hardware_commands: "hw_commands active_hardware = [0, 0, 0]"
  "length (command_interfaces active_hardware) = 3"
proof -
  have "hw_commands sample_hardware = [quiet_NaN, quiet_NaN, quiet_NaN]"
    "length (command_interfaces sample_hardware) = 3"
    by (simp_all add: sample_hardware_def on_init_def load_parameters_def sample_params_def
        from_yaml_file_def Let_def flip: sample_schema_def)
      (simp_all add: sample_schema_eq vec_resize_def blank_hardware_def numeral_3_eq_3)
  then show "hw_commands active_hardware = [0, 0, 0]" "length (command_interfaces active_hardware) = 3"
    by (simp_all add: active_hardware_def on_activate_def all_ok_def Let_def denan_def denan_NaN)
qed

lemma active_hardware_commands_fit:
  "cycle_commands (\<lambda>_. False) active_hardware = [0, 0, 0]"
  "\<forall>i < length (hw_commands active_hardware).
     command_kept (schema active_hardware) i (cycle_commands (\<lambda>_. False) active_hardware ! i) \<noteq> None"
proof -
  show c: "cycle_commands (\<lambda>_. False) active_hardware = [0, 0, 0]"
    by (simp add: cycle_commands_def cycle_command_def active_hardware_commands numeral_3_eq_3)
  have z: "double_to_int lo hi 0 = Some 0" if "lo \<le> 0" "0 \<le> hi" for lo hi
    using that by (simp add: double_to_int_def of_f64_def fp_decode_def fp_trunc_def binary64_def Let_def)
  show "\<forall>i < length (hw_commands active_hardware).
      command_kept (schema active_hardware) i (cycle_commands (\<lambda>_. False) active_hardware ! i) \<noteq> None"
    unfolding c active_hardware_inv(3)
    by (auto simp: command_kept_def active_hardware_commands sample_schema_eq field_value_def z
        less_Suc_eq)
qed

theorem hw_write_publishes_commands_witness:
  "\<exists>h' payload. hw_write (\<lambda>_. False) active_hardware = Some h' \<and>
     command_puts h' = command_puts active_hardware @ [payload] \<and> length payload = 11"
proof -
  have ok: "hardware_ok active_hardware" using active_hardware_inv(1) by (simp add: hw_inv_def)
  from hw_write_publishes_commands [OF ok active_hardware_inv(2) active_hardware_commands_fit(2)]
  show ?thesis by (auto simp: active_hardware_inv(3) sample_schema_eq)
qed

text \<open>what a read cycle shows. After a sample of the size of the schema, a read cycle that gets the
  box sets every state to the value of its field in that sample; one that does not changes nothing,
  and in both cases it returns.\<close>

theorem hw_read_shows_sample:
  assumes "hardware_ok h" and "length bs = state_buffer_size (schema h)"
  shows "\<exists>h'. hw_read box_free locked (on_state_sample bs h) = Some h' \<and>
    (if box_free
     then map Some (hw_states h') = map (read_state_field (schema h) bs) [0..<length (state_flat_fields (schema h))]
     else h' = on_state_sample bs h)"
proof -
  have ok: "hardware_ok (on_state_sample bs h)" and s: "state_box (on_state_sample bs h) = bs"
    "schema (on_state_sample bs h) = schema h"
    using assms by (simp_all add: on_state_sample_def hardware_ok_def)
  obtain h' where h': "hw_read box_free locked (on_state_sample bs h) = Some h'" "hardware_ok h'"
    "schema h' = schema h"
    "box_free \<longrightarrow> (\<forall>i < length (state_flat_fields (schema h)).
       Some (hw_states h' ! i) = read_state_field (schema h) bs i)"
    "\<not> box_free \<longrightarrow> h' = on_state_sample bs h"
    using read_cycle [OF ok, of box_free locked] s by auto
  have "length (hw_states h') = length (state_flat_fields (schema h))"
    using h'(2,3) by (simp add: hardware_ok_def)
  with h' show ?thesis by (auto intro: nth_equalityI)
qed

theorem hw_read_shows_sample_witness:
  "\<exists>h'. hw_read True (\<lambda>_. True)
      (on_state_sample [0, 0, 0x80, 0x3F, 3, 0, 0, 0, 0, 0, 0, 0] sample_hardware) = Some h' \<and>
    map Some (hw_states h') = map (read_state_field sample_schema
      [0, 0, 0x80, 0x3F, 3, 0, 0, 0, 0, 0, 0, 0]) [0, 1]"
proof -
  have ok: "hardware_ok sample_hardware" using sample_hardware_inv by (simp add: hw_inv_def)
  have "length ([0, 0, 0x80, 0x3F, 3, 0, 0, 0, 0, 0, 0, 0] :: bytes) =
      state_buffer_size (schema sample_hardware)"
    by (simp add: sample_hardware_schema sample_schema_eq)
  from hw_read_shows_sample [OF ok this, of True "\<lambda>_. True"] show ?thesis
    by (simp add: sample_hardware_schema) (simp add: sample_schema_eq)
qed

text \<open>a sample of another size than the schema's is dropped: it changes nothing at all.\<close>

theorem wrong_size_sample_dropped:
  assumes "length bs \<noteq> state_buffer_size (schema h)"
  shows "on_state_sample bs h = h"
  using assms by (simp add: on_state_sample_def)

theorem wrong_size_sample_dropped_witness: "on_state_sample [1, 2, 3] sample_hardware = sample_hardware"
  by (rule wrong_size_sample_dropped) (simp add: sample_hardware_schema sample_schema_eq)

text \<open>nothing is published outside the active state: before activation, after a failed one that
  found no publisher, and after deactivation a write cycle changes nothing.\<close>

theorem write_without_publisher_is_noop:
  assumes "\<not> command_pub h"
  shows "hw_write locked h = Some h \<and> hw_write locked (snd (on_deactivate h)) = Some (snd (on_deactivate h)) \<and>
    (fst (on_activate a h) = ERROR \<longrightarrow>
       hw_write locked (snd (on_activate a h)) = Some (snd (on_activate a h)))"
  using assms by (auto simp: hw_write_def on_deactivate_def on_activate_def Let_def)

theorem write_without_publisher_is_noop_witness:
  "hw_write (\<lambda>_. True) sample_hardware = Some sample_hardware \<and>
   hw_write (\<lambda>_. True) (snd (on_activate (all_ok\<lparr>publisher_ok := False\<rparr>) sample_hardware)) =
     Some (snd (on_activate (all_ok\<lparr>publisher_ok := False\<rparr>) sample_hardware))"
  using write_without_publisher_is_noop [OF sample_hardware_inv(2), of "\<lambda>_. True"
      "all_ok\<lparr>publisher_ok := False\<rparr>"]
  by (auto simp: on_activate_def all_ok_def Let_def)

end
