(* ===== verification/Network.thy ===== *)
theory Network
  imports Prelude
begin

text \<open>
  \<open>zenbedded_common/src/network.cpp\<close> and \<open>usbd.c\<close>: bringing up the USB CDC and Wi-Fi interfaces.
  The Kconfig options are the record \<open>net_config\<close>; Zephyr's network and USB stacks (what a request
  returns, what an interface shows at a given millisecond of uptime, when a sleeping thread runs
  again) are the record \<open>net_world\<close>, a parameter. The state is the uptime and the requests made so
  far. A function that polls returns an option: \<open>None\<close> is never returning.
\<close>

section \<open>Configuration, environment, state\<close>

type_synonym net_if = nat

record net_config =
  usb_cdc :: bool
  wifi :: bool
  usb_device_stack_next :: bool
  usbd_cdc_class :: bool
  usbd_cdc_ecm_class :: bool
  net_config_settings :: bool
  net_dhcpv4 :: bool
  net_dhcpv4_server :: bool
  esp32_wifi_sta_auto_dhcpv4 :: bool
  soc_esp32 :: bool
  hwinfo :: bool
  usbd_supports_high_speed :: bool
  peer_ipv4_addr :: "string option"

datatype usbd_speed = FS | HS
datatype usb_descriptor = Lang_Descriptor | Mfr_Descriptor | Product_Descriptor | Sn_Descriptor

datatype net_call =
    Add_Descriptor usb_descriptor
  | Add_Configuration usbd_speed
  | Register_All_Classes usbd_speed
  | Set_Code_Triple usbd_speed byte byte byte
  | Self_Powered byte
  | Usbd_Init
  | Usbd_Enable
  | Wifi_Connect_Stored "net_if option"
  | Dhcpv4_Start "net_if option"
  | Esp_Power_Save_None
  | Net_Config_Init_App
  | Dhcpv4_Server_Start "net_if option"

record net_world =
  answer :: "net_call \<Rightarrow> int"
  returns_at :: "net_call \<Rightarrow> nat \<Rightarrow> nat"
  wake :: "nat \<Rightarrow> nat \<Rightarrow> nat"
  wifi_sta_if :: "net_if option"
  default_if :: "net_if option"
  cdc_ecm_if :: "net_if option"
  caps_speed :: usbd_speed
  ipv4_preferred :: "net_if option \<Rightarrow> nat \<Rightarrow> bool"
  carrier_ok :: "net_if option \<Rightarrow> nat \<Rightarrow> bool"
  if_up :: "net_if option \<Rightarrow> nat \<Rightarrow> bool"
  lease_slots :: "net_if option \<Rightarrow> nat \<Rightarrow> bool option list"
  peer_addr_parses :: bool

record net_state =
  now :: nat
  requests :: "net_call list"

definition call :: "net_world \<Rightarrow> net_call \<Rightarrow> net_state \<Rightarrow> net_state" where
  "call w c s = \<lparr>now = returns_at w c (now s), requests = requests s @ [c]\<rparr>"

definition k_sleep :: "net_world \<Rightarrow> nat \<Rightarrow> net_state \<Rightarrow> net_state" where
  "k_sleep w ms s = s\<lparr>now := wake w (now s) ms\<rparr>"

definition k_uptime_get_32 :: "nat \<Rightarrow> uint32" where
  "k_uptime_get_32 t = word_of_nat t"

definition or_else :: "'a option \<Rightarrow> 'a option \<Rightarrow> 'a option" where
  "or_else x y = (case x of None \<Rightarrow> y | Some _ \<Rightarrow> x)"

section \<open>The USB device (\<open>usbd.c\<close>)\<close>

definition demo_fix_code_triple ::
  "net_config \<Rightarrow> net_world \<Rightarrow> usbd_speed \<Rightarrow> net_state \<Rightarrow> net_state" where
  "demo_fix_code_triple cfg w speed s =
     (if usbd_cdc_class cfg then call w (Set_Code_Triple speed 0xEF 2 1) s
      else call w (Set_Code_Triple speed 0 0 0) s)"

text \<open>\<open>err = f(...); if (err) return NULL;\<close> and on to the next statement.\<close>

definition checked ::
  "net_world \<Rightarrow> net_call \<Rightarrow> (net_state \<Rightarrow> bool \<times> net_state) \<Rightarrow> net_state \<Rightarrow> bool \<times> net_state" where
  "checked w c k s = (let s = call w c s in if answer w c \<noteq> 0 then (False, s) else k s)"

definition zenbedded_usbd_init :: "net_config \<Rightarrow> net_world \<Rightarrow> net_state \<Rightarrow> bool \<times> net_state" where
  "zenbedded_usbd_init cfg w =
     (let full_speed =
        checked w (Add_Configuration FS) (checked w (Register_All_Classes FS) (\<lambda>s.
          checked w Usbd_Init (\<lambda>s. (True, s))
            (call w (Self_Powered 0x40) (demo_fix_code_triple cfg w FS s))));
      high_speed =
        (if usbd_supports_high_speed cfg \<and> caps_speed w = HS then
           checked w (Add_Configuration HS) (checked w (Register_All_Classes HS) (\<lambda>s.
             full_speed (demo_fix_code_triple cfg w HS s)))
         else full_speed)
      in checked w (Add_Descriptor Lang_Descriptor) (checked w (Add_Descriptor Mfr_Descriptor)
          (checked w (Add_Descriptor Product_Descriptor)
            (if hwinfo cfg then checked w (Add_Descriptor Sn_Descriptor) high_speed
             else high_speed))))"

section \<open>Waiting\<close>

definition kIpv4AcquireTimeout :: uint32 where "kIpv4AcquireTimeout = 30000"

text \<open>
  \<open>while (!seen) { if (k_uptime_get_32() - timer > limit) return ...; k_sleep(period); }\<close>: the
  boolean is whether the loop was left because its condition was seen.
\<close>

partial_function (option) wait_for ::
  "(nat \<Rightarrow> bool) \<Rightarrow> net_world \<Rightarrow> uint32 \<Rightarrow> nat \<Rightarrow> uint32 \<Rightarrow> net_state \<Rightarrow> (bool \<times> net_state) option" where
  "wait_for seen w limit period timer s =
     (if seen (now s) then Some (True, s)
      else if k_uptime_get_32 (now s) - timer > limit then Some (False, s)
      else wait_for seen w limit period timer (k_sleep w period s))"

definition lease_active :: "bool option list \<Rightarrow> bool" where
  "lease_active slots = fold (\<lambda>slot active. if slot = Some True then True else active) slots False"

partial_function (option) wait_lease ::
  "net_world \<Rightarrow> net_if option \<Rightarrow> uint32 \<Rightarrow> net_state \<Rightarrow> net_state option" where
  "wait_lease w i timer s =
     (if k_uptime_get_32 (now s) - timer < 5000 then
        (if lease_active (lease_slots w i (now s)) then Some s
         else wait_lease w i timer (k_sleep w 250 s))
      else Some s)"

declare wait_for.simps [code] wait_lease.simps [code]

section \<open>The interfaces\<close>

definition wifi_iface :: "net_world \<Rightarrow> net_if option \<Rightarrow> net_if option" where
  "wifi_iface w iface = or_else iface (or_else (wifi_sta_if w) (default_if w))"

definition init_wifi ::
  "net_config \<Rightarrow> net_world \<Rightarrow> net_if option \<Rightarrow> net_state \<Rightarrow> (int \<times> net_state) option" where
  "init_wifi cfg w iface s =
     (if \<not> wifi cfg then Some (- ENOTSUP, s)
      else
        let i = wifi_iface w iface;
            s = call w (Wifi_Connect_Stored i) (k_sleep w 500 s);
            req_ret = answer w (Wifi_Connect_Stored i)
        in if req_ret \<noteq> 0 \<and> req_ret \<noteq> - EALREADY then Some (req_ret, s)
           else
             let s = (if net_dhcpv4 cfg \<and> \<not> esp32_wifi_sta_auto_dhcpv4 cfg
                      then call w (Dhcpv4_Start i) s else s)
             in do {
               (up, s) \<leftarrow> wait_for (ipv4_preferred w i) w kIpv4AcquireTimeout 200
                          (k_uptime_get_32 (now s)) s;
               if \<not> up then Some (- ETIMEDOUT, s)
               else Some (0, if soc_esp32 cfg then call w Esp_Power_Save_None s else s)
             })"

definition usbd_iface :: "net_config \<Rightarrow> net_world \<Rightarrow> net_if option \<Rightarrow> net_if option" where
  "usbd_iface cfg w iface =
     (if \<not> usb_device_stack_next cfg then iface
      else or_else iface (or_else (if usbd_cdc_ecm_class cfg then cdc_ecm_if w else None) (default_if w)))"

text \<open>The statements inside \<open>#if defined(CONFIG_USB_DEVICE_STACK_NEXT)\<close>.\<close>

definition bring_up_device ::
  "net_config \<Rightarrow> net_world \<Rightarrow> net_if option \<Rightarrow> net_state \<Rightarrow> (int \<times> net_state) option" where
  "bring_up_device cfg w i s =
     (case zenbedded_usbd_init cfg w s of (ctx, s) \<Rightarrow>
        if \<not> ctx then Some (- ENODEV, s)
        else
          let s = call w Usbd_Enable s; usb_err = answer w Usbd_Enable
          in if usb_err \<noteq> 0 then Some (usb_err, s)
             else do {
               (carrier, s) \<leftarrow> wait_for (carrier_ok w i) w 2000 100 (k_uptime_get_32 (now s)) s;
               if \<not> carrier then Some (- ENOTCONN, s)
               else Some (0, if net_config_settings cfg then call w Net_Config_Init_App s
                             else if net_dhcpv4 cfg then call w (Dhcpv4_Start i) s
                             else s)
             })"

definition serve_dhcp ::
  "net_config \<Rightarrow> net_world \<Rightarrow> net_if option \<Rightarrow> net_state \<Rightarrow> net_state option" where
  "serve_dhcp cfg w i s =
     (if \<not> net_dhcpv4_server cfg then Some s
      else
        let s = (if peer_addr_parses w then call w (Dhcpv4_Server_Start i) s else s)
        in wait_lease w i (k_uptime_get_32 (now s)) s)"

definition init_usbd ::
  "net_config \<Rightarrow> net_world \<Rightarrow> net_if option \<Rightarrow> net_state \<Rightarrow> (int \<times> net_state) option" where
  "init_usbd cfg w iface s =
     (if \<not> usb_cdc cfg then Some (- ENOTSUP, s)
      else
        let i = usbd_iface cfg w iface
        in do {
          (err, s) \<leftarrow> (if usb_device_stack_next cfg then bring_up_device cfg w i s else Some (0, s));
          if err \<noteq> 0 then Some (err, s)
          else do {
            (up, s) \<leftarrow> wait_for (ipv4_preferred w i) w kIpv4AcquireTimeout 200
                       (k_uptime_get_32 (now s)) s;
            if \<not> up then Some (- ETIMEDOUT, s)
            else do {
              s \<leftarrow> serve_dhcp cfg w i s;
              Some (0, s)
            }
          }
        })"

definition init_network :: "net_config \<Rightarrow> net_world \<Rightarrow> net_state \<Rightarrow> (int \<times> net_state) option" where
  "init_network cfg w s =
     (if usb_cdc cfg \<and> wifi cfg then do {
        (usb_ret, s) \<leftarrow> init_usbd cfg w None s;
        (wifi_ret, s) \<leftarrow> init_wifi cfg w None s;
        Some (if usb_ret = 0 \<or> wifi_ret = 0 then 0 else - ENETDOWN, s)
      }
      else if usb_cdc cfg then init_usbd cfg w None s
      else if wifi cfg then init_wifi cfg w None s
      else Some (0, s))"

definition is_usbd_ready :: "net_config \<Rightarrow> net_world \<Rightarrow> nat \<Rightarrow> bool" where
  "is_usbd_ready cfg w t =
     (if usb_cdc cfg then
        let iface = (if usbd_cdc_ecm_class cfg then cdc_ecm_if w else None);
            iface = (if \<not> wifi cfg then or_else iface (default_if w) else iface)
        in iface \<noteq> None \<and> if_up w iface t \<and> ipv4_preferred w iface t
      else False)"

definition is_wifi_ready :: "net_config \<Rightarrow> net_world \<Rightarrow> nat \<Rightarrow> bool" where
  "is_wifi_ready cfg w t =
     (if wifi cfg then
        let iface = wifi_sta_if w;
            iface = (if \<not> usb_cdc cfg then or_else iface (default_if w) else iface)
        in iface \<noteq> None \<and> if_up w iface t \<and> ipv4_preferred w iface t
      else False)"

section \<open>The USB peer locator\<close>

text \<open>\<open>strrchr(s, c) + 1\<close>: the text after the last occurrence.\<close>

fun after_last :: "char \<Rightarrow> string \<Rightarrow> string option" where
  "after_last c [] = None"
| "after_last c (x # xs) =
     (case after_last c xs of Some r \<Rightarrow> Some r | None \<Rightarrow> if x = c then Some xs else None)"

definition isdigit :: "char \<Rightarrow> bool" where
  "isdigit c = (48 \<le> (of_char c :: nat) \<and> (of_char c :: nat) \<le> 57)"

definition locator_port :: "string option \<Rightarrow> string" where
  "locator_port target =
     (case target of
        None \<Rightarrow> ''7447''
      | Some s \<Rightarrow>
          (case after_last (CHR '':'') s of
             None \<Rightarrow> ''7447''
           | Some r \<Rightarrow> if r \<noteq> [] \<and> isdigit (hd r) then r else ''7447''))"

text \<open>\<open>None\<close> is a null \<open>out_usb_locator\<close>; otherwise the text the buffer holds afterwards.\<close>

definition get_usb_peer_locator ::
  "net_config \<Rightarrow> string option \<Rightarrow> string option \<Rightarrow> nat \<Rightarrow> int \<times> string option" where
  "get_usb_peer_locator cfg target out out_len =
     (if out = None \<or> out_len = 0 then (- EINVAL, out)
      else
        let port = locator_port target;
            peer_ip = (case peer_ipv4_addr cfg of Some a \<Rightarrow> a | None \<Rightarrow> ''192.0.2.1'');
            full = peer_ip @ '':'' @ port;
            out = Some (snprintf out_len full)
        in if out_len \<le> length full then (- ENOSPC, out) else (0, out))"

end
