(* ===== verification/Network_Properties.thy ===== *)
theory Network_Properties
  imports Network
begin

text \<open>
  What bringing up the network guarantees: the polling loops end, also across the wrap of the
  32-bit uptime, and what their results say of the interface; the order of the USB registration;
  the peer locator.
\<close>

section \<open>The polling loops\<close>

text \<open>
  The timing of the environment: a sleeping thread runs again no earlier than it asked and at most
  \<open>j\<close> ms late, and a request returns within \<open>d\<close> ms.
\<close>

definition timely :: "nat \<Rightarrow> nat \<Rightarrow> net_world \<Rightarrow> bool" where
  "timely j d w \<longleftrightarrow>
     (\<forall>t n. t + n \<le> wake w t n \<and> wake w t n \<le> t + n + j) \<and>
     (\<forall>c t. t \<le> returns_at w c t \<and> returns_at w c t \<le> t + d)"

lemma timely_sleep:
  "timely j d w \<Longrightarrow> now s + n \<le> now (k_sleep w n s)"
  "timely j d w \<Longrightarrow> now (k_sleep w n s) \<le> now s + n + j"
  by (auto simp: timely_def k_sleep_def)

lemma timely_call:
  "timely j d w \<Longrightarrow> now s \<le> now (call w c s)"
  "timely j d w \<Longrightarrow> now (call w c s) \<le> now s + d"
  by (auto simp: timely_def call_def)

lemma uptime_elapsed:
  assumes "t0 \<le> t" and "t - t0 < 2 ^ 32"
  shows "unat (k_uptime_get_32 t - k_uptime_get_32 t0) = t - t0"
proof -
  have "k_uptime_get_32 t - k_uptime_get_32 t0 = word_of_nat (t - t0)"
    using assms(1) by (simp add: k_uptime_get_32_def of_nat_diff)
  then show ?thesis using assms(2) by (simp add: unat_word32_of_nat)
qed

lemma wait_for_returns:
  assumes "timely j d w" and "0 < period" and "unat limit + period + j < 2 ^ 32"
    and "t0 \<le> now s" and "now s \<le> t0 + unat limit + period + j"
  shows "\<exists>b s'. wait_for seen w limit period (k_uptime_get_32 t0) s = Some (b, s') \<and>
    (b \<longleftrightarrow> seen (now s')) \<and> now s \<le> now s' \<and> now s' \<le> t0 + unat limit + period + j \<and>
    (\<not> b \<longrightarrow> t0 + unat limit < now s') \<and> requests s' = requests s"
  using assms(4,5)
proof (induction "t0 + unat limit + period + j - now s" arbitrary: s rule: less_induct)
  case less
  have e: "unat (k_uptime_get_32 (now s) - k_uptime_get_32 t0) = now s - t0"
    by (rule uptime_elapsed) (use less.prems assms(3) in auto)
  show ?case
  proof (cases "seen (now s) \<or> unat limit < now s - t0")
    case True
    then show ?thesis using less.prems e by (subst wait_for.simps) (auto simp: word_less_nat_alt)
  next
    case False
    let ?s = "k_sleep w period s"
    have t: "now s + period \<le> now ?s" "now ?s \<le> now s + period + j"
      using timely_sleep [OF assms(1)] by auto
    have "t0 + unat limit + period + j - now ?s < t0 + unat limit + period + j - now s"
      using t(1) False less.prems assms(2) by linarith
    moreover have "t0 \<le> now ?s" "now ?s \<le> t0 + unat limit + period + j"
      using t False less.prems by linarith+
    ultimately obtain b s' where r: "wait_for seen w limit period (k_uptime_get_32 t0) ?s = Some (b, s')"
      "b \<longleftrightarrow> seen (now s')" "now ?s \<le> now s'" "now s' \<le> t0 + unat limit + period + j"
      "\<not> b \<longrightarrow> t0 + unat limit < now s'" "requests s' = requests ?s"
      using less.hyps by blast
    have "wait_for seen w limit period (k_uptime_get_32 t0) s =
      wait_for seen w limit period (k_uptime_get_32 t0) ?s"
      using False e by (subst wait_for.simps) (simp add: word_less_nat_alt)
    with r t show ?thesis by (auto simp: k_sleep_def)
  qed
qed

lemma wait_lease_returns:
  assumes "timely j d w" and "5250 + j < 2 ^ 32"
    and "t0 \<le> now s" and "now s \<le> t0 + 5250 + j"
  shows "\<exists>s'. wait_lease w i (k_uptime_get_32 t0) s = Some s' \<and> now s \<le> now s' \<and>
    now s' \<le> t0 + 5250 + j \<and> requests s' = requests s"
  using assms(3,4)
proof (induction "t0 + 5250 + j - now s" arbitrary: s rule: less_induct)
  case less
  have e: "unat (k_uptime_get_32 (now s) - k_uptime_get_32 t0) = now s - t0"
    by (rule uptime_elapsed) (use less.prems assms(2) in auto)
  show ?case
  proof (cases "now s - t0 < 5000 \<and> \<not> lease_active (lease_slots w i (now s))")
    case False
    then show ?thesis using less.prems e by (subst wait_lease.simps) (auto simp: word_less_nat_alt)
  next
    case True
    let ?s = "k_sleep w 250 s"
    have t: "now s + 250 \<le> now ?s" "now ?s \<le> now s + 250 + j"
      using timely_sleep [OF assms(1)] by auto
    have "t0 + 5250 + j - now ?s < t0 + 5250 + j - now s" "t0 \<le> now ?s" "now ?s \<le> t0 + 5250 + j"
      using t True less.prems by linarith+
    then obtain s' where r: "wait_lease w i (k_uptime_get_32 t0) ?s = Some s'" "now ?s \<le> now s'"
      "now s' \<le> t0 + 5250 + j" "requests s' = requests ?s"
      using less.hyps by blast
    have "wait_lease w i (k_uptime_get_32 t0) s = wait_lease w i (k_uptime_get_32 t0) ?s"
      using True e by (subst wait_lease.simps) (simp add: word_less_nat_alt)
    with r t show ?thesis by (auto simp: k_sleep_def)
  qed
qed

section \<open>Registering the USB device\<close>

text \<open>
  The registration as a list: what \<open>zenbedded_usbd_init\<close> asks of the USB stack, in order, and which
  answers it looks at.
\<close>

definition usbd_script :: "net_config \<Rightarrow> net_world \<Rightarrow> net_call list" where
  "usbd_script cfg w =
     map Add_Descriptor ([Lang_Descriptor, Mfr_Descriptor, Product_Descriptor] @
                         (if hwinfo cfg then [Sn_Descriptor] else [])) @
     concat (map (\<lambda>speed. [Add_Configuration speed, Register_All_Classes speed,
                   if usbd_cdc_class cfg then Set_Code_Triple speed 0xEF 2 1
                   else Set_Code_Triple speed 0 0 0])
       ((if usbd_supports_high_speed cfg \<and> caps_speed w = HS then [HS] else []) @ [FS])) @
     [Self_Powered 0x40, Usbd_Init]"

fun answered_ok :: "net_world \<Rightarrow> net_call \<Rightarrow> bool" where
  "answered_ok w (Set_Code_Triple sp a b c) = True"
| "answered_ok w (Self_Powered a) = True"
| "answered_ok w c = (answer w c = 0)"

fun run_script :: "net_world \<Rightarrow> net_call list \<Rightarrow> net_state \<Rightarrow> bool \<times> net_state" where
  "run_script w [] s = (True, s)"
| "run_script w (c # cs) s = (if answered_ok w c then run_script w cs (call w c s) else (False, call w c s))"

lemma usbd_init_runs_script: "zenbedded_usbd_init cfg w s = run_script w (usbd_script cfg w) s"
  by (simp add: zenbedded_usbd_init_def usbd_script_def checked_def Let_def demo_fix_code_triple_def)

lemma run_script_spec:
  "fst (run_script w cs s) = list_all (answered_ok w) cs"
  "requests (snd (run_script w cs s)) = requests s @ take (length (takeWhile (answered_ok w) cs) + 1) cs"
  by (induction cs arbitrary: s) (auto simp: call_def)

lemma run_script_time:
  "timely j d w \<Longrightarrow> now s \<le> now (snd (run_script w cs s)) \<and>
   now (snd (run_script w cs s)) \<le> now s + length cs * d"
proof (induction cs arbitrary: s)
  case (Cons c cs)
  let ?s = "call w c s"
  have "now s \<le> now ?s" "now ?s \<le> now s + d" using timely_call [OF Cons.prems] by auto
  moreover have "now ?s \<le> now (snd (run_script w cs ?s))"
    "now (snd (run_script w cs ?s)) \<le> now ?s + length cs * d"
    using Cons.IH [OF Cons.prems, where s = ?s] by auto
  ultimately have "now s \<le> now (snd (run_script w cs ?s))"
    "now (snd (run_script w cs ?s)) \<le> now s + (d + length cs * d)" "now ?s \<le> now s + (d + length cs * d)"
    by linarith+
  with \<open>now s \<le> now ?s\<close> show ?case by auto
qed simp

lemma usbd_init_time:
  assumes "timely j d w" and "zenbedded_usbd_init cfg w s = (b, s')"
  shows "now s \<le> now s' \<and> now s' \<le> now s + 12 * d"
proof -
  have "length (usbd_script cfg w) \<le> 12" by (simp add: usbd_script_def)
  then have "length (usbd_script cfg w) * d \<le> 12 * d" by (rule mult_le_mono1)
  moreover have "now s \<le> now s'" "now s' \<le> now s + length (usbd_script cfg w) * d"
    using run_script_time [OF assms(1), where s = s and cs = "usbd_script cfg w"] assms(2)
    by (simp_all add: usbd_init_runs_script)
  ultimately show ?thesis by linarith
qed

text \<open>\<open>zenbedded_usbd_init\<close> registers the descriptors, the high-speed configuration where the
  controller has one, then the full-speed one, and calls \<open>usbd_init\<close> last; it stops at the first
  request the stack refuses, and returns the device exactly when every one was accepted.\<close>

theorem usbd_init_stops_at_first_refusal:
  "fst (zenbedded_usbd_init cfg w s) = list_all (answered_ok w) (usbd_script cfg w) \<and>
   requests (snd (zenbedded_usbd_init cfg w s)) =
     requests s @ take (length (takeWhile (answered_ok w) (usbd_script cfg w)) + 1) (usbd_script cfg w)"
  by (simp add: usbd_init_runs_script run_script_spec)

section \<open>Bringing the interfaces up\<close>

lemma init_wifi_returns:
  assumes w: "timely j d w" and j: "j < 2 ^ 31"
  shows "\<exists>r s'. init_wifi cfg w iface s = Some (r, s') \<and> now s \<le> now s' \<and>
    now s' \<le> now s + 30700 + 2 * j + 3 * d \<and>
    (r = 0 \<longrightarrow> (\<exists>t. now s \<le> t \<and> t \<le> now s' \<and> ipv4_preferred w (wifi_iface w iface) t)) \<and>
    (wifi cfg \<and> answer w (Wifi_Connect_Stored (wifi_iface w iface)) \<in> {0, - EALREADY} \<and> r \<noteq> 0 \<longrightarrow>
      (\<exists>t > now s + 30500. \<not> ipv4_preferred w (wifi_iface w iface) t))"
proof (cases "wifi cfg")
  case True
  let ?i = "wifi_iface w iface"
  let ?c = "Wifi_Connect_Stored ?i"
  let ?s1 = "call w ?c (k_sleep w 500 s)"
  let ?s2 = "if net_dhcpv4 cfg \<and> \<not> esp32_wifi_sta_auto_dhcpv4 cfg
             then call w (Dhcpv4_Start ?i) ?s1 else ?s1"
  have t: "now s + 500 \<le> now (k_sleep w 500 s)" "now (k_sleep w 500 s) \<le> now s + 500 + j"
    "now (k_sleep w 500 s) \<le> now ?s1" "now ?s1 \<le> now (k_sleep w 500 s) + d"
    "now ?s1 \<le> now ?s2" "now ?s2 \<le> now ?s1 + d"
    using timely_sleep [OF w] timely_call [OF w] by auto
  show ?thesis
  proof (cases "answer w ?c \<noteq> 0 \<and> answer w ?c \<noteq> - EALREADY")
    case True
    with \<open>wifi cfg\<close> t show ?thesis by (auto simp: init_wifi_def Let_def)
  next
    case False
    have "unat kIpv4AcquireTimeout = 30000" by (simp add: kIpv4AcquireTimeout_def)
    then obtain b s' where r: "wait_for (ipv4_preferred w ?i) w kIpv4AcquireTimeout 200
        (k_uptime_get_32 (now ?s2)) ?s2 = Some (b, s')" and
      l: "b \<longleftrightarrow> ipv4_preferred w ?i (now s')" "now ?s2 \<le> now s'" "now s' \<le> now ?s2 + 30000 + 200 + j"
        "\<not> b \<longrightarrow> now ?s2 + 30000 < now s'"
      using wait_for_returns [OF w, of 200 kIpv4AcquireTimeout "now ?s2" ?s2 "ipv4_preferred w ?i"] j
      by auto
    let ?s3 = "if soc_esp32 cfg then call w Esp_Power_Save_None s' else s'"
    have e: "now s' \<le> now ?s3" "now ?s3 \<le> now s' + d" using timely_call [OF w] by auto
    have "init_wifi cfg w iface s = Some (if b then (0, ?s3) else (- ETIMEDOUT, s'))"
      using False \<open>wifi cfg\<close> r unfolding init_wifi_def Let_def by auto
    moreover have "\<exists>u. now s \<le> u \<and> u \<le> now ?s3 \<and> ipv4_preferred w ?i u" if b
      by (rule exI [of _ "now s'"]) (use that l t e in linarith)
    moreover have "\<exists>u > now s + 30500. \<not> ipv4_preferred w ?i u" if "\<not> b"
      by (rule exI [of _ "now s'"]) (use that l t e in linarith)
    ultimately show ?thesis using t l e by (cases b) (auto simp: ETIMEDOUT_def)
  qed
qed (simp add: init_wifi_def ENOTSUP_def)

lemma bring_up_device_returns:
  assumes w: "timely j d w" and j: "j < 2 ^ 31"
  shows "\<exists>r s'. bring_up_device cfg w i s = Some (r, s') \<and> now s \<le> now s' \<and>
    now s' \<le> now s + 2100 + j + 14 * d \<and>
    (r = 0 \<longrightarrow> (\<exists>t. now s \<le> t \<and> t \<le> now s' \<and> carrier_ok w i t))"
proof -
  obtain ctx s1 where u: "zenbedded_usbd_init cfg w s = (ctx, s1)" by fastforce
  let ?s2 = "call w Usbd_Enable s1"
  have t: "now s \<le> now s1" "now s1 \<le> now s + 12 * d" "now s1 \<le> now ?s2" "now ?s2 \<le> now s1 + d"
    using usbd_init_time [OF w u] timely_call [OF w] by auto
  show ?thesis
  proof (cases "ctx \<and> answer w Usbd_Enable = 0")
    case False
    with t u show ?thesis by (auto simp: bring_up_device_def ENODEV_def)
  next
    case True
    obtain b s' where r: "wait_for (carrier_ok w i) w 2000 100 (k_uptime_get_32 (now ?s2)) ?s2
        = Some (b, s')" and
      l: "b \<longleftrightarrow> carrier_ok w i (now s')" "now ?s2 \<le> now s'" "now s' \<le> now ?s2 + 2000 + 100 + j"
      using wait_for_returns [OF w, of 100 2000 "now ?s2" ?s2 "carrier_ok w i"] j by auto
    let ?s3 = "if net_config_settings cfg then call w Net_Config_Init_App s'
      else if net_dhcpv4 cfg then call w (Dhcpv4_Start i) s' else s'"
    have e: "now s' \<le> now ?s3" "now ?s3 \<le> now s' + d" using timely_call [OF w] by auto
    have "bring_up_device cfg w i s = Some (if b then (0, ?s3) else (- ENOTCONN, s'))"
      using True u r unfolding bring_up_device_def Let_def by auto
    moreover have "\<exists>v. now s \<le> v \<and> v \<le> now ?s3 \<and> carrier_ok w i v" if b
      by (rule exI [of _ "now s'"]) (use that l t e in linarith)
    ultimately show ?thesis using t l e by (cases b) (auto simp: ENOTCONN_def)
  qed
qed

lemma serve_dhcp_returns:
  assumes w: "timely j d w" and j: "j < 2 ^ 31"
  shows "\<exists>s'. serve_dhcp cfg w i s = Some s' \<and> now s \<le> now s' \<and> now s' \<le> now s + 5250 + j + d"
proof (cases "net_dhcpv4_server cfg")
  case True
  let ?s1 = "if peer_addr_parses w then call w (Dhcpv4_Server_Start i) s else s"
  have t: "now s \<le> now ?s1" "now ?s1 \<le> now s + d" using timely_call [OF w] by auto
  obtain s' where "wait_lease w i (k_uptime_get_32 (now ?s1)) ?s1 = Some s'" "now ?s1 \<le> now s'"
    "now s' \<le> now ?s1 + 5250 + j"
    using wait_lease_returns [OF w, of "now ?s1" ?s1 i] j by auto
  with True t show ?thesis unfolding serve_dhcp_def Let_def by auto
qed (simp add: serve_dhcp_def)

lemma init_usbd_returns:
  assumes w: "timely j d w" and j: "j < 2 ^ 31"
  shows "\<exists>r s'. init_usbd cfg w iface s = Some (r, s') \<and> now s \<le> now s' \<and>
    now s' \<le> now s + 37550 + 3 * j + 15 * d \<and>
    (r = 0 \<longrightarrow> (\<exists>t. now s \<le> t \<and> t \<le> now s' \<and> ipv4_preferred w (usbd_iface cfg w iface) t))"
proof (cases "usb_cdc cfg")
  case True
  let ?i = "usbd_iface cfg w iface"
  let ?b = "if usb_device_stack_next cfg then bring_up_device cfg w ?i s else Some (0, s)"
  obtain r1 s1 where b: "?b = Some (r1, s1)" "now s \<le> now s1" "now s1 \<le> now s + 2100 + j + 14 * d"
    using bring_up_device_returns [OF w j, of cfg ?i s] by (cases "usb_device_stack_next cfg") auto
  show ?thesis
  proof (cases "r1 = 0")
    case False
    have "init_usbd cfg w iface s = Some (r1, s1)"
      using b(1) False True unfolding init_usbd_def Let_def by auto
    with b False show ?thesis by auto
  next
    case r1: True
    have "unat kIpv4AcquireTimeout = 30000" by (simp add: kIpv4AcquireTimeout_def)
    then obtain up s2 where r: "wait_for (ipv4_preferred w ?i) w kIpv4AcquireTimeout 200
        (k_uptime_get_32 (now s1)) s1 = Some (up, s2)" and
      l: "up \<longleftrightarrow> ipv4_preferred w ?i (now s2)" "now s1 \<le> now s2" "now s2 \<le> now s1 + 30000 + 200 + j"
      using wait_for_returns [OF w, of 200 kIpv4AcquireTimeout "now s1" s1 "ipv4_preferred w ?i"] j
      by auto
    obtain s3 where d: "serve_dhcp cfg w ?i s2 = Some s3" "now s2 \<le> now s3"
      "now s3 \<le> now s2 + 5250 + j + d"
      using serve_dhcp_returns [OF w j, of cfg ?i s2] by blast
    have e: "init_usbd cfg w iface s = Some (if up then (0, s3) else (- ETIMEDOUT, s2))"
      using b(1) r1 True r d(1) unfolding init_usbd_def Let_def by auto
    have "\<exists>u. now s \<le> u \<and> u \<le> now s3 \<and> ipv4_preferred w ?i u" if up
      by (rule exI [of _ "now s2"]) (use that l b d in linarith)
    with e b l d show ?thesis by (cases up) (auto simp: ETIMEDOUT_def)
  qed
qed (simp add: init_usbd_def ENOTSUP_def)

lemma init_network_returns:
  assumes w: "timely j d w" and j: "j < 2 ^ 31"
  shows "\<exists>r s'. init_network cfg w s = Some (r, s') \<and> now s \<le> now s' \<and>
    now s' \<le> now s + 68250 + 5 * j + 18 * d \<and>
    (r = 0 \<longrightarrow> usb_cdc cfg \<or> wifi cfg \<longrightarrow> (\<exists>t. now s \<le> t \<and> t \<le> now s' \<and>
      (usb_cdc cfg \<and> ipv4_preferred w (usbd_iface cfg w None) t \<or>
       wifi cfg \<and> ipv4_preferred w (wifi_iface w None) t)))"
proof -
  obtain r1 s1 where u: "init_usbd cfg w None s = Some (r1, s1)" "now s \<le> now s1"
    "now s1 \<le> now s + 37550 + 3 * j + 15 * d"
    "r1 = 0 \<longrightarrow> (\<exists>t. now s \<le> t \<and> t \<le> now s1 \<and> ipv4_preferred w (usbd_iface cfg w None) t)"
    using init_usbd_returns [OF w j, of cfg None s] by blast
  have x: "\<exists>r2 s2. init_wifi cfg w None s' = Some (r2, s2) \<and> now s' \<le> now s2 \<and>
    now s2 \<le> now s' + 30700 + 2 * j + 3 * d \<and>
    (r2 = 0 \<longrightarrow> (\<exists>t. now s' \<le> t \<and> t \<le> now s2 \<and> ipv4_preferred w (wifi_iface w None) t))" for s'
    using init_wifi_returns [OF w j, of cfg None s'] by blast
  consider "usb_cdc cfg" "wifi cfg" | "usb_cdc cfg" "\<not> wifi cfg" | "\<not> usb_cdc cfg" "wifi cfg"
    | "\<not> usb_cdc cfg" "\<not> wifi cfg" by blast
  then show ?thesis
  proof cases
    case 1
    obtain r2 s2 where v: "init_wifi cfg w None s1 = Some (r2, s2)" "now s1 \<le> now s2"
      "now s2 \<le> now s1 + 30700 + 2 * j + 3 * d"
      "r2 = 0 \<longrightarrow> (\<exists>t. now s1 \<le> t \<and> t \<le> now s2 \<and> ipv4_preferred w (wifi_iface w None) t)"
      using x [of s1] by blast
    have e: "init_network cfg w s = Some (if r1 = 0 \<or> r2 = 0 then 0 else - ENETDOWN, s2)"
      using 1 u(1) v(1) by (simp add: init_network_def)
    have "\<exists>t. now s \<le> t \<and> t \<le> now s2 \<and> (ipv4_preferred w (usbd_iface cfg w None) t \<or>
      ipv4_preferred w (wifi_iface w None) t)" if "r1 = 0 \<or> r2 = 0"
      using that u v by (meson le_trans)
    with e 1 u v show ?thesis by (auto simp: ENETDOWN_def)
  next
    case 2
    with u show ?thesis by (auto simp: init_network_def)
  next
    case 3
    obtain r2 s2 where v: "init_wifi cfg w None s = Some (r2, s2)" "now s \<le> now s2"
      "now s2 \<le> now s + 30700 + 2 * j + 3 * d"
      "r2 = 0 \<longrightarrow> (\<exists>t. now s \<le> t \<and> t \<le> now s2 \<and> ipv4_preferred w (wifi_iface w None) t)"
      using x [of s] by blast
    with 3 show ?thesis by (auto simp: init_network_def)
  next
    case 4
    then show ?thesis by (simp add: init_network_def)
  qed
qed

definition quick_world :: net_world where
  "quick_world = \<lparr>answer = (\<lambda>c. 0), returns_at = (\<lambda>c t. t + 1), wake = (\<lambda>t n. t + n),
     wifi_sta_if = Some 1, default_if = Some 0, cdc_ecm_if = Some 2, caps_speed = FS,
     ipv4_preferred = (\<lambda>i t. i = Some 1 \<and> 4294968000 \<le> t), carrier_ok = (\<lambda>i t. False),
     if_up = (\<lambda>i t. True), lease_slots = (\<lambda>i t. []), peer_addr_parses = True\<rparr>"

definition dual_config :: net_config where
  "dual_config = \<lparr>usb_cdc = True, wifi = True, usb_device_stack_next = True, usbd_cdc_class = True,
     usbd_cdc_ecm_class = True, net_config_settings = True, net_dhcpv4 = True,
     net_dhcpv4_server = True, esp32_wifi_sta_auto_dhcpv4 = True, soc_esp32 = True, hwinfo = True,
     usbd_supports_high_speed = False, peer_ipv4_addr = Some ''192.0.2.1''\<rparr>"

text \<open>C33: \<open>init_network\<close> returns, within 68.25 s plus the latency of the scheduler and of the requests,
  whatever the interfaces do and also when the 32-bit uptime wraps meanwhile; and it reports
  success only if an enabled interface was seen with a preferred IPv4 address while it ran.\<close>

theorem init_network_terminates:
  assumes "timely j d w" and "j < 2 ^ 31"
  shows "\<exists>r s'. init_network cfg w s = Some (r, s') \<and> now s \<le> now s' \<and>
    now s' \<le> now s + 68250 + 5 * j + 18 * d \<and>
    (r = 0 \<longrightarrow> usb_cdc cfg \<or> wifi cfg \<longrightarrow> (\<exists>t. now s \<le> t \<and> t \<le> now s' \<and>
      (usb_cdc cfg \<and> ipv4_preferred w (usbd_iface cfg w None) t \<or>
       wifi cfg \<and> ipv4_preferred w (wifi_iface w None) t)))"
  by (rule init_network_returns [OF assms])

lemma quick_world_timely: "timely 0 1 quick_world"
  by (simp add: timely_def quick_world_def)

theorem init_network_terminates_witness:
  "\<exists>r s'. init_network dual_config quick_world \<lparr>now = 4294967000, requests = []\<rparr> = Some (r, s') \<and>
    now s' \<le> 4295035268"
  using init_network_terminates [OF quick_world_timely, where cfg = dual_config and
      s = "\<lparr>now = 4294967000, requests = []\<rparr>"] by fastforce

text \<open>C35: with both transports enabled a USB cable that never comes up does not keep the network
  down: if the stored-credential request is accepted and the Wi-Fi interface holds a preferred
  address from at most 30.5 s after the start on, \<open>init_network\<close> returns 0, whatever the USB side
  returned.\<close>

theorem init_network_falls_back_to_wifi:
  assumes w: "timely j d w" and j: "j < 2 ^ 31" and c: "usb_cdc cfg" "wifi cfg"
    and a: "answer w (Wifi_Connect_Stored (wifi_iface w None)) \<in> {0, - EALREADY}"
    and p: "\<And>t. now s + 30500 \<le> t \<Longrightarrow> ipv4_preferred w (wifi_iface w None) t"
  shows "\<exists>s'. init_network cfg w s = Some (0, s')"
proof -
  obtain r1 s1 where u: "init_usbd cfg w None s = Some (r1, s1)" "now s \<le> now s1"
    using init_usbd_returns [OF w j, of cfg None s] by blast
  obtain r2 s2 where v: "init_wifi cfg w None s1 = Some (r2, s2)"
    "r2 \<noteq> 0 \<longrightarrow> (\<exists>t > now s1 + 30500. \<not> ipv4_preferred w (wifi_iface w None) t)"
    using init_wifi_returns [OF w j, of cfg None s1] c a by blast
  have "r2 = 0" using v(2) p u(2) by (meson add_le_mono1 le_trans less_imp_le)
  with c u v show ?thesis by (auto simp: init_network_def)
qed

theorem init_network_falls_back_to_wifi_witness:
  "\<exists>s'. init_network dual_config quick_world \<lparr>now = 4294967000, requests = []\<rparr> = Some (0, s')"
  by (rule init_network_falls_back_to_wifi [OF quick_world_timely])
    (simp_all add: dual_config_def quick_world_def wifi_iface_def or_else_def)

section \<open>The USB peer locator\<close>

lemma after_last_Some: "after_last c s = Some r \<longleftrightarrow> (\<exists>p. s = p @ c # r) \<and> c \<notin> set r"
proof (induction s arbitrary: r)
  case (Cons x s)
  have n: "after_last c s = None \<longleftrightarrow> c \<notin> set s" for s
    by (induction s) (auto split: option.splits)
  show ?case
  proof (cases "after_last c s")
    case None
    then have "c \<notin> set s" using n by blast
    with None show ?thesis by (auto simp: Cons_eq_append_conv)
  next
    case (Some r')
    then obtain p where p: "s = p @ c # r'" "c \<notin> set r'" using Cons.IH by blast
    have "r' = r" if h: "x # s = q @ c # r" "c \<notin> set r" for q
    proof (cases q)
      case Nil
      with h p show ?thesis by auto
    next
      case (Cons y q')
      with h Cons.IH [of r] have "after_last c s = Some r" by auto
      with Some show ?thesis by simp
    qed
    moreover have "x # s = (x # p) @ c # r'" using p by simp
    ultimately show ?thesis using Some p(2) by auto
  qed
qed simp

lemma after_last_None: "c \<notin> set s \<Longrightarrow> after_last c s = None"
  by (induction s) auto

text \<open>What the buffer and the result are for a port: \<open>peer:port\<close>, or its longest prefix that fits.\<close>

definition written_locator :: "net_config \<Rightarrow> string \<Rightarrow> nat \<Rightarrow> int \<times> string option" where
  "written_locator cfg port out_len =
     (let full = (case peer_ipv4_addr cfg of Some a \<Rightarrow> a | None \<Rightarrow> ''192.0.2.1'') @ '':'' @ port
      in if length full < out_len then (0, Some full) else (- ENOSPC, Some (take (out_len - 1) full)))"

text \<open>the locator of the USB peer keeps the port of the target locator: the text after its last
  colon when that starts with a digit, and 7447 when the target has no colon (or is null). The
  buffer receives \<open>peer:port\<close> with 0 exactly when it fits with its terminator, and its longest
  prefix with \<open>-ENOSPC\<close> otherwise; a null or empty buffer is refused and left alone.\<close>

theorem usb_peer_locator_keeps_port:
  assumes "CHR '':'' \<notin> set port" and "isdigit (hd port)" and "port \<noteq> []" and "CHR '':'' \<notin> set bare"
    and "out_len \<noteq> 0"
  shows "get_usb_peer_locator cfg (Some (host @ '':'' @ port)) (Some old) out_len =
      written_locator cfg port out_len \<and>
    get_usb_peer_locator cfg (Some bare) (Some old) out_len = written_locator cfg ''7447'' out_len \<and>
    get_usb_peer_locator cfg None (Some old) out_len = written_locator cfg ''7447'' out_len \<and>
    get_usb_peer_locator cfg t None out_len = (- EINVAL, None) \<and>
    get_usb_peer_locator cfg t (Some old) 0 = (- EINVAL, Some old)"
proof -
  have "after_last (CHR '':'') (host @ '':'' @ port) = Some port"
    using assms(1) by (subst after_last_Some) auto
  then have "locator_port (Some (host @ '':'' @ port)) = port"
    using assms(2,3) by (simp add: locator_port_def)
  moreover have "locator_port (Some bare) = ''7447''" "locator_port None = ''7447''"
    using after_last_None [OF assms(4)] by (simp_all add: locator_port_def)
  moreover have "get_usb_peer_locator cfg tgt (Some old) out_len =
      written_locator cfg (locator_port tgt) out_len" for tgt
    using assms(5) by (auto simp: get_usb_peer_locator_def written_locator_def snprintf_def Let_def)
  ultimately show ?thesis by (simp add: get_usb_peer_locator_def)
qed

theorem usb_peer_locator_keeps_port_witness:
  "get_usb_peer_locator dual_config (Some ''10.69.75.128:10001'') (Some []) 32 =
     (0, Some ''192.0.2.1:10001'')"
  using usb_peer_locator_keeps_port [of "''10001''" "''10.69.75.128''" 32 dual_config
      "''10.69.75.128''" "[]" None]
  by (simp add: isdigit_def dual_config_def written_locator_def)

text \<open>The colons of an IPv6 address count as well: the port is the tail of the address.\<close>

lemma usb_peer_locator_of_ipv6_address:
  "get_usb_peer_locator dual_config (Some ''tcp/[fe80::1]'') (Some []) 32 =
     (0, Some ''192.0.2.1:1]'')"
  by code_simp

end
