(* ===== verification/Position_Codec.thy ===== *)
theory Position_Codec
  imports Client_Lemmas
begin

text \<open>
  \<open>JointStateCodec\<close> the way the Tier 1 pendulum uses it: values with positions only. The serializer
  leaves the bytes of an array that is not passed alone, so what a message carries as velocities and
  efforts is what the template has there. That is a second instance of the contract of \<open>Codecs\<close>, with
  another notion of a complete value and of what a slot holds.
\<close>

definition only_positions :: "joint_state_params \<Rightarrow> joint_state_value \<Rightarrow> bool" where
  "only_positions p v \<longleftrightarrow>
     (\<exists>ds. positions v = Some ds \<and> unat (p_num_joints p) \<le> length ds) \<and>
     velocities v = None \<and> efforts v = None"

definition rest_is_template :: "joint_state_params \<Rightarrow> bytes \<Rightarrow> bool" where
  "rest_is_template p b \<longleftrightarrow> (\<exists>m rest. js_same p m \<and> js_velocity m = js_velocity (js_of p) \<and>
     js_effort m = js_effort (js_of p) \<and> b = kCdrHeader @ lay_joint_state m @ rest)"

lemma positions_patch:
  assumes "only_positions p v" "js_same p m" "js_velocity m = js_velocity (js_of p)"
    "js_effort m = js_effort (js_of p)"
  shows "js_patch (p_num_joints p) (stamp_sec v) (stamp_nanosec v) (positions v) (velocities v)
     (efforts v) m = js_message p v"
  using assms by (cases m; cases "js_of p")
    (auto simp: js_message_def js_patch_def only_positions_def js_same_def pick_def)

interpretation position_state: state_codec joint_state_init joint_state_payload_size
  joint_state_write js_params_ok js_bytes js_context rest_is_template only_positions js_wire
proof
  fix p :: joint_state_params and v :: joint_state_value and b :: bytes and cap :: nat
  assume ok: "js_params_ok p"
  show "\<exists>b. joint_state_init p (replicate cap 0) = Some (js_context p, b) \<and> length b = cap \<and>
      rest_is_template p b" if "js_bytes p \<le> cap" "cap \<le> 2 ^ 31"
  proof -
    have "zcdr_init_joint_state (frame_id p) (joint_names p) (p_num_joints p) (replicate cap 0) =
        Some (js_context p, kCdrHeader @ lay_joint_state (js_of p) @
          replicate (cap - (4 + length (lay_joint_state (js_of p)))) 0)"
      unfolding js_context_def js_of_def
      by (rule zcdr_init_joint_state_layout)
        (use ok that in \<open>simp_all add: js_params_ok_def js_bytes_def js_of_def fits_def\<close>)
    then show ?thesis
      using that js_same_template [OF ok]
      by (auto simp: joint_state_init_def rest_is_template_def js_bytes_def)
  qed
  assume small: "js_bytes p \<le> 2 ^ 31"
  then show "unat (joint_state_payload_size (js_context p)) = js_bytes p"
    by (rule joint_state.size_of_context [OF ok])
  show "\<exists>b'. joint_state_write (js_context p) v b = Some b' \<and> length b' = length b \<and>
      rest_is_template p b' \<and> take (js_bytes p) b' = js_wire p v"
    if holds: "rest_is_template p b" and full: "only_positions p v"
  proof -
    obtain m rest where m: "js_same p m" "js_velocity m = js_velocity (js_of p)"
      "js_effort m = js_effort (js_of p)" "b = kCdrHeader @ lay_joint_state m @ rest"
      using holds unfolding rest_is_template_def by blast
    have patched: "js_same p (js_message p v)" "js_velocity (js_message p v) = js_velocity (js_of p)"
      "js_effort (js_message p v) = js_effort (js_of p)"
      using js_same_template [OF ok] full
      by (auto simp: js_same_def js_message_def js_patch_def js_wf_def only_positions_def pick_def)
    have "joint_state_write (js_context p) v b = Some (js_wire p v @ rest)"
      using serialize_joint_state_lay(1) [of "p_num_joints p" m "positions v" "velocities v"
          "efforts v" "stamp_sec v" "stamp_nanosec v" rest] small full m
        js_same_layout [OF ok m(1)]
      by (auto simp: joint_state_write_def js_wire_def only_positions_def js_same_def array_ok_def
          js_same_ctx [OF ok m(1) small] positions_patch [OF full m(1,2,3), symmetric])
    then show ?thesis
      using patched js_same_layout [OF ok patched(1)] js_same_layout [OF ok m(1)] m(4)
      by (auto simp: rest_is_template_def js_wire_def)
  qed
qed

interpretation position_client: client_codecs joint_state_init joint_state_payload_size
  joint_state_write js_params_ok js_bytes js_context rest_is_template only_positions js_wire
  joint_command_init joint_command_payload_size joint_command_read jc_params_ok jc_bytes
  jc_context jc_room jc_wire
  by (intro client_codecs.intro position_state.state_codec_axioms joint_command.command_codec_axioms)

end
