(* ===== verification/Float_Ops.thy ===== *)
theory Float_Ops
  imports Ieee754
begin

text \<open>
  Double-precision arithmetic as the control code uses it: the operations of IEEE 754 on bit
  patterns (exact result, then rounding to nearest even by the encoder of \<open>Ieee754\<close>), the
  comparisons, which are false on a NaN, and the functions of \<open><cmath>\<close> and \<open><algorithm>\<close> that
  are exact. The transcendental functions, whose last bits no standard fixes, are the record
  \<open>libm\<close>, a parameter.
\<close>

section \<open>Arithmetic\<close>

fun fp_neg :: "fp \<Rightarrow> fp" where
  "fp_neg NaN = NaN"
| "fp_neg (Infinite s) = Infinite (\<not> s)"
| "fp_neg (Fin s m e) = Fin (\<not> s) m e"

fun fp_mul :: "fp \<Rightarrow> fp \<Rightarrow> fp" where
  "fp_mul NaN y = NaN"
| "fp_mul x NaN = NaN"
| "fp_mul (Infinite s) (Infinite t) = Infinite (s \<noteq> t)"
| "fp_mul (Infinite s) (Fin t n g) = (if n = 0 then NaN else Infinite (s \<noteq> t))"
| "fp_mul (Fin s m e) (Infinite t) = (if m = 0 then NaN else Infinite (s \<noteq> t))"
| "fp_mul (Fin s m e) (Fin t n g) = Fin (s \<noteq> t) (m * n) (e + g)"

text \<open>A mantissa with its sign, scaled down to a smaller exponent.\<close>

definition scaled :: "bool \<Rightarrow> nat \<Rightarrow> int \<Rightarrow> int" where
  "scaled s m k = (if s then - int (m * 2 ^ nat k) else int (m * 2 ^ nat k))"

fun fp_add :: "fp \<Rightarrow> fp \<Rightarrow> fp" where
  "fp_add NaN y = NaN"
| "fp_add x NaN = NaN"
| "fp_add (Infinite s) (Infinite t) = (if s = t then Infinite s else NaN)"
| "fp_add (Infinite s) (Fin t n g) = Infinite s"
| "fp_add (Fin s m e) (Infinite t) = Infinite t"
| "fp_add (Fin s m e) (Fin t n g) =
     (let k = min e g; v = scaled s m (e - k) + scaled t n (g - k)
      in if v = 0 then Fin (s \<and> t) 0 k else Fin (v < 0) (nat \<bar>v\<bar>) k)"

text \<open>The quotient carries at least 57 bits and a last bit that says whether it is inexact, which
  is all that rounding to 53 bits looks at.\<close>

fun fp_div :: "fp \<Rightarrow> fp \<Rightarrow> fp" where
  "fp_div NaN y = NaN"
| "fp_div x NaN = NaN"
| "fp_div (Infinite s) (Infinite t) = NaN"
| "fp_div (Infinite s) (Fin t n g) = Infinite (s \<noteq> t)"
| "fp_div (Fin s m e) (Infinite t) = Fin (s \<noteq> t) 0 e"
| "fp_div (Fin s m e) (Fin t n g) =
     (if n = 0 then (if m = 0 then NaN else Infinite (s \<noteq> t))
      else
        let k = 56 + nat_bits n; q = m * 2 ^ k div n; sticky = (if m * 2 ^ k mod n = 0 then 0 else 1)
        in Fin (s \<noteq> t) (2 * q + sticky) (e - g - int k - 1))"

text \<open>\<open>std::remainder\<close>: what is left after subtracting the nearest multiple, ties to even.\<close>

fun fp_remainder :: "fp \<Rightarrow> fp \<Rightarrow> fp" where
  "fp_remainder NaN y = NaN"
| "fp_remainder x NaN = NaN"
| "fp_remainder (Infinite s) y = NaN"
| "fp_remainder x (Infinite t) = x"
| "fp_remainder (Fin s m e) (Fin t n g) =
     (if n = 0 then NaN
      else
        let k = min e g; x = m * 2 ^ nat (e - k); y = n * 2 ^ nat (g - k); q = x div y; r = x mod y
        in if y < 2 * r \<or> (y = 2 * r \<and> odd q) then Fin (\<not> s) (y - r) k else Fin s r k)"

text \<open>\<open>fmod\<close>: the quotient truncated towards zero.\<close>

fun fp_fmod :: "fp \<Rightarrow> fp \<Rightarrow> fp" where
  "fp_fmod NaN y = NaN"
| "fp_fmod x NaN = NaN"
| "fp_fmod (Infinite s) y = NaN"
| "fp_fmod x (Infinite t) = x"
| "fp_fmod (Fin s m e) (Fin t n g) =
     (if n = 0 then NaN
      else
        let k = min e g; x = m * 2 ^ nat (e - k); y = n * 2 ^ nat (g - k)
        in Fin s (x mod y) k)"

definition f64_neg :: "f64 \<Rightarrow> f64" where "f64_neg x = to_f64 (fp_neg (of_f64 x))"
definition f64_mul :: "f64 \<Rightarrow> f64 \<Rightarrow> f64" where "f64_mul x y = to_f64 (fp_mul (of_f64 x) (of_f64 y))"
definition f64_add :: "f64 \<Rightarrow> f64 \<Rightarrow> f64" where "f64_add x y = to_f64 (fp_add (of_f64 x) (of_f64 y))"
definition f64_sub :: "f64 \<Rightarrow> f64 \<Rightarrow> f64" where
  "f64_sub x y = to_f64 (fp_add (of_f64 x) (fp_neg (of_f64 y)))"
definition f64_div :: "f64 \<Rightarrow> f64 \<Rightarrow> f64" where "f64_div x y = to_f64 (fp_div (of_f64 x) (of_f64 y))"
definition f64_remainder :: "f64 \<Rightarrow> f64 \<Rightarrow> f64" where
  "f64_remainder x y = to_f64 (fp_remainder (of_f64 x) (of_f64 y))"

definition f64_fmod :: "f64 \<Rightarrow> f64 \<Rightarrow> f64" where
  "f64_fmod x y = to_f64 (fp_fmod (of_f64 x) (of_f64 y))"

text \<open>The literal \<open>m * 10^-k\<close>.\<close>

definition dec :: "int \<Rightarrow> nat \<Rightarrow> f64" where
  "dec m k = to_f64 (fp_div (Fin (m < 0) (nat \<bar>m\<bar>) 0) (Fin False (10 ^ k) 0))"

definition M_PI :: f64 where "M_PI = 0x400921FB54442D18"

section \<open>Comparisons\<close>

text \<open>Patterns without their sign bit are ordered like the numbers they stand for.\<close>

definition f64_key :: "f64 \<Rightarrow> int" where
  "f64_key x =
     (let b = unat x in if b < 2 ^ 63 then int b else - int (b - 2 ^ 63))"

definition f64_lt :: "f64 \<Rightarrow> f64 \<Rightarrow> bool" where
  "f64_lt x y \<longleftrightarrow> \<not> isnan x \<and> \<not> isnan y \<and> f64_key x < f64_key y"

definition f64_le :: "f64 \<Rightarrow> f64 \<Rightarrow> bool" where
  "f64_le x y \<longleftrightarrow> \<not> isnan x \<and> \<not> isnan y \<and> f64_key x \<le> f64_key y"

definition f64_eq :: "f64 \<Rightarrow> f64 \<Rightarrow> bool" where
  "f64_eq x y \<longleftrightarrow> \<not> isnan x \<and> \<not> isnan y \<and> f64_key x = f64_key y"

definition isfinite :: "f64 \<Rightarrow> bool" where
  "isfinite x = (case of_f64 x of Fin _ _ _ \<Rightarrow> True | _ \<Rightarrow> False)"

definition f64_abs :: "f64 \<Rightarrow> f64" where "f64_abs x = word_of_nat (unat x mod 2 ^ 63)"

definition f64_copysign :: "f64 \<Rightarrow> f64 \<Rightarrow> f64" where
  "f64_copysign x y = word_of_nat (unat x mod 2 ^ 63 + (if unat y < 2 ^ 63 then 0 else 2 ^ 63))"

definition f64_clamp :: "f64 \<Rightarrow> f64 \<Rightarrow> f64 \<Rightarrow> f64" where
  "f64_clamp v lo hi = (if f64_lt v lo then lo else if f64_lt hi v then hi else v)"

definition f64_max :: "f64 \<Rightarrow> f64 \<Rightarrow> f64" where "f64_max x y = (if f64_lt x y then y else x)"
definition f64_min :: "f64 \<Rightarrow> f64 \<Rightarrow> f64" where "f64_min x y = (if f64_lt y x then y else x)"

text \<open>\<open>lround\<close>: to the nearest integer, halves away from zero; unspecified when not finite.\<close>

definition f64_lround :: "f64 \<Rightarrow> int option" where
  "f64_lround x =
     (case of_f64 x of
        Fin s m e \<Rightarrow>
          let n = (if 0 \<le> e then m * 2 ^ nat e else (m + 2 ^ (nat (- e) - 1)) div 2 ^ nat (- e))
          in Some (if s then - int n else int n)
      | _ \<Rightarrow> None)"

record libm =
  lm_sin :: "f64 \<Rightarrow> f64"
  lm_cos :: "f64 \<Rightarrow> f64"
  lm_tanh :: "f64 \<Rightarrow> f64"

end
