(* ===== verification/Float_Lemmas.thy ===== *)
theory Float_Lemmas
  imports Float_Ops
begin

text \<open>
  What proofs about control code need of floating point: which operations can produce a NaN, that
  the comparisons order the numbers (so \<open>std::clamp\<close> confines), and that rounding to an integer
  respects integer bounds.
\<close>

section \<open>NaN\<close>

lemma fp_decode_fp_encode_NaN:
  assumes ok: "fmt_ok f" and x: "x \<noteq> NaN"
  shows "fp_decode f (fp_encode f x) \<noteq> NaN"
proof -
  let ?P = "2 ^ frac_bits f :: nat" and ?W = "2 ^ exp_bits f :: nat"
  have main: "fp_decode f (sign_bit f s + v) \<noteq> NaN" if v: "v \<le> inf_bits f" for s v
  proof -
    have "v div ?P \<le> ?W - 1" using div_le_mono [OF v, of ?P] by (simp add: inf_bits_def)
    then have ex: "v div ?P < ?W" by (meson order_le_less_trans diff_less zero_less_one zero_less_power zero_less_numeral)
    have fr: "v mod ?P < ?P" by simp
    have "v mod ?P = 0" if "v div ?P = ?W - 1"
    proof -
      have "v = (?W - 1) * ?P + v mod ?P" using div_mult_mod_eq [of v ?P] that by simp
      with v show ?thesis by (simp add: inf_bits_def)
    qed
    then show ?thesis
      using fp_decode_parts [OF fr ex, of s] by (simp add: div_mult_mod_eq)
  qed
  show ?thesis
  proof (cases x)
    case (Infinite s)
    then show ?thesis using main [of "inf_bits f" s] by (simp add: fp_encode_def)
  next
    case (Fin s m e)
    then show ?thesis by (simp add: fp_encode_def Let_def main)
  qed (use x in simp)
qed

lemma fp_decode_encode_NaN: "of_f64 (to_f64 NaN) = NaN"
  unfolding of_f64_def unat_to_f64
  by (simp add: fp_encode_def fp_decode_def inf_bits_def binary64_def Let_def)

lemma isnan_to_f64 [simp]: "isnan (to_f64 x) \<longleftrightarrow> x = NaN"
  using fp_decode_fp_encode_NaN [of binary64 x] fp_decode_encode_NaN
  by (cases "x = NaN") (auto simp: isnan_def of_f64_def unat_to_f64)

lemma fp_neg_NaN [simp]: "fp_neg x = NaN \<longleftrightarrow> x = NaN"
  by (cases x) auto

lemma fp_add_NaN [simp]: "fp_add NaN y = NaN" "fp_add x NaN = NaN"
  by (cases x; simp)+

lemma fp_mul_NaN [simp]: "fp_mul NaN y = NaN" "fp_mul x NaN = NaN"
  by (cases x; simp)+

lemma isnan_ops:
  "isnan x \<Longrightarrow> isnan (f64_add x y)" "isnan y \<Longrightarrow> isnan (f64_add x y)"
  "isnan x \<Longrightarrow> isnan (f64_mul x y)" "isnan y \<Longrightarrow> isnan (f64_mul x y)"
  by (simp_all add: f64_add_def f64_mul_def) (simp_all add: isnan_def)

lemma isfinite_not_NaN: "isfinite x \<Longrightarrow> \<not> isnan x"
  by (auto simp: isfinite_def isnan_def split: fp.splits)

lemma isfinite_iff: "isfinite x \<longleftrightarrow> (\<exists>s m e. of_f64 x = Fin s m e)"
  by (auto simp: isfinite_def split: fp.splits)

lemma mul_finite_not_NaN: "isfinite x \<Longrightarrow> isfinite y \<Longrightarrow> \<not> isnan (f64_mul x y)"
  by (auto simp: isfinite_iff f64_mul_def)

lemma add_finite_not_NaN: "isfinite x \<Longrightarrow> \<not> isnan y \<Longrightarrow> \<not> isnan (f64_add x y)"
  by (cases "of_f64 y") (auto simp: isfinite_iff f64_add_def isnan_def Let_def isnan_to_f64 [unfolded isnan_def] split: if_splits)

section \<open>Order\<close>

lemma f64_lt_iff: "\<not> isnan x \<Longrightarrow> \<not> isnan y \<Longrightarrow> f64_lt x y \<longleftrightarrow> \<not> f64_le y x"
  by (auto simp: f64_lt_def f64_le_def)

lemma f64_le_refl: "\<not> isnan x \<Longrightarrow> f64_le x x"
  by (simp add: f64_le_def)

lemma f64_le_trans: "f64_le x y \<Longrightarrow> f64_le y z \<Longrightarrow> f64_le x z"
  by (auto simp: f64_le_def)

lemma f64_lt_imp_le: "f64_lt x y \<Longrightarrow> f64_le x y"
  by (auto simp: f64_lt_def f64_le_def)

lemma f64_lt_NaN [simp]: "isnan x \<Longrightarrow> \<not> f64_lt x y" "isnan y \<Longrightarrow> \<not> f64_lt x y"
  by (auto simp: f64_lt_def)

lemma f64_clamp_NaN: "isnan v \<Longrightarrow> f64_clamp v lo hi = v"
  by (simp add: f64_clamp_def)

lemma f64_clamp_bounds:
  assumes "f64_le lo hi" and "\<not> isnan v"
  shows "f64_le lo (f64_clamp v lo hi) \<and> f64_le (f64_clamp v lo hi) hi"
  using assms by (auto simp: f64_clamp_def f64_le_def f64_lt_def)

lemma f64_clamp_not_NaN: "f64_le lo hi \<Longrightarrow> \<not> isnan v \<Longrightarrow> \<not> isnan (f64_clamp v lo hi)"
  using f64_clamp_bounds [of lo hi v] by (auto simp: f64_le_def)

section \<open>Values\<close>

text \<open>A finite number in units of the smallest subnormal.\<close>

definition units :: "fp \<Rightarrow> int" where
  "units x = (case x of Fin s m e \<Rightarrow> scaled s m (e + 1074) | _ \<Rightarrow> 0)"

lemma units_Fin: "units (Fin s m e) = (if s then - 1 else 1) * int (m * 2 ^ nat (e + 1074))"
  by (simp add: units_def scaled_def)

text \<open>The magnitude of a finite pattern, by its exponent and fraction fields.\<close>

definition field_units :: "nat \<Rightarrow> nat \<Rightarrow> nat" where
  "field_units ex fr = (if ex = 0 then fr else (2 ^ 52 + fr) * 2 ^ (ex - 1))"

lemma field_units_mono:
  assumes "ex * 2 ^ 52 + fr \<le> ex' * 2 ^ 52 + fr'" and "fr < 2 ^ 52" "fr' < 2 ^ 52"
  shows "field_units ex fr \<le> field_units ex' fr'"
proof (cases "ex = ex'")
  case True
  then show ?thesis using assms(1) by (simp add: field_units_def)
next
  case False
  have "ex < ex'"
  proof (rule ccontr)
    assume "\<not> ex < ex'"
    with False have "Suc ex' \<le> ex" by simp
    then have "Suc ex' * 2 ^ 52 \<le> ex * 2 ^ 52" by (rule mult_le_mono1)
    with assms show False by simp
  qed
  have "field_units ex fr \<le> 2 ^ (52 + ex)"
  proof (cases ex)
    case 0
    then show ?thesis using assms(2) by (simp add: field_units_def)
  next
    case (Suc k)
    have "(2 ^ 52 + fr) * 2 ^ k \<le> 2 ^ 53 * (2 :: nat) ^ k"
      using assms(2) by (intro mult_le_mono1) simp
    then show ?thesis using Suc by (simp add: field_units_def power_add)
  qed
  also have "(2 :: nat) ^ (52 + ex) \<le> 2 ^ (52 + (ex' - 1))"
    using \<open>ex < ex'\<close> by (intro power_increasing) simp_all
  also have "\<dots> = 2 ^ 52 * 2 ^ (ex' - 1)" by (rule power_add)
  also have "\<dots> \<le> field_units ex' fr'" using \<open>ex < ex'\<close> by (simp add: field_units_def)
  finally show ?thesis .
qed

text \<open>A pattern that decodes to a finite number, by its fields.\<close>

lemma of_f64_Fin:
  assumes "of_f64 x = Fin s m e"
  shows "\<exists>ex fr. fr < 2 ^ 52 \<and> unat x = (if s then 2 ^ 63 else 0) + (ex * 2 ^ 52 + fr) \<and>
    ex * 2 ^ 52 + fr < 2 ^ 63 \<and> units (Fin s m e) = (if s then - 1 else 1) * int (field_units ex fr)"
proof -
  define fr where "fr = unat x mod 2 ^ 52"
  define ex where "ex = unat x div 2 ^ 52 mod 2 ^ 11"
  have s: "s = odd (unat x div 2 ^ 63)" and me: "(ex = 0 \<and> m = fr \<and> e = - 1074) \<or>
      (0 < ex \<and> m = 2 ^ 52 + fr \<and> e = int ex - 1075)"
    using assms by (auto simp: of_f64_def fp_decode_def Let_def binary64_def emin_def ex_def fr_def
        split: if_splits)
  have b: "unat x = (if s then 2 ^ 63 else 0) + (ex * 2 ^ 52 + fr)"
  proof -
    have "unat x < 2 ^ Suc (52 + 11)" using unsigned_less [of x] by simp
    moreover have "(11 :: nat) + 52 = 63" by simp
    ultimately have "unat x = (if odd (unat x div 2 ^ 63) then 2 ^ 63 else 0) +
        (unat x div 2 ^ 52 mod 2 ^ 11) * 2 ^ 52 + unat x mod 2 ^ 52"
      using pattern_split [of "unat x" 52 11] by metis
    then show ?thesis unfolding s ex_def fr_def by (simp only: add.assoc)
  qed
  have fr: "fr < 2 ^ 52" and "ex < 2 ^ 11" by (simp_all add: fr_def ex_def)
  then have "ex \<le> 2 ^ 11 - 1" by simp
  then have "ex * 2 ^ 52 \<le> (2 ^ 11 - 1) * 2 ^ 52" by (rule mult_le_mono1)
  with fr have lt: "ex * 2 ^ 52 + fr < 2 ^ 63" by simp
  have "units (Fin s m e) = (if s then - 1 else 1) * int (field_units ex fr)"
    using me by (auto simp: units_Fin field_units_def nat_diff_distrib)
  with b fr lt show ?thesis by blast
qed

lemma f64_key_units:
  assumes "of_f64 x = Fin s m e" "of_f64 y = Fin t n g" "f64_key x \<le> f64_key y"
  shows "units (Fin s m e) \<le> units (Fin t n g)"
proof -
  obtain ex fr where x: "fr < 2 ^ 52" "unat x = (if s then 2 ^ 63 else 0) + (ex * 2 ^ 52 + fr)"
    "ex * 2 ^ 52 + fr < 2 ^ 63" "units (Fin s m e) = (if s then - 1 else 1) * int (field_units ex fr)"
    using of_f64_Fin [OF assms(1)] by blast
  obtain ex' fr' where y: "fr' < 2 ^ 52" "unat y = (if t then 2 ^ 63 else 0) + (ex' * 2 ^ 52 + fr')"
    "ex' * 2 ^ 52 + fr' < 2 ^ 63" "units (Fin t n g) = (if t then - 1 else 1) * int (field_units ex' fr')"
    using of_f64_Fin [OF assms(2)] by blast
  have kx: "f64_key x = (if s then - 1 else 1) * int (ex * 2 ^ 52 + fr)"
    using x(2,3) by (auto simp: f64_key_def Let_def)
  have ky: "f64_key y = (if t then - 1 else 1) * int (ex' * 2 ^ 52 + fr')"
    using y(2,3) by (auto simp: f64_key_def Let_def)
  consider "\<not> s" "\<not> t" | "s" "t" | "s" "\<not> t" | "\<not> s" "t" by blast
  then show ?thesis
  proof cases
    case 1
    then have "int (ex * 2 ^ 52 + fr) \<le> int (ex' * 2 ^ 52 + fr')" using assms(3) kx ky by simp
    then have "ex * 2 ^ 52 + fr \<le> ex' * 2 ^ 52 + fr'" by (simp only: of_nat_le_iff)
    with field_units_mono [OF this x(1) y(1)] show ?thesis unfolding x(4) y(4) using 1 by simp
  next
    case 2
    then have "int (ex' * 2 ^ 52 + fr') \<le> int (ex * 2 ^ 52 + fr)" using assms(3) kx ky by simp
    then have "ex' * 2 ^ 52 + fr' \<le> ex * 2 ^ 52 + fr" by (simp only: of_nat_le_iff)
    with field_units_mono [OF this y(1) x(1)] show ?thesis unfolding x(4) y(4) using 2 by simp
  next
    case 3
    then show ?thesis unfolding x(4) y(4) by simp
  next
    case 4
    then have "ex * 2 ^ 52 + fr = 0" "ex' * 2 ^ 52 + fr' = 0" using assms(3) kx ky by auto
    then show ?thesis unfolding x(4) y(4) using 4 by (simp add: field_units_def)
  qed
qed

text \<open>A number between two finite ones is finite.\<close>

lemma f64_key_bound:
  assumes "\<not> isnan x"
  shows "isfinite x \<longleftrightarrow> \<bar>f64_key x\<bar> < 2047 * 2 ^ 52"
proof -
  define fr where "fr = unat x mod 2 ^ 52"
  define ex where "ex = unat x div 2 ^ 52 mod 2 ^ 11"
  have "unat x < 2 ^ Suc (52 + 11)" using unsigned_less [of x] by simp
  moreover have "(11 :: nat) + 52 = 63" by simp
  ultimately have b: "unat x = (if odd (unat x div 2 ^ 63) then 2 ^ 63 else 0) + (ex * 2 ^ 52 + fr)"
    using pattern_split [of "unat x" 52 11] unfolding ex_def fr_def by (metis add.assoc)
  have fr: "fr < 2 ^ 52" and ex: "ex < 2 ^ 11" by (simp_all add: fr_def ex_def)
  then have "ex \<le> 2047" by simp
  then have "ex * 2 ^ 52 \<le> 2047 * 2 ^ 52" by (rule mult_le_mono1)
  with fr have lt: "ex * 2 ^ 52 + fr < 2 ^ 63" by simp
  have key: "\<bar>f64_key x\<bar> = int (ex * 2 ^ 52 + fr)"
  proof (cases "odd (unat x div 2 ^ 63)")
    case True
    have "unat x = 2 ^ 63 + (ex * 2 ^ 52 + fr)"
      by (rule trans [OF b]) (use True in simp)
    then show ?thesis unfolding f64_key_def Let_def by simp
  next
    case False
    have "unat x = ex * 2 ^ 52 + fr"
      by (rule trans [OF b]) (use False in simp)
    then show ?thesis unfolding f64_key_def Let_def using lt by simp
  qed
  have "isfinite x \<longleftrightarrow> ex \<noteq> 2047" using assms
    by (auto simp: isfinite_def isnan_def of_f64_def fp_decode_def binary64_def Let_def ex_def
        split: if_splits)
  also have "\<dots> \<longleftrightarrow> ex * 2 ^ 52 + fr < 2047 * 2 ^ 52"
  proof
    assume "ex \<noteq> 2047"
    with \<open>ex \<le> 2047\<close> have "Suc ex \<le> 2047" by simp
    then have "Suc ex * 2 ^ 52 \<le> 2047 * 2 ^ 52" by (rule mult_le_mono1)
    with fr show "ex * 2 ^ 52 + fr < 2047 * 2 ^ 52" by simp
  qed auto
  also have "\<dots> \<longleftrightarrow> int (ex * 2 ^ 52 + fr) < 2047 * 2 ^ 52"
    by (subst of_nat_less_iff [symmetric, where 'a = int]) simp
  finally show ?thesis unfolding key .
qed

lemma f64_key_between_finite:
  assumes "of_f64 x = Fin s m e" "of_f64 y = Fin t n g" "f64_key x \<le> f64_key z" "f64_key z \<le> f64_key y"
    "\<not> isnan z"
  shows "isfinite z"
proof -
  have "isfinite x" "isfinite y" using assms(1,2) by (simp_all add: isfinite_def)
  then have "\<bar>f64_key x\<bar> < 2047 * 2 ^ 52" "\<bar>f64_key y\<bar> < 2047 * 2 ^ 52"
    using f64_key_bound isfinite_not_NaN by blast+
  then have "\<bar>f64_key z\<bar> < 2047 * 2 ^ 52" using assms(3,4) by linarith
  with f64_key_bound [OF assms(5)] show ?thesis by blast
qed

lemma f64_le_finite:
  assumes "f64_le x y" "f64_le y z" "isfinite x" "isfinite z"
  shows "isfinite y"
proof -
  obtain s m e t n g where "of_f64 x = Fin s m e" "of_f64 z = Fin t n g"
    using assms(3,4) by (auto simp: isfinite_iff)
  then show ?thesis using f64_key_between_finite assms(1,2) unfolding f64_le_def by blast
qed

section \<open>Integers\<close>

lemma int_to_double_units:
  assumes "\<bar>i\<bar> < 2 ^ 53"
  shows "\<exists>s m e. of_f64 (int_to_double i) = Fin s m e \<and> units (Fin s m e) = i * 2 ^ 1074"
proof (cases "i = 0")
  case True
  have "of_f64 (int_to_double i) = Fin False 0 (- 1074) \<and> units (Fin False 0 (- 1074)) = i * 2 ^ 1074"
    by (simp add: True int_to_double_def of_f64_zero units_Fin)
  then show ?thesis by blast
next
  case False
  let ?m = "nat \<bar>i\<bar>"
  let ?j = "nat (53 - int (nat_bits ?m))"
  have m: "?m \<noteq> 0" using False by simp
  have nb: "nat_bits ?m \<le> 53" using assms by (intro nat_bits_le) (simp add: nat_less_iff)
  have f: "of_f64 (int_to_double i) = Fin (i < 0) (?m * 2 ^ ?j) (- int ?j)"
    using of_f64_exact [OF m nb, of 0 "i < 0"] nb by (simp add: int_to_double_def)
  have "?j + nat (- int ?j + 1074) = 1074" using nb by linarith
  then have "(2 :: nat) ^ ?j * 2 ^ nat (- int ?j + 1074) = 2 ^ 1074" by (simp only: power_add [symmetric])
  then have "?m * 2 ^ ?j * 2 ^ nat (- int ?j + 1074) = ?m * 2 ^ 1074" by (simp only: mult.assoc)
  then have "units (Fin (i < 0) (?m * 2 ^ ?j) (- int ?j)) = (if i < 0 then - 1 else 1) * (int ?m * 2 ^ 1074)"
    unfolding units_Fin by (simp only: of_nat_mult of_nat_power of_nat_numeral)
  also have "\<dots> = i * 2 ^ 1074" by simp
  finally show ?thesis using f by blast
qed

lemma int_to_double_not_NaN: "\<bar>i\<bar> < 2 ^ 53 \<Longrightarrow> \<not> isnan (int_to_double i)"
  using int_to_double_units [of i] by (auto simp: isnan_def)

lemma int_to_double_finite: "\<bar>i\<bar> < 2 ^ 53 \<Longrightarrow> isfinite (int_to_double i)"
  using int_to_double_units [of i] by (auto simp: isfinite_def)

lemma div_offset_bounds:
  fixes a b M K H :: int
  assumes "0 < K" "0 \<le> H" "H < K"
  shows "a * K \<le> M \<Longrightarrow> a \<le> (M + H) div K" and "M \<le> b * K \<Longrightarrow> (M + H) div K \<le> b"
proof -
  assume "a * K \<le> M"
  then have "a * K div K \<le> (M + H) div K" using assms by (intro zdiv_mono1) simp_all
  then show "a \<le> (M + H) div K" using assms(1) by simp
next
  assume "M \<le> b * K"
  then have "(M + H) div K \<le> (H + b * K) div K" using assms by (intro zdiv_mono1) simp_all
  also have "\<dots> = b" using assms by simp
  finally show "(M + H) div K \<le> b" .
qed

text \<open>Rounding or truncating a fraction \<open>M / K\<close> to its integer neighbours.\<close>

lemma signed_div_bounds:
  fixes a b :: int
  assumes "H < K" and "a * int K \<le> (if s then - int M else int M)"
    and "(if s then - int M else int M) \<le> b * int K"
  shows "a \<le> (if s then - int ((M + H) div K) else int ((M + H) div K))"
    and "(if s then - int ((M + H) div K) else int ((M + H) div K)) \<le> b"
proof -
  have K: "0 < int K" "0 \<le> int H" "int H < int K" using assms(1) by simp_all
  have n: "int ((M + H) div K) = (int M + int H) div int K" by (simp add: zdiv_int)
  note d = div_offset_bounds [OF K, where M = "int M"]
  show "a \<le> (if s then - int ((M + H) div K) else int ((M + H) div K))"
    using d(1) [of a] d(2) [of "- a"] assms(2) unfolding n by (cases s) (auto simp: minus_le_iff)
  show "(if s then - int ((M + H) div K) else int ((M + H) div K)) \<le> b"
    using d(2) [of b] d(1) [of "- b"] assms(3) unfolding n by (cases s) (auto simp: minus_le_iff)
qed

lemma units_scale:
  assumes "- 1074 \<le> e" "e < 0"
  shows "units (Fin s m e) = (if s then - int m else int m) * 2 ^ (1074 - nat (- e))"
    and "a * 2 ^ 1074 = a * int (2 ^ nat (- e)) * 2 ^ (1074 - nat (- e))"
proof -
  have "nat (e + 1074) = 1074 - nat (- e)" using assms by simp
  then show "units (Fin s m e) = (if s then - int m else int m) * 2 ^ (1074 - nat (- e))"
    by (simp add: units_Fin)
  have "nat (- e) + (1074 - nat (- e)) = 1074" using assms by simp
  then have "(2 :: int) ^ 1074 = 2 ^ nat (- e) * 2 ^ (1074 - nat (- e))"
    by (simp only: power_add [symmetric])
  then show "a * 2 ^ 1074 = a * int (2 ^ nat (- e)) * 2 ^ (1074 - nat (- e))"
    by (simp only: mult.assoc of_nat_power of_nat_numeral)
qed

lemma of_f64_exponent: "of_f64 x = Fin s m e \<Longrightarrow> - 1074 \<le> e"
  using fp_decode_bounds(2) [of binary64 "unat x" s m e] by (simp add: of_f64_def)

text \<open>A number between two integers is rounded, or truncated, to an integer between them.\<close>

lemma between_integers:
  assumes a: "\<bar>a\<bar> < 2 ^ 53" and b: "\<bar>b\<bar> < 2 ^ 53"
    and le: "f64_le (int_to_double a) x" "f64_le x (int_to_double b)"
  shows "\<exists>s m e. of_f64 x = Fin s m e \<and> a * 2 ^ 1074 \<le> units (Fin s m e) \<and>
    units (Fin s m e) \<le> b * 2 ^ 1074"
proof -
  obtain s m e where fa: "of_f64 (int_to_double a) = Fin s m e" "units (Fin s m e) = a * 2 ^ 1074"
    using int_to_double_units [OF a] by blast
  obtain t n g where fb: "of_f64 (int_to_double b) = Fin t n g" "units (Fin t n g) = b * 2 ^ 1074"
    using int_to_double_units [OF b] by blast
  have keys: "f64_key (int_to_double a) \<le> f64_key x" "f64_key x \<le> f64_key (int_to_double b)"
    "\<not> isnan x" using le by (auto simp: f64_le_def)
  have "isfinite x"
    using f64_key_between_finite [OF fa(1) fb(1) keys] .
  then obtain u k h where x: "of_f64 x = Fin u k h" by (auto simp: isfinite_iff)
  show ?thesis
    using f64_key_units [OF fa(1) x keys(1)] f64_key_units [OF x fb(1) keys(2)] fa(2) fb(2) x by auto
qed

lemma f64_lround_between:
  assumes "\<bar>a\<bar> < 2 ^ 53" "\<bar>b\<bar> < 2 ^ 53" "f64_le (int_to_double a) x" "f64_le x (int_to_double b)"
  shows "\<exists>n. f64_lround x = Some n \<and> a \<le> n \<and> n \<le> b"
proof -
  obtain s m e where x: "of_f64 x = Fin s m e" and u: "a * 2 ^ 1074 \<le> units (Fin s m e)"
    "units (Fin s m e) \<le> b * 2 ^ 1074"
    using between_integers [OF assms] by blast
  note e = of_f64_exponent [OF x]
  show ?thesis
  proof (cases "0 \<le> e")
    case True
    then have "nat (e + 1074) = nat e + 1074" by simp
    then have "units (Fin s m e) = (if s then - 1 else 1) * int (m * 2 ^ nat e) * 2 ^ 1074"
      by (simp only: units_Fin power_add of_nat_mult of_nat_power of_nat_numeral mult.assoc)
    with u have "a \<le> (if s then - 1 else 1) * int (m * 2 ^ nat e)"
      "(if s then - 1 else 1) * int (m * 2 ^ nat e) \<le> b"
      by (simp_all only: mult_le_cancel_right_pos zero_less_power zero_less_numeral)
    with True x show ?thesis by (auto simp: f64_lround_def Let_def)
  next
    case False
    let ?k = "nat (- e)"
    have neg: "e < 0" using False by simp
    have "(0 :: int) < 2 ^ (1074 - ?k)" by simp
    then have ab: "a * int (2 ^ ?k) \<le> (if s then - int m else int m)"
      "(if s then - int m else int m) \<le> b * int (2 ^ ?k)"
      using u unfolding units_scale(1) [OF e neg] units_scale(2) [OF e neg]
      by (simp_all only: mult_le_cancel_right_pos)
    have "(2 :: nat) ^ (?k - 1) < 2 ^ ?k" using neg by simp
    from signed_div_bounds [OF this ab] show ?thesis
      using False x by (auto simp: f64_lround_def Let_def)
  qed
qed

lemma double_to_int_between:
  assumes "\<bar>a\<bar> < 2 ^ 53" "\<bar>b\<bar> < 2 ^ 53" "f64_le (int_to_double a) x" "f64_le x (int_to_double b)"
    and "lo \<le> a" "b \<le> hi"
  shows "\<exists>n. double_to_int lo hi x = Some n \<and> a \<le> n \<and> n \<le> b"
proof -
  obtain s m e where x: "of_f64 x = Fin s m e" and u: "a * 2 ^ 1074 \<le> units (Fin s m e)"
    "units (Fin s m e) \<le> b * 2 ^ 1074"
    using between_integers [OF assms(1-4)] by blast
  note e = of_f64_exponent [OF x]
  show ?thesis
  proof (cases "0 \<le> e")
    case True
    then have "nat (e + 1074) = nat e + 1074" by simp
    then have "units (Fin s m e) = (if s then - 1 else 1) * int (m * 2 ^ nat e) * 2 ^ 1074"
      by (simp only: units_Fin power_add of_nat_mult of_nat_power of_nat_numeral mult.assoc)
    with u have "a \<le> (if s then - 1 else 1) * int (m * 2 ^ nat e)"
      "(if s then - 1 else 1) * int (m * 2 ^ nat e) \<le> b"
      by (simp_all only: mult_le_cancel_right_pos zero_less_power zero_less_numeral)
    with True x assms(5,6) show ?thesis by (auto simp: double_to_int_def fp_trunc_def Let_def)
  next
    case False
    let ?k = "nat (- e)"
    have neg: "e < 0" using False by simp
    have "(0 :: int) < 2 ^ (1074 - ?k)" by simp
    then have ab: "a * int (2 ^ ?k) \<le> (if s then - int m else int m)"
      "(if s then - int m else int m) \<le> b * int (2 ^ ?k)"
      using u unfolding units_scale(1) [OF e neg] units_scale(2) [OF e neg]
      by (simp_all only: mult_le_cancel_right_pos)
    have "(0 :: nat) < 2 ^ ?k" by simp
    from signed_div_bounds [OF this ab] show ?thesis
      using False x assms(5,6) by (auto simp: double_to_int_def fp_trunc_def Let_def)
  qed
qed

section \<open>Products, quotients and the order of integers\<close>

lemma mul_nonzero_not_NaN:
  assumes "\<not> isnan x" "of_f64 y = Fin t n g" "n \<noteq> 0"
  shows "\<not> isnan (f64_mul x y)"
  using assms by (cases "of_f64 x") (auto simp: isnan_def f64_mul_def simp flip: isnan_def)

lemma neg_not_NaN: "isnan (f64_neg x) \<longleftrightarrow> isnan x"
  by (simp add: f64_neg_def) (simp add: isnan_def)

lemma div_NaN: "isnan y \<Longrightarrow> isnan (f64_div x y)"
  by (cases "of_f64 x") (auto simp: f64_div_def isnan_def fp_decode_encode_NaN)

lemma int_to_double_mono:
  assumes "\<bar>a\<bar> < 2 ^ 53" "\<bar>b\<bar> < 2 ^ 53" "a \<le> b"
  shows "f64_le (int_to_double a) (int_to_double b)"
proof -
  obtain s m e where fa: "of_f64 (int_to_double a) = Fin s m e" "units (Fin s m e) = a * 2 ^ 1074"
    using int_to_double_units [OF assms(1)] by blast
  obtain t n g where fb: "of_f64 (int_to_double b) = Fin t n g" "units (Fin t n g) = b * 2 ^ 1074"
    using int_to_double_units [OF assms(2)] by blast
  have "f64_key (int_to_double a) \<le> f64_key (int_to_double b)"
  proof (rule ccontr)
    assume n: "\<not> ?thesis"
    then have "b * 2 ^ 1074 \<le> a * 2 ^ 1074"
      using f64_key_units [OF fb(1) fa(1)] fa(2) fb(2) by simp
    then have "b \<le> a" by (simp only: mult_le_cancel_right_pos zero_less_power zero_less_numeral)
    with n assms(3) show False by simp
  qed
  then show ?thesis using fa fb by (simp add: f64_le_def isnan_def)
qed

end
