(* ===== verification/Stepper_Control.thy ===== *)
theory Stepper_Control
  imports Float_Lemmas
begin

text \<open>
  The motor side of the pendulum firmware, which \<open>inverted_pendulum_tier1/src/main.cpp\<close> and
  \<open>inverted_pendulum_tier2/src/main.cpp\<close> have in two variants: from an angular velocity to requests
  to the stepper driver. The driver is external: what it is asked is a list of requests, what it
  answers are arguments. \<open>res\<close> is the devicetree property \<open>micro-step-res\<close>. The result \<open>None\<close> is a
  conversion of a floating-point number to an integer type that cannot hold it.
\<close>

section \<open>Constants and requests\<close>

datatype stepper_request =
    Stepper_Stop
  | Set_Microstep_Interval int
  | Stepper_Run bool
  | Move_To int

definition motor_steps_per_rev :: nat where "motor_steps_per_rev = 200"

definition micro_steps_per_rev :: "nat \<Rightarrow> int" where
  "micro_steps_per_rev res = sint (word_of_nat (motor_steps_per_rev * res) :: 32 word)"

definition kMaxMicrostepIntervalNs :: int where "kMaxMicrostepIntervalNs = 1000000000"

definition two_pi :: f64 where "two_pi = f64_mul (dec 2 0) M_PI"

definition to_uint64 :: "f64 \<Rightarrow> int option" where "to_uint64 = double_to_int 0 (2 ^ 64 - 1)"
definition to_int32 :: "int \<Rightarrow> int option" where
  "to_int32 i = (if - (2 ^ 31) \<le> i \<and> i < 2 ^ 31 then Some i else None)"

definition microsteps_to_angle :: "nat \<Rightarrow> int \<Rightarrow> f64" where
  "microsteps_to_angle res microsteps =
     f64_div (f64_mul two_pi (int_to_double microsteps)) (int_to_double (micro_steps_per_rev res))"

definition stop_stepper :: "stepper_request list" where
  "stop_stepper = [Stepper_Stop]"

definition microsteps_per_sec :: "nat \<Rightarrow> f64 \<Rightarrow> f64" where
  "microsteps_per_sec res rads_per_sec =
     f64_div (f64_mul (f64_abs rads_per_sec) (int_to_double (micro_steps_per_rev res))) two_pi"

text \<open>\<open>!isfinite(interval_ns) || interval_ns < kMin || interval_ns > kMax\<close>.\<close>

definition interval_out_of_range :: "int \<Rightarrow> f64 \<Rightarrow> bool" where
  "interval_out_of_range kMin interval_ns \<longleftrightarrow>
     \<not> isfinite interval_ns \<or> f64_lt interval_ns (int_to_double kMin) \<or>
     f64_lt (int_to_double kMaxMicrostepIntervalNs) interval_ns"

section \<open>Tier 1: free running\<close>

definition tier1_kMinMicrostepIntervalNs :: int where "tier1_kMinMicrostepIntervalNs = 20000"

definition tier1_set_stepper_angular_vel ::
  "nat \<Rightarrow> int \<Rightarrow> f64 \<Rightarrow> stepper_request list option" where
  "tier1_set_stepper_angular_vel res interval_ret rads_per_sec =
     (if \<not> isfinite rads_per_sec \<or> f64_eq rads_per_sec 0 then Some stop_stepper
      else
        let interval_ns = f64_div (dec 1000000000 0) (microsteps_per_sec res rads_per_sec) in
        if interval_out_of_range tier1_kMinMicrostepIntervalNs interval_ns then Some stop_stepper
        else do {
          ns \<leftarrow> to_uint64 interval_ns;
          Some (if interval_ret \<noteq> 0 then [Set_Microstep_Interval ns]
                else [Set_Microstep_Interval ns, Stepper_Run (f64_lt 0 rads_per_sec)])
        })"

section \<open>Tier 2: positioned moves within the travel limits\<close>

definition kControlPeriodMs :: uint32 where "kControlPeriodMs = 10"
definition kControlPeriodSec :: f64 where "kControlPeriodSec = f64_div (int_to_double 10) (dec 1000 0)"
definition kMoveToProjectionPeriods :: f64 where "kMoveToProjectionPeriods = dec 2 0"
definition kStepperAngleLimitRad :: f64 where
  "kStepperAngleLimitRad = f64_div (f64_mul (dec 135 0) M_PI) (dec 180 0)"
definition kMaxAngularVelocity :: f64 where "kMaxAngularVelocity = int_to_double 7"
definition kMinMicrostepIntervalNs :: int where "kMinMicrostepIntervalNs = 60000"

definition kStepIntervalForMaxVelNs :: "nat \<Rightarrow> int option" where
  "kStepIntervalForMaxVelNs res =
     to_uint64 (f64_div (f64_mul (f64_mul (dec 1000000000 0) (dec 2 0)) M_PI)
       (f64_mul kMaxAngularVelocity (int_to_double (micro_steps_per_rev res))))"

definition target_position :: "int \<Rightarrow> int \<Rightarrow> int \<Rightarrow> f64 \<Rightarrow> f64" where
  "target_position min_position max_position actual signed_microsteps_per_sec =
     (let projected = f64_mul (f64_mul signed_microsteps_per_sec kControlPeriodSec) kMoveToProjectionPeriods
      in f64_clamp (f64_add (int_to_double actual) projected)
           (int_to_double min_position) (int_to_double max_position))"

definition set_stepper_angular_vel ::
  "nat \<Rightarrow> int \<Rightarrow> int \<Rightarrow> int \<Rightarrow> int option \<Rightarrow> f64 \<Rightarrow> stepper_request list option" where
  "set_stepper_angular_vel res min_position max_position interval_ret actual rads_per_sec =
     (if \<not> isfinite rads_per_sec \<or> f64_eq rads_per_sec 0 then Some stop_stepper
      else
        let mps = microsteps_per_sec res rads_per_sec;
            interval_ns = f64_div (dec 1000000000 0) mps in
        if interval_out_of_range kMinMicrostepIntervalNs interval_ns then Some stop_stepper
        else do {
          kStep \<leftarrow> kStepIntervalForMaxVelNs res;
          ns \<leftarrow> to_uint64 (f64_clamp interval_ns (int_to_double kStep)
                              (int_to_double kMaxMicrostepIntervalNs));
          if interval_ret \<noteq> 0 then Some [Set_Microstep_Interval ns]
          else do {
            let signed = (if f64_lt 0 rads_per_sec then mps else f64_neg mps);
            let actual_position = (case actual of None \<Rightarrow> 0 | Some p \<Rightarrow> p);
            t \<leftarrow> f64_lround (target_position min_position max_position actual_position signed);
            p \<leftarrow> to_int32 t;
            Some [Set_Microstep_Interval ns, Move_To p]
          }
        })"

definition enforce_stepper_hard_stop :: "f64 \<Rightarrow> f64 \<Rightarrow> f64" where
  "enforce_stepper_hard_stop stepper_angle velocity =
     (if (f64_le kStepperAngleLimitRad stepper_angle \<and> f64_lt 0 velocity) \<or>
         (f64_le stepper_angle (f64_neg kStepperAngleLimitRad) \<and> f64_lt velocity 0)
      then 0 else velocity)"

section \<open>What is asked of the driver\<close>

lemma kControlPeriodSec_eq: "kControlPeriodSec = 0x3F847AE147AE147B"
proof -
  have a: "int_to_double 10 = 0x4024000000000000" by (simp add: f64_eval)
  have b: "dec 1000 0 = 0x408F400000000000" by (simp add: f64_eval dec_def)
  show ?thesis unfolding kControlPeriodSec_def a b by (simp add: f64_div_def f64_eval)
qed

lemma kMoveToProjectionPeriods_eq: "kMoveToProjectionPeriods = 0x4000000000000000"
  by (simp add: kMoveToProjectionPeriods_def f64_eval dec_def)

lemma projection_not_NaN:
  assumes "\<not> isnan x"
  shows "\<not> isnan (f64_mul (f64_mul x kControlPeriodSec) kMoveToProjectionPeriods)"
proof -
  have "\<exists>e. of_f64 kControlPeriodSec = Fin False 5764607523034235 e"
    "\<exists>e. of_f64 kMoveToProjectionPeriods = Fin False 4503599627370496 e"
    by (simp_all add: kControlPeriodSec_eq kMoveToProjectionPeriods_eq of_f64_def fp_decode_def
        binary64_def Let_def)
  then obtain e g where c: "of_f64 kControlPeriodSec = Fin False 5764607523034235 e"
    "of_f64 kMoveToProjectionPeriods = Fin False 4503599627370496 g" by blast
  show ?thesis by (rule mul_nonzero_not_NaN [OF mul_nonzero_not_NaN [OF assms c(1)] c(2)]) simp_all
qed

lemma target_position_confined:
  assumes "\<bar>lo\<bar> < 2 ^ 53" "\<bar>hi\<bar> < 2 ^ 53" "\<bar>actual\<bar> < 2 ^ 53" "lo \<le> hi" "\<not> isnan v"
  shows "\<exists>p. f64_lround (target_position lo hi actual v) = Some p \<and> lo \<le> p \<and> p \<le> hi"
proof -
  have "f64_le (int_to_double lo) (int_to_double hi)" by (rule int_to_double_mono [OF assms(1,2,4)])
  moreover have "\<not> isnan (f64_add (int_to_double actual)
      (f64_mul (f64_mul v kControlPeriodSec) kMoveToProjectionPeriods))"
    by (intro add_finite_not_NaN int_to_double_finite projection_not_NaN assms)
  ultimately show ?thesis
    unfolding target_position_def Let_def
    using f64_lround_between [OF assms(1,2)] f64_clamp_bounds by blast
qed

lemma interval_accepted_not_NaN:
  "\<not> interval_out_of_range k i \<Longrightarrow> \<not> isnan i"
  by (auto simp: interval_out_of_range_def isfinite_not_NaN)

lemma interval_clamped:
  assumes "0 \<le> k" "k \<le> kMaxMicrostepIntervalNs" "\<not> isnan i"
  shows "\<exists>ns. to_uint64 (f64_clamp i (int_to_double k) (int_to_double kMaxMicrostepIntervalNs)) = Some ns
    \<and> k \<le> ns \<and> ns \<le> kMaxMicrostepIntervalNs"
proof -
  have "\<bar>k\<bar> < 2 ^ 53" "\<bar>kMaxMicrostepIntervalNs\<bar> < 2 ^ 53"
    using assms by (simp_all add: kMaxMicrostepIntervalNs_def)
  note b = this
  show ?thesis unfolding to_uint64_def
    by (rule double_to_int_between [OF b])
      (use assms b in \<open>simp_all add: f64_clamp_bounds int_to_double_mono kMaxMicrostepIntervalNs_def\<close>)
qed

definition confined :: "int \<Rightarrow> int \<Rightarrow> int \<Rightarrow> stepper_request \<Rightarrow> bool" where
  "confined k lo hi r \<longleftrightarrow>
     (case r of
        Stepper_Stop \<Rightarrow> True
      | Set_Microstep_Interval ns \<Rightarrow> k \<le> ns \<and> ns \<le> kMaxMicrostepIntervalNs
      | Move_To p \<Rightarrow> lo \<le> p \<and> p \<le> hi
      | Stepper_Run b \<Rightarrow> False)"

lemma set_stepper_angular_vel_confined:
  assumes k: "kStepIntervalForMaxVelNs res = Some k" "k \<le> kMaxMicrostepIntervalNs"
    and b: "- (2 ^ 31) \<le> lo" "lo \<le> hi" "hi < 2 ^ 31" "\<And>p. actual = Some p \<Longrightarrow> \<bar>p\<bar> \<le> 2 ^ 31"
  shows "\<exists>rs. set_stepper_angular_vel res lo hi interval_ret actual v = Some rs \<and>
    list_all (confined k lo hi) rs"
proof -
  let ?mps = "microsteps_per_sec res v"
  let ?i = "f64_div (dec 1000000000 0) ?mps"
  let ?a = "case actual of None \<Rightarrow> 0 | Some p \<Rightarrow> p"
  have k0: "0 \<le> k" using k(1) by (auto simp: kStepIntervalForMaxVelNs_def to_uint64_def dest: double_to_int_range)
  have a: "\<bar>?a\<bar> < 2 ^ 53" using b(4) by (auto split: option.split)
  show ?thesis
  proof (cases "(\<not> isfinite v \<or> f64_eq v 0) \<or> interval_out_of_range kMinMicrostepIntervalNs ?i")
    case True
    then show ?thesis by (auto simp: set_stepper_angular_vel_def stop_stepper_def confined_def Let_def)
  next
    case False
    then have i: "\<not> isnan ?i" using interval_accepted_not_NaN by blast
    then have "\<not> isnan ?mps" using div_NaN by blast
    then have s: "\<not> isnan (if f64_lt 0 v then ?mps else f64_neg ?mps)" by (simp add: neg_not_NaN)
    obtain ns where ns: "to_uint64 (f64_clamp ?i (int_to_double k) (int_to_double kMaxMicrostepIntervalNs)) = Some ns"
      "k \<le> ns" "ns \<le> kMaxMicrostepIntervalNs" using interval_clamped [OF k0 k(2) i] by blast
    have "\<bar>lo\<bar> < 2 ^ 53" "\<bar>hi\<bar> < 2 ^ 53" using b by auto
    then obtain p where p: "f64_lround (target_position lo hi ?a (if f64_lt 0 v then ?mps else f64_neg ?mps)) = Some p"
      "lo \<le> p" "p \<le> hi" using target_position_confined [OF _ _ a b(2) s] by blast
    then have "to_int32 p = Some p" using b by (simp add: to_int32_def)
    with False ns p k(1) show ?thesis
      by (auto simp: set_stepper_angular_vel_def confined_def Let_def)
  qed
qed


lemma kStepIntervalForMaxVelNs_32: "kStepIntervalForMaxVelNs 32 = Some 140249"
proof -
  have a: "dec 1000000000 0 = 0x41CDCD6500000000" by (simp add: f64_eval dec_def)
  have b: "dec 2 0 = 0x4000000000000000" by (simp add: f64_eval dec_def)
  have c: "f64_mul 0x41CDCD6500000000 0x4000000000000000 = 0x41DDCD6500000000"
    by (simp add: f64_mul_def f64_eval)
  have d: "f64_mul 0x41DDCD6500000000 M_PI = 0x41F7681CC9B2DF96"
    by (simp add: M_PI_def f64_mul_def f64_eval)
  have e: "kMaxAngularVelocity = 0x401C000000000000" by (simp add: kMaxAngularVelocity_def f64_eval)
  have f: "micro_steps_per_rev 32 = 6400"
    by (simp add: micro_steps_per_rev_def motor_steps_per_rev_def)
  have g: "int_to_double 6400 = 0x40B9000000000000" by (simp add: f64_eval)
  have h: "f64_mul 0x401C000000000000 0x40B9000000000000 = 0x40E5E00000000000"
    by (simp add: f64_mul_def f64_eval)
  have i: "f64_div 0x41F7681CC9B2DF96 0x40E5E00000000000 = 0x41011ECD6054058C"
    by (simp add: f64_div_def f64_eval)
  have j: "to_uint64 0x41011ECD6054058C = Some 140249" by (simp add: to_uint64_def f64_eval)
  show ?thesis unfolding kStepIntervalForMaxVelNs_def a b c d e f g h i j ..
qed

text \<open>A request of 3 radians per second at 32 microsteps per full step, evaluated.\<close>

lemma int_to_double_samples:
  "int_to_double kMinMicrostepIntervalNs = 0x40ED4C0000000000"
  "int_to_double kMaxMicrostepIntervalNs = 0x41CDCD6500000000" "int_to_double 140249 = 0x41011EC800000000"
  "int_to_double 0 = 0" "int_to_double 10000 = 0x40C3880000000000"
  "int_to_double 7600 = 0x40BDB00000000000" "int_to_double 12400 = 0x40C8380000000000"
  by (simp_all add: kMinMicrostepIntervalNs_def kMaxMicrostepIntervalNs_def f64_eval)

lemma microsteps_per_sec_sample: "microsteps_per_sec 32 0x4008000000000000 = 0x40A7DF8CC0A876F9"
proof -
  have c: "dec 1000000000 0 = 0x41CDCD6500000000" "dec 2 0 = 0x4000000000000000"
    by (simp_all add: f64_eval dec_def)
  have p: "two_pi = 0x401921FB54442D18"
    unfolding two_pi_def c by (simp add: M_PI_def f64_mul_def f64_eval)
  have m: "int_to_double (micro_steps_per_rev 32) = 0x40B9000000000000"
    by (simp add: micro_steps_per_rev_def motor_steps_per_rev_def f64_eval)
  have a: "f64_abs 0x4008000000000000 = 0x4008000000000000" by (simp add: f64_abs_def)
  have x1: "f64_mul 0x4008000000000000 0x40B9000000000000 = 0x40D2C00000000000"
    by (simp add: f64_mul_def f64_eval)
  have x2: "f64_div 0x40D2C00000000000 0x401921FB54442D18 = 0x40A7DF8CC0A876F9"
    by (simp add: f64_div_def f64_eval)
  show ?thesis unfolding microsteps_per_sec_def a m p x1 x2 ..
qed

lemma target_position_samples:
  "target_position 7600 12400 10000 0x40A7DF8CC0A876F9 = 0x40C3A68EC8A4AEAD"
  "target_position 7600 12400 0 0x40A7DF8CC0A876F9 = 0x40BDB00000000000"
proof -
  have x3: "f64_mul 0x40A7DF8CC0A876F9 0x3F847AE147AE147B = 0x403E8EC8A4AEACC4"
    by (simp add: f64_mul_def f64_eval)
  have x4: "f64_mul 0x403E8EC8A4AEACC4 0x4000000000000000 = 0x404E8EC8A4AEACC4"
    by (simp add: f64_mul_def f64_eval)
  have x5: "f64_add 0x40C3880000000000 0x404E8EC8A4AEACC4 = 0x40C3A68EC8A4AEAD"
    by (simp add: f64_add_def scaled_def f64_eval)
  have x6: "f64_add 0 0x404E8EC8A4AEACC4 = 0x404E8EC8A4AEACC4"
    by (simp add: f64_add_def scaled_def f64_eval)
  have y: "f64_clamp 0x40C3A68EC8A4AEAD 0x40BDB00000000000 0x40C8380000000000 = 0x40C3A68EC8A4AEAD"
    "f64_clamp 0x404E8EC8A4AEACC4 0x40BDB00000000000 0x40C8380000000000 = 0x40BDB00000000000"
    by (simp_all add: f64_clamp_def f64_lt_def isnan_def f64_key_def f64_eval)
  show "target_position 7600 12400 10000 0x40A7DF8CC0A876F9 = 0x40C3A68EC8A4AEAD"
    "target_position 7600 12400 0 0x40A7DF8CC0A876F9 = 0x40BDB00000000000"
    unfolding target_position_def kControlPeriodSec_eq kMoveToProjectionPeriods_eq x3 x4
      int_to_double_samples x5 x6 Let_def y
    by simp_all
qed

text \<open>The position used for a target is 0 if the driver cannot tell it: with travel limits around
  10000 a failed reading turns a positive velocity into a move to the lower limit, 2400 microsteps
  back.\<close>

theorem failed_position_reading_moves_backwards:
  "set_stepper_angular_vel 32 7600 12400 0 (Some 10000) 0x4008000000000000 =
     Some [Set_Microstep_Interval 327249, Move_To 10061] \<and>
   set_stepper_angular_vel 32 7600 12400 0 None 0x4008000000000000 =
     Some [Set_Microstep_Interval 327249, Move_To 7600]"
proof -
  note i = int_to_double_samples and t = target_position_samples
  have v: "isfinite 0x4008000000000000" "\<not> f64_eq 0x4008000000000000 0" "f64_lt 0 0x4008000000000000"
    by (simp_all add: isfinite_def f64_eq_def f64_lt_def isnan_def f64_key_def f64_eval)
  have c: "dec 1000000000 0 = 0x41CDCD6500000000" by (simp add: f64_eval dec_def)
  have iv: "f64_div 0x41CDCD6500000000 0x40A7DF8CC0A876F9 = 0x4113F944F0620679"
    by (simp add: f64_div_def f64_eval)
  have range: "\<not> interval_out_of_range kMinMicrostepIntervalNs 0x4113F944F0620679"
    unfolding interval_out_of_range_def i
    by (simp add: isfinite_def f64_lt_def isnan_def f64_key_def f64_eval)
  have clamp: "f64_clamp 0x4113F944F0620679 0x41011EC800000000 0x41CDCD6500000000 = 0x4113F944F0620679"
    by (simp add: f64_clamp_def f64_lt_def isnan_def f64_key_def)
  have ns: "to_uint64 0x4113F944F0620679 = Some 327249" by (simp add: to_uint64_def f64_eval)
  have r: "f64_lround 0x40C3A68EC8A4AEAD = Some 10061" "f64_lround 0x40BDB00000000000 = Some 7600"
    by (simp_all add: f64_lround_def of_f64_def fp_decode_def binary64_def emin_def Let_def)
  have w: "to_int32 10061 = Some 10061" "to_int32 7600 = Some 7600" by (simp_all add: to_int32_def)
  show ?thesis
    unfolding set_stepper_angular_vel_def microsteps_per_sec_sample c iv Let_def kStepIntervalForMaxVelNs_32
    using v range by (simp only: simp_thms if_False if_True bind.bind_lunit option.case i clamp ns t r w)
qed

text \<open>the Tier 2 motor control never sends the stepper past its travel limits. For every
  commanded velocity (NaN and infinities included), every position the driver reports and whatever
  it answers, \<open>set_stepper_angular_vel\<close> runs without undefined behaviour, every target it moves to
  is within the bounds, and every step interval it sets is between the one of the maximal velocity
  and one second.\<close>

theorem set_stepper_angular_vel_within_travel:
  assumes k: "kStepIntervalForMaxVelNs res = Some k" "k \<le> kMaxMicrostepIntervalNs"
    and b: "- (2 ^ 31) \<le> lo" "lo \<le> hi" "hi < 2 ^ 31" "\<forall>p. actual = Some p \<longrightarrow> \<bar>p\<bar> \<le> 2 ^ 31"
  shows "\<exists>rs. set_stepper_angular_vel res lo hi interval_ret actual v = Some rs \<and>
    (\<forall>r \<in> set rs. case r of
        Stepper_Stop \<Rightarrow> True
      | Set_Microstep_Interval ns \<Rightarrow> k \<le> ns \<and> ns \<le> kMaxMicrostepIntervalNs
      | Move_To p \<Rightarrow> lo \<le> p \<and> p \<le> hi
      | Stepper_Run _ \<Rightarrow> False)"
  using set_stepper_angular_vel_confined [OF k b(1-3)] b(4)
  by (auto simp: list_all_iff confined_def)

theorem set_stepper_angular_vel_within_travel_witness:
  "\<exists>rs. set_stepper_angular_vel 32 (- 2400) 2400 0 (Some 2399) (int_to_double 3) = Some rs \<and>
    (\<forall>r \<in> set rs. case r of
        Stepper_Stop \<Rightarrow> True
      | Set_Microstep_Interval ns \<Rightarrow> 140249 \<le> ns \<and> ns \<le> kMaxMicrostepIntervalNs
      | Move_To p \<Rightarrow> - 2400 \<le> p \<and> p \<le> 2400
      | Stepper_Run _ \<Rightarrow> False)"
  by (rule set_stepper_angular_vel_within_travel)
    (simp_all add: kStepIntervalForMaxVelNs_32 kMaxMicrostepIntervalNs_def)

end
