(* ===== verification/Command_Watchdog.thy ===== *)
theory Command_Watchdog
  imports Prelude
begin

text \<open>
  The rule both pendulum firmwares implement in their control loops: a command that is not renewed
  within \<open>kCommandTimeoutCycles\<close> cycles must stop the motor. Stated once, over any loop body that
  counts the cycles without a command; the control cycles of Tier 1 and Tier 2 are instances.
\<close>

text \<open>A loop without end, over the inputs of its first turns.\<close>

primrec run_cycles :: "('i \<Rightarrow> 's \<Rightarrow> 's option) \<Rightarrow> 'i list \<Rightarrow> 's \<Rightarrow> 's option" where
  "run_cycles step [] s = Some s"
| "run_cycles step (i # is) s = Option.bind (step i s) (run_cycles step is)"

lemma run_cycles_append:
  "run_cycles step (xs @ ys) s = Option.bind (run_cycles step xs s) (run_cycles step ys)"
  by (induction xs arbitrary: s) (auto split: Option.bind_splits)

text \<open>
  \<open>good\<close> is the invariant of the loop, \<open>ok\<close> what an input must satisfy, \<open>silent\<close> that no command was
  accepted during the turn, \<open>caught_up\<close> that the loop has seen every command accepted so far, \<open>age\<close>
  the cycles it has counted since, \<open>idle\<close> that the turn stopped the motor.
\<close>

locale command_watchdog =
  fixes step :: "'i \<Rightarrow> 's \<Rightarrow> 's option"
    and good :: "'s \<Rightarrow> bool"
    and ok :: "'i \<Rightarrow> bool"
    and silent :: "'i \<Rightarrow> bool"
    and caught_up :: "'s \<Rightarrow> bool"
    and age :: "'s \<Rightarrow> nat"
    and limit :: nat
    and idle :: "'s \<Rightarrow> bool"
  assumes turn: "good s \<Longrightarrow> ok i \<Longrightarrow> \<exists>s'. step i s = Some s' \<and> good s'"
    and catches_up: "good s \<Longrightarrow> ok i \<Longrightarrow> silent i \<Longrightarrow> step i s = Some s' \<Longrightarrow> caught_up s'"
    and ages: "good s \<Longrightarrow> ok i \<Longrightarrow> silent i \<Longrightarrow> caught_up s \<Longrightarrow> age s < limit \<Longrightarrow>
      step i s = Some s' \<Longrightarrow> age s' = Suc (age s)"
    and expires: "good s \<Longrightarrow> ok i \<Longrightarrow> silent i \<Longrightarrow> caught_up s \<Longrightarrow> limit \<le> age s \<Longrightarrow>
      step i s = Some s' \<Longrightarrow> limit \<le> age s' \<and> idle s'"
begin

lemma run_total: "good s \<Longrightarrow> list_all ok is \<Longrightarrow> \<exists>s'. run_cycles step is s = Some s' \<and> good s'"
proof (induction "is" arbitrary: s)
  case Nil
  then show ?case by simp
next
  case (Cons i "is")
  then show ?case using turn [of s i] by fastforce
qed

lemma caught_up_run:
  "good s \<Longrightarrow> caught_up s \<Longrightarrow> list_all ok is \<Longrightarrow> list_all silent is \<Longrightarrow> limit < age s + length is \<Longrightarrow>
   is \<noteq> [] \<Longrightarrow> \<exists>s'. run_cycles step is s = Some s' \<and> good s' \<and> idle s'"
proof (induction "is" arbitrary: s)
  case Nil
  then show ?case by simp
next
  case (Cons i "is")
  obtain s1 where s1: "step i s = Some s1" "good s1" using turn Cons.prems by fastforce
  have up: "caught_up s1" using catches_up [OF Cons.prems(1) _ _ s1(1)] Cons.prems by simp
  show ?case
  proof (cases "is = []")
    case True
    then have "limit \<le> age s" using Cons.prems by simp
    then show ?thesis using expires [of s i s1] s1 Cons.prems True by simp
  next
    case False
    have "limit < age s1 + length is"
    proof (cases "age s < limit")
      case True
      then show ?thesis using ages [of s i s1] s1 Cons.prems by simp
    next
      case older: False
      then show ?thesis using expires [of s i s1] s1 Cons.prems False by (cases "is") auto
    qed
    then show ?thesis using Cons.IH [OF s1(2) up] Cons.prems False s1(1) by simp
  qed
qed

text \<open>One turn to notice a last command, the turns of the timeout, and one that stops.\<close>

lemma silence_stops:
  assumes "good s" "list_all ok is" "list_all silent is" "limit + 2 \<le> length is"
  shows "\<exists>s'. run_cycles step is s = Some s' \<and> good s' \<and> idle s'"
proof -
  obtain i js where i: "is = i # js" "limit < length js" using assms(4) by (cases "is") auto
  obtain s1 where s1: "step i s = Some s1" "good s1" using turn assms(1,2) i(1) by fastforce
  have "caught_up s1" using catches_up [OF assms(1) _ _ s1(1)] assms(2,3) i(1) by simp
  from caught_up_run [OF s1(2) this, of js] show ?thesis
    using assms(2,3) i s1(1) by (cases js) auto
qed

end

end
