(* ===== verification/Pendulum_Tier2.thy ===== *)
theory Pendulum_Tier2
  imports Stepper_Control Command_Watchdog Client_Lemmas Network
begin

text \<open>
  \<open>inverted_pendulum_tier2/src/main.cpp\<close>: the firmware that balances the rotary pendulum over Tier 2.
  The motor side is \<open>Stepper_Control\<close>; here are the encoder thread with its mailbox, the bring-up of
  the network, the initialisation sequence of \<open>main\<close>, and one turn of the control loop on top of the
  model of \<open>ZenbeddedClient\<close>. The sensor, the stepper driver, the LED and the clock are external:
  what they answer during a turn is a record, the input of the turn.
\<close>

section \<open>Constants\<close>

definition kWifiConnectTimeout :: uint32 where "kWifiConnectTimeout = 15000"
definition kCommandTimeoutMs :: uint32 where "kCommandTimeoutMs = 200"
definition kCommandTimeoutCycles :: uint32 where
  "kCommandTimeoutCycles = kCommandTimeoutMs div kControlPeriodMs"
definition kEncoderSampleHz :: f64 where "kEncoderSampleHz = dec 400 0"
definition kEncoderSamplePeriodUs :: "int option" where
  "kEncoderSamplePeriodUs = double_to_int 0 (2 ^ 32 - 1) (f64_div (dec 1000000 0) kEncoderSampleHz)"
definition kVelocityFilterAlpha :: f64 where "kVelocityFilterAlpha = dec 35 2"
definition kVelocityFilterTauSec :: f64 where
  "kVelocityFilterTauSec =
     f64_div (f64_sub (int_to_double 1) kVelocityFilterAlpha) (f64_mul kVelocityFilterAlpha kEncoderSampleHz)"

section \<open>The encoder thread\<close>

text \<open>maps angle to [-pi, pi]\<close>

definition wrap_angle :: "f64 \<Rightarrow> f64" where
  "wrap_angle angle =
     (if f64_lt M_PI angle then f64_sub angle two_pi
      else if f64_le angle (f64_neg M_PI) then f64_add angle two_pi
      else angle)"

text \<open>What the sensor driver answers: the two return codes and the rotation in degrees.\<close>

record encoder_answer =
  fetch_ret :: int
  channel_ret :: int
  rotation :: f64

definition get_encoder_angle_deg :: "encoder_answer \<Rightarrow> f64 option" where
  "get_encoder_angle_deg a =
     (if fetch_ret a \<noteq> 0 then None
      else if channel_ret a \<noteq> 0 then None
      else Some (f64_div (f64_mul (rotation a) M_PI) (int_to_double 180)))"

record EncoderState =
  enc_angle :: f64
  enc_velocity :: f64

text \<open>The mailbox \<open>encoder_state_msgq\<close> has room for one message; the semaphore counts to one;
  \<open>ready_gives\<close> is the trace of the calls of \<open>k_sem_give\<close>, counted.\<close>

record encoder_thread =
  encoder_angle_offset :: f64
  prev_encoder_angle :: f64
  have_prev :: bool
  signaled_ready :: bool
  prev_time_us :: uint32
  encoder_state :: EncoderState
  encoder_state_msgq :: "EncoderState list"
  g_pendulum_ready :: nat
  ready_gives :: nat

definition give_pendulum_ready :: "encoder_thread \<Rightarrow> encoder_thread" where
  "give_pendulum_ready s =
     s\<lparr>g_pendulum_ready := min 1 (g_pendulum_ready s + 1), ready_gives := ready_gives s + 1\<rparr>"

definition k_msgq_put :: "EncoderState \<Rightarrow> EncoderState list \<Rightarrow> bool \<times> EncoderState list" where
  "k_msgq_put x q = (if length q < 1 then (True, q @ [x]) else (False, q))"

text \<open>\<open>while (k_msgq_put(...) != 0) k_msgq_get(...)\<close>.\<close>

fun put_latest :: "EncoderState \<Rightarrow> EncoderState list \<Rightarrow> EncoderState list" where
  "put_latest x [] = snd (k_msgq_put x [])"
| "put_latest x (y # q) =
     (case k_msgq_put x (y # q) of (True, q') \<Rightarrow> q' | (False, _) \<Rightarrow> put_latest x q)"

text \<open>\<open>while (!get_encoder_angle_deg(&encoder_angle_offset)) ...\<close>: the answers that are left when the
  thread has calibrated itself.\<close>

fun calibrate :: "encoder_answer list \<Rightarrow> (f64 \<times> encoder_answer list) option" where
  "calibrate [] = None"
| "calibrate (a # as) =
     (case get_encoder_angle_deg a of None \<Rightarrow> calibrate as | Some x \<Rightarrow> Some (x, as))"

definition encoder_start :: "f64 \<Rightarrow> uint32 \<Rightarrow> encoder_thread" where
  "encoder_start offset now_us =
     \<lparr>encoder_angle_offset = offset, prev_encoder_angle = 0, have_prev = False, signaled_ready = False,
      prev_time_us = now_us, encoder_state = \<lparr>enc_angle = M_PI, enc_velocity = 0\<rparr>,
      encoder_state_msgq = [], g_pendulum_ready = 0, ready_gives = 0\<rparr>"

definition filtered :: "f64 \<Rightarrow> f64 \<Rightarrow> f64 \<Rightarrow> EncoderState \<Rightarrow> EncoderState" where
  "filtered angle prev dt e =
     (let raw_velocity = f64_div (wrap_angle (f64_sub angle prev)) dt;
          alpha = f64_div dt (f64_add kVelocityFilterTauSec dt)
      in e\<lparr>enc_angle := angle,
           enc_velocity := f64_add (f64_mul alpha raw_velocity)
             (f64_mul (f64_sub (dec 1 0) alpha) (enc_velocity e))\<rparr>)"

text \<open>One valid reading, taken at \<open>now_us\<close>.\<close>

definition encoder_sample :: "f64 \<Rightarrow> uint32 \<Rightarrow> encoder_thread \<Rightarrow> encoder_thread" where
  "encoder_sample raw now_us s =
     (let angle = wrap_angle (f64_fmod
            (f64_add (f64_sub raw (encoder_angle_offset s)) (f64_mul (int_to_double 3) M_PI))
            (f64_mul (int_to_double 2) M_PI));
          dt = f64_div (int_to_double (uint (now_us - prev_time_us s))) (dec 1000000 0);
          s = s\<lparr>prev_time_us := now_us\<rparr>;
          s = (if have_prev s \<and> f64_lt 0 dt then
                 let s = s\<lparr>encoder_state := filtered angle (prev_encoder_angle s) dt (encoder_state s)\<rparr>
                 in if \<not> signaled_ready s
                    then give_pendulum_ready (s\<lparr>signaled_ready := True\<rparr>)
                    else s
               else s\<lparr>encoder_state := (encoder_state s)\<lparr>enc_angle := angle\<rparr>\<rparr>);
          s = s\<lparr>encoder_state_msgq := put_latest (encoder_state s) (encoder_state_msgq s)\<rparr>
      in s\<lparr>prev_encoder_angle := angle, have_prev := True\<rparr>)"

text \<open>One turn of the thread: the state after it and the time it sleeps.\<close>

definition encoder_turn ::
  "encoder_answer \<Rightarrow> uint32 \<Rightarrow> uint32 \<Rightarrow> uint32 \<Rightarrow> encoder_thread \<Rightarrow> (uint32 \<times> encoder_thread) option" where
  "encoder_turn a loop_start_us now_us end_us s = do {
     period \<leftarrow> kEncoderSamplePeriodUs;
     let s = (case get_encoder_angle_deg a of None \<Rightarrow> s | Some raw \<Rightarrow> encoder_sample raw now_us s);
     let elapsed_us = end_us - loop_start_us;
     Some (if elapsed_us < word_of_int period then word_of_int period - elapsed_us else 200, s)
   }"

section \<open>The network\<close>

datatype comm = Comm_Wifi | Comm_Usb_Cdc | Comm_Other

text \<open>\<open>while (net_mgmt(NET_REQUEST_WIFI_CONNECT_STORED, ...) != 0)\<close> with its timeout; \<open>grants t\<close> is
  whether the request made at \<open>t\<close> is.\<close>

partial_function (option) connect_stored ::
  "(nat \<Rightarrow> bool) \<Rightarrow> net_world \<Rightarrow> net_if option \<Rightarrow> uint32 \<Rightarrow> net_state \<Rightarrow> (bool \<times> net_state) option" where
  "connect_stored grants w iface timer s =
     (let ok = grants (now s); s = call w (Wifi_Connect_Stored iface) s
      in if ok then Some (True, s)
         else if k_uptime_get_32 (now s) - timer > kWifiConnectTimeout then Some (False, s)
         else connect_stored grants w iface timer (k_sleep w 200 s))"

declare connect_stored.simps [code]

definition demo_init_wifi ::
  "(nat \<Rightarrow> bool) \<Rightarrow> net_world \<Rightarrow> net_if option \<Rightarrow> net_state \<Rightarrow> (int \<times> net_state) option" where
  "demo_init_wifi grants w iface s = do {
     (connected, s) \<leftarrow> connect_stored grants w iface (k_uptime_get_32 (now s)) s;
     if \<not> connected then Some (- ETIMEDOUT, s)
     else do {
       (up, s) \<leftarrow> wait_for (ipv4_preferred w iface) w kIpv4AcquireTimeout 200 (k_uptime_get_32 (now s)) s;
       Some (if \<not> up then (- ETIMEDOUT, s) else (0, call w Esp_Power_Save_None s))
     }
   }"

text \<open>\<open>device\<close> is whether \<open>sample_usbd_init_device\<close>, a Zephyr sample, returns a context.\<close>

definition demo_init_usb_cdc ::
  "net_config \<Rightarrow> bool \<Rightarrow> net_world \<Rightarrow> net_if option \<Rightarrow> net_state \<Rightarrow> (int \<times> net_state) option" where
  "demo_init_usb_cdc cfg device w iface s =
     (let (err, s) =
        (if \<not> usb_device_stack_next cfg then (0, s)
         else if \<not> device then (- ENODEV, s)
         else
           let s = call w Usbd_Enable s
           in if answer w Usbd_Enable \<noteq> 0 then (answer w Usbd_Enable, s)
              else (0, if net_config_settings cfg then call w Net_Config_Init_App s
                       else if net_dhcpv4 cfg then call w (Dhcpv4_Start iface) s
                       else s))
      in if err \<noteq> 0 then Some (err, s)
         else do {
           (up, s) \<leftarrow> wait_for (ipv4_preferred w iface) w kIpv4AcquireTimeout 200
                       (k_uptime_get_32 (now s)) s;
           if \<not> up then Some (- ETIMEDOUT, s)
           else do {
             s \<leftarrow> serve_dhcp cfg w iface s;
             Some (0, s)
           }
         })"

definition demo_init_network ::
  "comm \<Rightarrow> net_config \<Rightarrow> (nat \<Rightarrow> bool) \<Rightarrow> bool \<Rightarrow> net_world \<Rightarrow> net_if option \<Rightarrow> net_state
     \<Rightarrow> (int \<times> net_state) option" where
  "demo_init_network c cfg grants device w iface s =
     (case c of
        Comm_Wifi \<Rightarrow> demo_init_wifi grants w iface s
      | Comm_Usb_Cdc \<Rightarrow> demo_init_usb_cdc cfg device w iface s
      | Comm_Other \<Rightarrow> Some (0, s))"

section \<open>State of the control loop\<close>

datatype colour = RGB nat nat nat

record tier2_state =
  client2 :: "(unit, unit) client"
  stepper_min_position :: int
  stepper_max_position :: int
  stepper_angle :: f64
  stepper_angle_offset :: f64
  stepper_angular_velocity :: f64
  commanded_acceleration :: f64
  prev_stepper_angle :: f64
  last_command_count :: uint32
  cycles_since_command :: uint32
  last_state_time :: uint32
  print_count :: uint32
  loop_freq :: f64
  led_ready :: bool
  led_toggle_counter :: uint32
  is_flash_on :: bool
  pixel :: colour
  asked :: "stepper_request list list"

text \<open>What a turn meets: clock readings in the order of the calls, the driver's answers, the message
  taken from the mailbox, the payloads the transport delivers before the counter is read and between
  that and the reading of the command, and the uninitialised stack objects.\<close>

record tier2_input =
  in_loop_start_ms :: uint32
  in_position :: "int option"
  in_encoder :: EncoderState
  in_state_time :: uint32
  in_state_time_again :: uint32
  in_delivered :: "bytes list"
  in_late :: "bytes list"
  in_tmp :: bytes
  in_cmd_val :: bytes
  in_interval_ret :: int
  in_actual_position :: "int option"
  in_loop_end_ms :: uint32
  in_after_sleep_ms :: uint32

section \<open>The control loop\<close>

definition read_stepper :: "nat \<Rightarrow> tier2_input \<Rightarrow> tier2_state \<Rightarrow> tier2_state" where
  "read_stepper res i s =
     (case in_position i of
        None \<Rightarrow> s
      | Some p \<Rightarrow> s\<lparr>stepper_angle := f64_sub (microsteps_to_angle res p) (stepper_angle_offset s)\<rparr>)"

definition motor_joint_velocity :: "tier2_input \<Rightarrow> tier2_state \<Rightarrow> f64" where
  "motor_joint_velocity i s =
     (let dt = f64_div (int_to_double (uint (in_state_time i - last_state_time s))) (dec 1000 0)
      in if f64_lt 0 dt then f64_div (f64_sub (stepper_angle s) (prev_stepper_angle s)) dt else 0)"

text \<open>The members of \<open>zenbedded_state_t\<close> in the order of the schema.\<close>

definition state_val :: "tier2_input \<Rightarrow> f64 \<Rightarrow> tier2_state \<Rightarrow> bytes" where
  "state_val i velocity s =
     le64s [stepper_angle s, velocity, enc_angle (in_encoder i), enc_velocity (in_encoder i)]"

definition f64_ne :: "f64 \<Rightarrow> f64 \<Rightarrow> bool" where "f64_ne x y \<longleftrightarrow> \<not> f64_eq x y"

definition follow_command :: "client_config \<Rightarrow> tier2_input \<Rightarrow> tier2_state \<Rightarrow> tier2_state option" where
  "follow_command cfg i s =
     (let command_count = accepted_command_count (client2 s)
      in if command_count \<noteq> last_command_count s then do {
           let s = s\<lparr>last_command_count := command_count, cycles_since_command := 0\<rparr>;
           c \<leftarrow> deliver_all cfg (in_late i) (client2 s);
           (ok, cmd_val) \<leftarrow> read_command (raw_read 8) cfg (in_tmp i) c (in_cmd_val i);
           Some (if ok then s\<lparr>client2 := c, commanded_acceleration := of_le64 (take 8 cmd_val)\<rparr>
                 else s\<lparr>client2 := c\<rparr>)
         }
         else if cycles_since_command s < kCommandTimeoutCycles then
           Some (s\<lparr>cycles_since_command := cycles_since_command s + 1\<rparr>)
         else if f64_ne (commanded_acceleration s) 0 \<or> f64_ne (stepper_angular_velocity s) 0 then
           Some (s\<lparr>commanded_acceleration := 0, stepper_angular_velocity := 0\<rparr>)
         else Some s)"

definition integrate :: "tier2_state \<Rightarrow> f64" where
  "integrate s =
     f64_clamp
       (f64_add (stepper_angular_velocity s) (f64_mul (commanded_acceleration s) kControlPeriodSec))
       (f64_neg kMaxAngularVelocity) kMaxAngularVelocity"

text \<open>Up to the construction of \<open>state_val\<close>, and from the integration to the request.\<close>

definition sense :: "nat \<Rightarrow> tier2_input \<Rightarrow> tier2_state \<Rightarrow> bytes \<times> tier2_state" where
  "sense res i s =
     (let s = read_stepper res i s;
          velocity = motor_joint_velocity i s;
          s = s\<lparr>last_state_time := in_state_time_again i, prev_stepper_angle := stepper_angle s,
                print_count := if print_count s + 1 = 100 then 0 else print_count s + 1\<rparr>
      in (state_val i velocity s, s))"

definition drive :: "nat \<Rightarrow> tier2_input \<Rightarrow> tier2_state \<Rightarrow> tier2_state option" where
  "drive res i s = do {
     let s = s\<lparr>stepper_angular_velocity := integrate s\<rparr>;
     let s = s\<lparr>stepper_angular_velocity :=
                 enforce_stepper_hard_stop (stepper_angle s) (stepper_angular_velocity s)\<rparr>;
     requests \<leftarrow> set_stepper_angular_vel res (stepper_min_position s) (stepper_max_position s)
                  (in_interval_ret i) (in_actual_position i) (stepper_angular_velocity s);
     Some (s\<lparr>asked := asked s @ [requests]\<rparr>)
   }"

definition flash_led :: "tier2_state \<Rightarrow> tier2_state" where
  "flash_led s =
     (if \<not> led_ready s then s
      else
        let s = s\<lparr>led_toggle_counter := led_toggle_counter s + 1\<rparr> in
        if led_toggle_counter s \<ge> 25 then
          let s = s\<lparr>led_toggle_counter := 0, is_flash_on := \<not> is_flash_on s\<rparr>
          in s\<lparr>pixel := if is_flash_on s then RGB 0 255 0 else RGB 0 0 0\<rparr>
        else s)"

text \<open>One turn: the time it sleeps, and the state.\<close>

definition tier2_turn ::
  "client_config \<Rightarrow> nat \<Rightarrow> tier2_input \<Rightarrow> tier2_state \<Rightarrow> (uint32 \<times> tier2_state) option" where
  "tier2_turn cfg res i s = do {
     let (v, s) = sense res i s;
     c \<leftarrow> write_state (raw_write 32) v (client2 s);
     c \<leftarrow> deliver_all cfg (in_delivered i) c;
     s \<leftarrow> follow_command cfg i (s\<lparr>client2 := c\<rparr>);
     s \<leftarrow> drive res i s;
     let s = flash_led s;
     let ms = sleep_ms kControlPeriodMs (in_loop_start_ms i) (in_loop_end_ms i);
     Some (ms, s\<lparr>loop_freq := f64_div (dec 1000 0)
                   (int_to_double (uint (in_after_sleep_ms i - in_loop_start_ms i)))\<rparr>)
   }"

definition tier2_cycle :: "client_config \<Rightarrow> nat \<Rightarrow> tier2_input \<Rightarrow> tier2_state \<Rightarrow> tier2_state option" where
  "tier2_cycle cfg res i s = map_option snd (tier2_turn cfg res i s)"

section \<open>Initialisation\<close>

text \<open>One attempt of the loop around \<open>client.init(100)\<close>: the clock at its condition, the answers of
  zenoh to the three calls of the transport, and the uninitialised scratch buffer.\<close>

record init_attempt =
  at_ms :: uint32
  at_init :: zenoh
  at_publisher :: zenoh
  at_subscriber :: zenoh
  at_scratch :: bytes

fun init_client ::
  "client_config \<Rightarrow> uint32 \<Rightarrow> init_attempt list \<Rightarrow> int \<Rightarrow> (unit, unit) client \<Rightarrow> client_transport
     \<Rightarrow> (int \<times> (unit, unit) client \<times> client_transport) option" where
  "init_client cfg init_timer [] ret c t = None"
| "init_client cfg init_timer (a # as) ret c t =
     (if \<not> at_ms a - init_timer < 10000 then Some (ret, c, t)
      else do {
        (ret, c, t) \<leftarrow> client_init raw_init (raw_payload_size 32) raw_init (raw_payload_size 8) cfg
          (at_init a) (at_publisher a) (at_subscriber a) (at_scratch a) 100 () () c t;
        if ret = 0 then Some (ret, c, t) else init_client cfg init_timer as ret c t
      })"

record tier2_boot =
  b_led :: bool
  b_stepper_driver :: bool
  b_stepper_ctrl :: bool
  b_encoder :: bool
  b_pendulum_ready :: bool
  b_init_timer :: uint32
  b_attempts :: "init_attempt list"
  b_enable_ret :: int
  b_position :: "int + int"
  b_delivered :: "bytes list"
  b_state_time :: uint32

definition stepper_limit_microsteps :: "nat \<Rightarrow> int option" where
  "stepper_limit_microsteps res = do {
     n \<leftarrow> f64_lround (f64_mul (f64_div kStepperAngleLimitRad two_pi) (int_to_double (micro_steps_per_rev res)));
     to_int32 n
   }"

text \<open>\<open>main\<close> up to its loop: \<open>Inl\<close> the code it returns, or the state it enters the loop with. Commands
  that arrive before the counter is first read (\<open>b_delivered\<close>) are not followed. \<open>None\<close> is waiting forever for the encoder, undefined behaviour, or more attempts than the list holds.\<close>

definition tier2_main ::
  "client_config \<Rightarrow> nat \<Rightarrow> tier2_boot \<Rightarrow> (int \<times> net_state) option \<Rightarrow> nat \<Rightarrow>
   client_transport \<Rightarrow> ((int + tier2_state) \<times> client_transport) option" where
  "tier2_main cfg res b network i t =
     (if \<not> b_stepper_driver b \<or> \<not> b_stepper_ctrl b then Some (Inl 0, t)
      else if \<not> b_encoder b then Some (Inl 0, t)
      else if \<not> b_pendulum_ready b then None
      else do {
        (net_err, _) \<leftarrow> network;
        if net_err \<noteq> 0 then Some (Inl net_err, t)
        else do {
          (ret, c, t) \<leftarrow> init_client cfg (b_init_timer b) (b_attempts b) (- 1)
                           (new_client cfg i () ()) t;
          if ret \<noteq> 0 then Some (Inl ret, t)
          else if b_enable_ret b \<noteq> 0 then Some (Inl (b_enable_ret b), t)
          else
            case b_position b of
              Inl ret \<Rightarrow> Some (Inl ret, t)
            | Inr stepper_position \<Rightarrow> do {
                limit \<leftarrow> stepper_limit_microsteps res;
                lo \<leftarrow> to_int32 (stepper_position - limit);
                hi \<leftarrow> to_int32 (stepper_position + limit);
                c \<leftarrow> deliver_all cfg (b_delivered b) c;
                Some (Inr \<lparr>client2 = c, stepper_min_position = lo, stepper_max_position = hi,
                  stepper_angle = 0, stepper_angle_offset = microsteps_to_angle res stepper_position,
                  stepper_angular_velocity = 0, commanded_acceleration = 0, prev_stepper_angle = 0,
                  last_command_count = accepted_command_count c, cycles_since_command = 0,
                  last_state_time = b_state_time b, print_count = 0, loop_freq = 0,
                  led_ready = b_led b, led_toggle_counter = 0, is_flash_on = True,
                  pixel = if b_led b then RGB 0 0 255 else RGB 0 0 0, asked = []\<rparr>, t)
              }
        }
      })"

end
