(* ===== verification/Pendulum_Tier1.thy ===== *)
theory Pendulum_Tier1
  imports Position_Codec Pendulum_Tier2
begin

text \<open>
  \<open>inverted_pendulum_tier1/src/main.cpp\<close>: the pendulum firmware over Tier 1. It publishes the two
  positions as a \<open>JointState\<close> and runs the stepper at the velocity of the newest \<open>JointCommand\<close>. The
  motor side is in \<open>Stepper_Control\<close>; the loop that waits for the stored Wi-Fi network and the struct of
  sensor answers are those of \<open>Pendulum_Tier2\<close>, whose program has the same statements. What the
  drivers, the clock and the network answer during a turn is the input of the turn.
\<close>

section \<open>Constants and helpers\<close>

definition tier1_kControlPeriodMs :: uint32 where "tier1_kControlPeriodMs = 10"
definition tier1_kCommandTimeoutMs :: uint32 where "tier1_kCommandTimeoutMs = 200"
definition tier1_kCommandTimeoutCycles :: uint32 where
  "tier1_kCommandTimeoutCycles = tier1_kCommandTimeoutMs div tier1_kControlPeriodMs"

definition tier1_get_encoder_angle_deg :: "encoder_answer \<Rightarrow> f64 option" where
  "tier1_get_encoder_angle_deg a =
     (if fetch_ret a \<noteq> 0 then None
      else if channel_ret a \<noteq> 0 then None
      else Some (f64_div (f64_mul (rotation a) M_PI) (int_to_double 180)))"

text \<open>What \<open>sntp_simple\<close> returns: its code and the time, seconds with a binary fraction of 32 bits.\<close>

record sntp_answer =
  sntp_rc :: int
  sntp_seconds :: "64 word"
  sntp_fraction :: uint32

record timespec =
  tv_sec :: int
  tv_nsec :: int

definition ntp_timespec :: "sntp_answer \<Rightarrow> timespec" where
  "ntp_timespec a =
     \<lparr>tv_sec = sint (sntp_seconds a),
      tv_nsec = uint (drop_bit 32 ((ucast (sntp_fraction a) :: 64 word) * 1000000000))\<rparr>"

text \<open>The result and the time the clock is set to, if it is; \<open>settime\<close> is what \<open>clock_settime\<close> returns.\<close>

definition sync_time_from_ntp :: "sntp_answer \<Rightarrow> int \<Rightarrow> bool \<times> timespec option" where
  "sync_time_from_ntp a settime =
     (if sntp_rc a < 0 then (False, None)
      else if settime = 0 then (True, Some (ntp_timespec a))
      else (False, None))"

section \<open>The control loop\<close>

definition tier1_state_params :: joint_state_params where
  "tier1_state_params = \<lparr>frame_id = Some ''base_link'',
     joint_names = [''stepper_motor'', ''magnetic_encoder''], p_num_joints = 2\<rparr>"

definition tier1_command_params :: joint_command_params where
  "tier1_command_params = \<lparr>cmd_frame_id = Some ''base_link'',
     cmd_joint_names = [''stepper_motor'', ''magnetic_encoder''], cmd_num_joints = 2,
     interface_name = Some ''velocity''\<rparr>"

record tier1_state =
  client1 :: "(zcdr_joint_state_ctx_t, zcdr_joint_command_ctx_t) client"
  t1_stepper_angle :: f64
  t1_encoder_angle :: f64
  t1_stepper_angle_offset :: f64
  t1_encoder_angle_offset :: f64
  t1_velocity :: f64
  t1_last_command_count :: uint32
  t1_cycles_since_command :: uint32
  t1_asked :: "stepper_request list list"

text \<open>What a turn meets: the driver's answers, the clock, the payloads the transport delivers before
  the counter is read and between that and the reading of the command, and the uninitialised stack
  objects.\<close>

record tier1_input =
  t1_position :: "int option"
  t1_encoder :: encoder_answer
  t1_realtime :: timespec
  t1_delivered :: "bytes list"
  t1_late :: "bytes list"
  t1_tmp :: bytes
  t1_cmd :: "f64 list"
  t1_interval_ret :: int

definition tier1_sense :: "nat \<Rightarrow> tier1_input \<Rightarrow> tier1_state \<Rightarrow> tier1_state" where
  "tier1_sense res i s =
     (let s = (case t1_position i of
                 None \<Rightarrow> s
               | Some p \<Rightarrow> s\<lparr>t1_stepper_angle :=
                   f64_sub (microsteps_to_angle res p) (t1_stepper_angle_offset s)\<rparr>)
      in case tier1_get_encoder_angle_deg (t1_encoder i) of
           None \<Rightarrow> s
         | Some raw \<Rightarrow> s\<lparr>t1_encoder_angle := f64_sub raw (t1_encoder_angle_offset s)\<rparr>)"

definition tier1_state_val :: "tier1_input \<Rightarrow> tier1_state \<Rightarrow> joint_state_value" where
  "tier1_state_val i s =
     \<lparr>stamp_sec = word_of_int (tv_sec (t1_realtime i)),
      stamp_nanosec = word_of_int (tv_nsec (t1_realtime i)),
      positions = Some [t1_stepper_angle s, t1_encoder_angle s], velocities = None, efforts = None\<rparr>"

definition tier1_follow_command :: "client_config \<Rightarrow> tier1_input \<Rightarrow> tier1_state \<Rightarrow> tier1_state option" where
  "tier1_follow_command cfg i s =
     (let command_count = accepted_command_count (client1 s)
      in if command_count \<noteq> t1_last_command_count s then do {
           let s = s\<lparr>t1_last_command_count := command_count, t1_cycles_since_command := 0\<rparr>;
           c \<leftarrow> deliver_all cfg (t1_late i) (client1 s);
           (ok, cmd_val) \<leftarrow> read_command joint_command_read cfg (t1_tmp i) c
             \<lparr>cmd_stamp_sec = 0, cmd_stamp_nanosec = 0, cmd_values = Some (t1_cmd i)\<rparr>;
           let s = s\<lparr>client1 := c\<rparr>;
           if ok then
             (case cmd_values cmd_val of
                Some (v # _) \<Rightarrow> Some (s\<lparr>t1_velocity := v\<rparr>)
              | _ \<Rightarrow> None)
           else Some s
         }
         else if t1_cycles_since_command s < tier1_kCommandTimeoutCycles then
           Some (s\<lparr>t1_cycles_since_command := t1_cycles_since_command s + 1\<rparr>)
         else if f64_ne (t1_velocity s) 0 then
           Some (s\<lparr>t1_velocity := 0\<rparr>)
         else Some s)"

definition tier1_cycle :: "client_config \<Rightarrow> nat \<Rightarrow> tier1_input \<Rightarrow> tier1_state \<Rightarrow> tier1_state option" where
  "tier1_cycle cfg res i s = do {
     let s = tier1_sense res i s;
     c \<leftarrow> write_state joint_state_write (tier1_state_val i s) (client1 s);
     c \<leftarrow> deliver_all cfg (t1_delivered i) c;
     s \<leftarrow> tier1_follow_command cfg i (s\<lparr>client1 := c\<rparr>);
     requests \<leftarrow> tier1_set_stepper_angular_vel res (t1_interval_ret i) (t1_velocity s);
     Some (s\<lparr>t1_asked := t1_asked s @ [requests]\<rparr>)
   }"

section \<open>Initialisation\<close>

text \<open>From the request for the stored network to the pause after power saving is switched off: the
  code \<open>main\<close> returns if it is not 0, and the time the clock was set to.\<close>

definition tier1_bring_up ::
  "(nat \<Rightarrow> bool) \<Rightarrow> net_world \<Rightarrow> sntp_answer \<Rightarrow> int \<Rightarrow> net_state \<Rightarrow> (int \<times> timespec option \<times> net_state) option" where
  "tier1_bring_up grants w sntp settime s = do {
     let iface = default_if w;
     (connected, s) \<leftarrow> connect_stored grants w iface (k_uptime_get_32 (now s)) s;
     if \<not> connected then Some (- 1, None, s)
     else do {
       (up, s) \<leftarrow> wait_for (ipv4_preferred w iface) w kIpv4AcquireTimeout 200 (k_uptime_get_32 (now s)) s;
       if \<not> up then Some (- 1, None, s)
       else
         let (synced, clock) = sync_time_from_ntp sntp settime
         in Some (0, clock, k_sleep w 200 (call w Esp_Power_Save_None s))
     }
   }"

record tier1_boot =
  t1b_stepper_driver :: bool
  t1b_stepper_ctrl :: bool
  t1b_encoder :: bool
  t1b_init :: zenoh
  t1b_publisher :: zenoh
  t1b_subscriber :: zenoh
  t1b_scratch :: bytes
  t1b_enable_ret :: int
  t1b_position :: "int + int"
  t1b_encoder_answer :: encoder_answer
  t1b_delivered :: "bytes list"

text \<open>\<open>main\<close> up to its loop: \<open>Inl\<close> the code it returns, or the state it enters the loop with.\<close>

definition tier1_main ::
  "client_config \<Rightarrow> nat \<Rightarrow> tier1_boot \<Rightarrow> (int \<times> timespec option \<times> net_state) option \<Rightarrow>
   (zcdr_joint_state_ctx_t, zcdr_joint_command_ctx_t) client \<Rightarrow>
   client_transport \<Rightarrow> ((int + tier1_state) \<times> client_transport) option" where
  "tier1_main cfg res b network c t =
     (if \<not> t1b_stepper_driver b \<or> \<not> t1b_stepper_ctrl b then Some (Inl 0, t)
      else if \<not> t1b_encoder b then Some (Inl 0, t)
      else do {
        (net_ret, _, _) \<leftarrow> network;
        if net_ret \<noteq> 0 then Some (Inl net_ret, t)
        else do {
          (ret, c, t) \<leftarrow> client_init joint_state_init joint_state_payload_size joint_command_init
            joint_command_payload_size cfg (t1b_init b) (t1b_publisher b) (t1b_subscriber b) (t1b_scratch b)
            50 tier1_state_params tier1_command_params c t;
          if ret \<noteq> 0 then Some (Inl ret, t)
          else if t1b_enable_ret b \<noteq> 0 then Some (Inl (t1b_enable_ret b), t)
          else
            case t1b_position b of
              Inl ret \<Rightarrow> Some (Inl ret, t)
            | Inr stepper_position \<Rightarrow>
                (case tier1_get_encoder_angle_deg (t1b_encoder_answer b) of
                   None \<Rightarrow> Some (Inl (- EIO), t)
                 | Some encoder_offset \<Rightarrow> do {
                     c \<leftarrow> deliver_all cfg (t1b_delivered b) c;
                     Some (Inr \<lparr>client1 = c, t1_stepper_angle = 0, t1_encoder_angle = 0,
                       t1_stepper_angle_offset = microsteps_to_angle res stepper_position,
                       t1_encoder_angle_offset = encoder_offset, t1_velocity = 0,
                       t1_last_command_count = accepted_command_count c,
                       t1_cycles_since_command = 0, t1_asked = []\<rparr>, t)
                   })
        }
      })"

end
