(* ===== verification/Pendulum_Tier2_Properties.thy ===== *)
theory Pendulum_Tier2_Properties
  imports Pendulum_Tier2 Client_Properties Network_Properties
begin

text \<open>
  What the Tier 2 pendulum firmware guarantees over every run of its control loop: no undefined
  behaviour, the travel limits, the bound on the velocity, the watchdog, and what it publishes.
\<close>

section \<open>Zeros and the clamp\<close>

lemma f64_eq_zero: "f64_eq x 0 \<longleftrightarrow> x = 0 \<or> x = 0x8000000000000000"
proof
  assume h: "f64_eq x 0"
  have k0: "f64_key 0 = 0" by (simp add: f64_key_def)
  have "f64_key x = 0" using h k0 by (simp add: f64_eq_def)
  then have "(if unat x < 2 ^ 63 then int (unat x) else - int (unat x - 2 ^ 63)) = 0"
    by (simp only: f64_key_def Let_def)
  moreover have "b = 0 \<or> b = 2 ^ 63"
    if "(if b < 2 ^ 63 then int b else - int (b - 2 ^ 63)) = 0" for b :: nat
    using that by (auto split: if_splits)
  ultimately have "unat x = 0 \<or> unat x = 2 ^ 63" by blast
  then show "x = 0 \<or> x = 0x8000000000000000"
    by (auto simp: word_unat_eq_iff)
next
  assume "x = 0 \<or> x = 0x8000000000000000"
  then show "f64_eq x 0"
    by (auto simp: f64_eq_def f64_key_def isnan_def of_f64_def fp_decode_def binary64_def)
qed

lemma kMaxAngularVelocity_eq: "kMaxAngularVelocity = 0x401C000000000000"
  by (simp add: kMaxAngularVelocity_def f64_eval)

lemma neg_kMaxAngularVelocity_eq: "f64_neg kMaxAngularVelocity = 0xC01C000000000000"
  by (simp add: kMaxAngularVelocity_eq f64_neg_def f64_eval)

lemma zero_step:
  assumes "f64_eq a 0" "f64_eq v 0"
  shows "f64_eq (f64_add v (f64_mul a kControlPeriodSec)) 0"
proof -
  have m: "f64_mul 0 kControlPeriodSec = 0" "f64_mul 0x8000000000000000 kControlPeriodSec = 0x8000000000000000"
    by (simp_all add: kControlPeriodSec_eq f64_mul_def f64_eval)
  have p: "f64_add 0 0 = 0" "f64_add 0 0x8000000000000000 = 0" "f64_add 0x8000000000000000 0 = 0"
    "f64_add 0x8000000000000000 0x8000000000000000 = 0x8000000000000000"
    by (simp_all add: f64_add_def f64_eval scaled_def)
  show ?thesis using assms m p by (auto simp: f64_eq_zero)
qed

lemma zero_clamp:
  assumes "f64_eq v 0"
  shows "f64_clamp v (f64_neg kMaxAngularVelocity) kMaxAngularVelocity = v"
proof -
  have "f64_key v = 0" using assms by (simp add: f64_eq_def f64_key_def)
  moreover have "f64_key 0x401C000000000000 > 0" "f64_key 0xC01C000000000000 < 0"
    by (simp_all add: f64_key_def)
  ultimately show ?thesis
    unfolding neg_kMaxAngularVelocity_eq unfolding kMaxAngularVelocity_eq by (simp add: f64_clamp_def f64_lt_def)
qed

lemma hard_stop_cases:
  "enforce_stepper_hard_stop a v = v \<or> enforce_stepper_hard_stop a v = 0"
  by (simp add: enforce_stepper_hard_stop_def)

definition speed_ok :: "f64 \<Rightarrow> bool" where
  "speed_ok v \<longleftrightarrow> isnan v \<or> f64_le (f64_neg kMaxAngularVelocity) v \<and> f64_le v kMaxAngularVelocity"

lemma max_speed_le: "f64_le (f64_neg kMaxAngularVelocity) kMaxAngularVelocity"
  unfolding neg_kMaxAngularVelocity_eq
  unfolding kMaxAngularVelocity_eq
  by (simp add: f64_le_def f64_key_def isnan_def of_f64_def fp_decode_def binary64_def Let_def)

lemma speed_ok_clamp: "speed_ok (f64_clamp v (f64_neg kMaxAngularVelocity) kMaxAngularVelocity)"
  by (cases "isnan v") (simp_all add: speed_ok_def f64_clamp_NaN f64_clamp_bounds max_speed_le)

lemma speed_ok_0: "speed_ok 0"
  using zero_clamp [of 0] speed_ok_clamp [of 0] by (simp add: f64_eq_zero)

section \<open>The phases of a turn\<close>

definition tier2_input_ok :: "client_config \<Rightarrow> tier2_input \<Rightarrow> bool" where
  "tier2_input_ok cfg i \<longleftrightarrow>
     (\<forall>b \<in> set (in_delivered i) \<union> set (in_late i). length b < 2 ^ 32) \<and>
     length (in_tmp i) = max_cmd_buffer_size cfg \<and> length (in_cmd_val i) = 8 \<and>
     (\<forall>p. in_actual_position i = Some p \<longrightarrow> \<bar>p\<bar> \<le> 2 ^ 31)"

text \<open>No payload of the size of a command was delivered.\<close>

definition tier2_silent :: "tier2_input \<Rightarrow> bool" where
  "tier2_silent i \<longleftrightarrow> (\<forall>b \<in> set (in_delivered i) \<union> set (in_late i). length b \<noteq> 8)"

definition tier2_caught_up :: "tier2_state \<Rightarrow> bool" where
  "tier2_caught_up s \<longleftrightarrow> last_command_count s = cmd_accepted_count (client2 s)"

definition tier2_idle :: "tier2_state \<Rightarrow> bool" where
  "tier2_idle s \<longleftrightarrow> asked s \<noteq> [] \<and> last (asked s) = [Stepper_Stop]"

definition driver_ok :: "nat \<Rightarrow> tier2_state \<Rightarrow> bool" where
  "driver_ok res s \<longleftrightarrow>
     (\<exists>k. kStepIntervalForMaxVelNs res = Some k \<and> k \<le> kMaxMicrostepIntervalNs \<and>
       - (2 ^ 31) \<le> stepper_min_position s \<and> stepper_min_position s \<le> stepper_max_position s \<and>
       stepper_max_position s < 2 ^ 31 \<and>
       (\<forall>rs \<in> set (asked s). list_all (confined k (stepper_min_position s) (stepper_max_position s)) rs))"

definition tier2_good :: "client_config \<Rightarrow> nat \<Rightarrow> tier2_state \<Rightarrow> bool" where
  "tier2_good cfg res s \<longleftrightarrow>
     raw_client.ready 32 8 cfg () () (client2 s) \<and> driver_ok res s \<and>
     speed_ok (stepper_angular_velocity s)"

lemma sense_keeps:
  assumes "sense res i s = (v, s')"
  shows "length v = 32" "client2 s' = client2 s" "stepper_min_position s' = stepper_min_position s"
    "stepper_max_position s' = stepper_max_position s" "asked s' = asked s"
    "stepper_angular_velocity s' = stepper_angular_velocity s"
    "commanded_acceleration s' = commanded_acceleration s"
    "last_command_count s' = last_command_count s" "cycles_since_command s' = cycles_since_command s"
  using assms
  by (auto simp: sense_def read_stepper_def state_val_def Let_def split: option.splits)

lemma flash_led_keeps [simp]:
  "client2 (flash_led s) = client2 s" "asked (flash_led s) = asked s"
  "stepper_min_position (flash_led s) = stepper_min_position s"
  "stepper_max_position (flash_led s) = stepper_max_position s"
  "stepper_angular_velocity (flash_led s) = stepper_angular_velocity s"
  "commanded_acceleration (flash_led s) = commanded_acceleration s"
  "last_command_count (flash_led s) = last_command_count s"
  "cycles_since_command (flash_led s) = cycles_since_command s"
  by (simp_all add: flash_led_def Let_def)

lemma drive_returns:
  assumes "driver_ok res s" "\<forall>p. in_actual_position i = Some p \<longrightarrow> \<bar>p\<bar> \<le> 2 ^ 31"
  shows "\<exists>rs. drive res i s =
      Some (s\<lparr>stepper_angular_velocity := enforce_stepper_hard_stop (stepper_angle s) (integrate s),
              asked := asked s @ [rs]\<rparr>) \<and>
    set_stepper_angular_vel res (stepper_min_position s) (stepper_max_position s) (in_interval_ret i)
      (in_actual_position i) (enforce_stepper_hard_stop (stepper_angle s) (integrate s)) = Some rs \<and>
    driver_ok res (s\<lparr>stepper_angular_velocity := enforce_stepper_hard_stop (stepper_angle s) (integrate s),
              asked := asked s @ [rs]\<rparr>)"
proof -
  let ?v = "enforce_stepper_hard_stop (stepper_angle s) (integrate s)"
  obtain k where k: "kStepIntervalForMaxVelNs res = Some k" "k \<le> kMaxMicrostepIntervalNs"
    "- (2 ^ 31) \<le> stepper_min_position s" "stepper_min_position s \<le> stepper_max_position s"
    "stepper_max_position s < 2 ^ 31"
    "\<forall>rs \<in> set (asked s). list_all (confined k (stepper_min_position s) (stepper_max_position s)) rs"
    using assms(1) by (auto simp: driver_ok_def)
  obtain rs where rs: "set_stepper_angular_vel res (stepper_min_position s) (stepper_max_position s)
      (in_interval_ret i) (in_actual_position i) ?v = Some rs"
    "list_all (confined k (stepper_min_position s) (stepper_max_position s)) rs"
    using set_stepper_angular_vel_confined [OF k(1-5), of "in_actual_position i"] assms(2) by blast
  then show ?thesis using k by (auto simp: drive_def driver_ok_def)
qed

lemma integrate_ok: "speed_ok (enforce_stepper_hard_stop a (integrate s))"
  using hard_stop_cases [of a "integrate s"] speed_ok_0 speed_ok_clamp by (auto simp: integrate_def)

lemma follow_command_returns:
  assumes "raw_client.ready 32 8 cfg () () (client2 s)" "tier2_input_ok cfg i"
  shows "\<exists>s'. follow_command cfg i s = Some s' \<and> raw_client.ready 32 8 cfg () () (client2 s') \<and>
    stepper_min_position s' = stepper_min_position s \<and>
    stepper_max_position s' = stepper_max_position s \<and> asked s' = asked s \<and>
    last_command_count s' = cmd_accepted_count (client2 s) \<and>
    (if cmd_accepted_count (client2 s) \<noteq> last_command_count s then
       cmd_accepted_count (client2 s') =
         cmd_accepted_count (client2 s) + word_of_nat (length (accepted 8 (in_late i)))
     else client2 s' = client2 s \<and>
       (if unat (cycles_since_command s) < 20
        then unat (cycles_since_command s') = Suc (unat (cycles_since_command s))
        else cycles_since_command s' = cycles_since_command s \<and>
          f64_eq (commanded_acceleration s') 0 \<and> f64_eq (stepper_angular_velocity s') 0))"
proof (cases "cmd_accepted_count (client2 s) \<noteq> last_command_count s")
  case True
  obtain c where c: "deliver_all cfg (in_late i) (client2 s) = Some c"
    "raw_client.ready 32 8 cfg () () c"
    "cmd_accepted_count c = cmd_accepted_count (client2 s) + word_of_nat (length (accepted 8 (in_late i)))"
    using raw_client.deliver_all_ready [OF assms(1), of "in_late i"] assms(2)
    by (auto simp: tier2_input_ok_def)
  obtain w where "read_command (raw_read 8) cfg (in_tmp i) c (in_cmd_val i) = Some (True, w)"
    using raw_client.read_command_total [OF c(2), of "in_cmd_val i" "in_tmp i"] assms(2)
    by (auto simp: tier2_input_ok_def raw_image_def)
  with True c show ?thesis by (auto simp: follow_command_def accepted_command_count_def)
next
  case False
  have z: "f64_eq 0 0" by (simp add: f64_eq_zero)
  have k: "unat kCommandTimeoutCycles = 20"
    by (simp add: kCommandTimeoutCycles_def kCommandTimeoutMs_def kControlPeriodMs_def)
  have inc: "unat (cycles_since_command s + 1) = Suc (unat (cycles_since_command s))"
    if "unat (cycles_since_command s) < 20"
    using that by (simp add: unat_word_ariths)
  show ?thesis using False assms(1) z inc
    by (auto simp: follow_command_def accepted_command_count_def Let_def word_less_nat_alt k f64_ne_def)
qed

section \<open>A turn\<close>

lemma tier2_cycle_phases:
  assumes good: "tier2_good cfg res s" and i: "tier2_input_ok cfg i"
  shows "\<exists>v s0 c0 c s1 s2 f. sense res i s = (v, s0) \<and>
    write_state (raw_write 32) v (client2 s) = Some c0 \<and> raw_client.ready 32 8 cfg () () c0 \<and>
    deliver_all cfg (in_delivered i) c0 = Some c \<and> raw_client.ready 32 8 cfg () () c \<and>
    cmd_accepted_count c =
      cmd_accepted_count (client2 s) + word_of_nat (length (accepted 8 (in_delivered i))) \<and>
    follow_command cfg i (s0\<lparr>client2 := c\<rparr>) = Some s1 \<and> drive res i s1 = Some s2 \<and>
    raw_client.ready 32 8 cfg () () (client2 s1) \<and> driver_ok res s1 \<and>
    tier2_cycle cfg res i s = Some ((flash_led s2)\<lparr>loop_freq := f\<rparr>)"
proof -
  obtain v s0 where s0: "sense res i s = (v, s0)" by (cases "sense res i s")
  note keeps = sense_keeps [OF s0]
  have ready: "raw_client.ready 32 8 cfg () () (client2 s0)" "driver_ok res s0"
    using good keeps by (simp_all add: tier2_good_def driver_ok_def)
  obtain c0 where c0: "write_state (raw_write 32) v (client2 s0) = Some c0"
    "raw_client.ready 32 8 cfg () () c0"
    using raw_client.write_state_ready [OF ready(1), of v] keeps(1) by (auto simp: raw_image_def)
  obtain c where c: "deliver_all cfg (in_delivered i) c0 = Some c"
    "raw_client.ready 32 8 cfg () () c"
    "cmd_accepted_count c = cmd_accepted_count c0 + word_of_nat (length (accepted 8 (in_delivered i)))"
    using raw_client.deliver_all_ready [OF c0(2), of "in_delivered i"] i
    by (auto simp: tier2_input_ok_def)
  obtain s1 where s1: "follow_command cfg i (s0\<lparr>client2 := c\<rparr>) = Some s1"
    "raw_client.ready 32 8 cfg () () (client2 s1)" "driver_ok res s1"
    using follow_command_returns [of cfg "s0\<lparr>client2 := c\<rparr>" i] c(2) i ready(2)
    by (auto simp: driver_ok_def)
  obtain s2 where s2: "drive res i s1 = Some s2"
    using drive_returns [OF s1(3), of i] i by (auto simp: tier2_input_ok_def)
  have "cmd_accepted_count c0 = cmd_accepted_count (client2 s)"
    using write_state_keeps [OF c0(1)] keeps(2) by simp
  with s0 c0 c s1 s2 show ?thesis by (auto simp: tier2_cycle_def tier2_turn_def Let_def keeps(2))
qed

lemma tier2_cycle_good:
  assumes good: "tier2_good cfg res s" and i: "tier2_input_ok cfg i"
  shows "\<exists>s'. tier2_cycle cfg res i s = Some s' \<and> tier2_good cfg res s' \<and>
    stepper_min_position s' = stepper_min_position s \<and> stepper_max_position s' = stepper_max_position s"
proof -
  obtain v s0 c s1 s2 f where h: "sense res i s = (v, s0)" "raw_client.ready 32 8 cfg () () c"
    "follow_command cfg i (s0\<lparr>client2 := c\<rparr>) = Some s1" "drive res i s1 = Some s2"
    "raw_client.ready 32 8 cfg () () (client2 s1)" "driver_ok res s1"
    "tier2_cycle cfg res i s = Some ((flash_led s2)\<lparr>loop_freq := f\<rparr>)"
    using tier2_cycle_phases [OF assms]
    by (elim exE conjE) (rule that)
  have lim: "stepper_min_position s1 = stepper_min_position s" "stepper_max_position s1 = stepper_max_position s"
    using follow_command_returns [of cfg "s0\<lparr>client2 := c\<rparr>" i] h(1,2,3) i sense_keeps [OF h(1)] by auto
  obtain rs where rs: "s2 = s1\<lparr>stepper_angular_velocity := enforce_stepper_hard_stop (stepper_angle s1) (integrate s1),
      asked := asked s1 @ [rs]\<rparr>" "driver_ok res s2"
    using drive_returns [OF h(6), of i] i h(4) by (auto simp: tier2_input_ok_def)
  then have "tier2_good cfg res ((flash_led s2)\<lparr>loop_freq := f\<rparr>)"
    using h(5) integrate_ok by (simp add: tier2_good_def driver_ok_def)
  with h(7) rs(1) lim show ?thesis by simp
qed

lemma not_accepted: "\<forall>b \<in> set bs. length b \<noteq> n \<Longrightarrow> accepted n bs = []"
  by (simp add: accepted_def)

lemma accepted_length: "b \<in> set (accepted n bs) \<Longrightarrow> length b = n"
  by (simp add: accepted_def)

text \<open>What a turn leaves in the slot that the control thread publishes next.\<close>

lemma publish_cong:
  "state_buffer c' = state_buffer c \<Longrightarrow> pub c' = pub c \<Longrightarrow> initialized c' = initialized c \<Longrightarrow>
   state_payload_size c' = state_payload_size c \<Longrightarrow>
   zenoh_publish_state cfg z tmp c' t = zenoh_publish_state cfg z tmp c t"
  by (simp add: zenoh_publish_state_def)

lemma follow_command_client:
  "follow_command cfg i s = Some s' \<Longrightarrow>
   client2 s' = client2 s \<or> deliver_all cfg (in_late i) (client2 s) = Some (client2 s')"
  by (auto simp: follow_command_def bind_Some_iff Let_def split: if_splits)

lemma drive_keeps:
  "drive res i s = Some s' \<Longrightarrow> client2 s' = client2 s \<and> commanded_acceleration s' = commanded_acceleration s \<and>
   last_command_count s' = last_command_count s \<and> cycles_since_command s' = cycles_since_command s"
  by (auto simp: drive_def bind_Some_iff Let_def)

text \<open>The members of the state only \<open>sense\<close> changes.\<close>

definition measured :: "tier2_state \<Rightarrow> f64 \<times> f64 \<times> uint32 \<times> f64" where
  "measured s = (stepper_angle s, prev_stepper_angle s, last_state_time s, stepper_angle_offset s)"

lemma measurement_kept:
  "follow_command cfg i s = Some s' \<Longrightarrow> measured s' = measured s"
  "drive res i s = Some s' \<Longrightarrow> measured s' = measured s"
  "measured (flash_led s) = measured s"
  by (auto simp: measured_def follow_command_def drive_def flash_led_def bind_Some_iff Let_def split: if_splits)

lemma tier2_cycle_publishes:
  assumes good: "tier2_good cfg res s" and i: "tier2_input_ok cfg i"
    and tmp: "length tmp = max_state_buffer_size cfg"
  shows "\<exists>s'. tier2_cycle cfg res i s = Some s' \<and> measured s' = measured (snd (sense res i s)) \<and>
    zenoh_publish_state cfg z tmp (client2 s') t =
      Some (zenbedded_transport_publish (transport_cfg cfg) z (pub (client2 s)) (fst (sense res i s)) t)"
proof -
  obtain v s0 c0 c s1 s2 f where h: "sense res i s = (v, s0)"
    "write_state (raw_write 32) v (client2 s) = Some c0" "deliver_all cfg (in_delivered i) c0 = Some c"
    "follow_command cfg i (s0\<lparr>client2 := c\<rparr>) = Some s1" "drive res i s1 = Some s2"
    "tier2_cycle cfg res i s = Some ((flash_led s2)\<lparr>loop_freq := f\<rparr>)"
    using tier2_cycle_phases [OF good i]
    by (elim exE conjE) (rule that)
  have "raw_client.ready 32 8 cfg () () (client2 s)" using good by (simp add: tier2_good_def)
  with raw_client.write_then_publish [OF this _ tmp, of v z t] h(2) sense_keeps(1) [OF h(1)]
  have p: "zenoh_publish_state cfg z tmp c0 t =
      Some (zenbedded_transport_publish (transport_cfg cfg) z (pub (client2 s)) v t)"
    by (auto simp: raw_image_def)
  have "zenoh_publish_state cfg z tmp (client2 s1) t = zenoh_publish_state cfg z tmp c0 t"
    using follow_command_client [OF h(4)] deliver_all_keeps [OF h(3)]
    by (intro publish_cong) (auto dest: deliver_all_keeps)
  moreover have "measured ((flash_led s2)\<lparr>loop_freq := f\<rparr>) = measured s0"
    using measurement_kept(1) [OF h(4)] measurement_kept(2) [OF h(5)] measurement_kept(3) [of s2]
    by (simp add: measured_def)
  ultimately show ?thesis using p h(1,6) drive_keeps [OF h(5)] by auto
qed

text \<open>A turn with a new command: the newest one that had arrived when it was read.\<close>

lemma tier2_command_cycle:
  assumes good: "tier2_good cfg res s" and i: "tier2_input_ok cfg i" and up: "tier2_caught_up s"
    and new: "accepted 8 (in_delivered i) \<noteq> []" "length (accepted 8 (in_delivered i)) < 2 ^ 32"
  shows "\<exists>s' v rs. tier2_cycle cfg res i s = Some s' \<and> cycles_since_command s' = 0 \<and>
    commanded_acceleration s' = of_le64 (last (accepted 8 (in_delivered i @ in_late i))) \<and>
    v = f64_clamp (f64_add (stepper_angular_velocity s) (f64_mul (commanded_acceleration s') kControlPeriodSec))
      (f64_neg kMaxAngularVelocity) kMaxAngularVelocity \<and>
    stepper_angular_velocity s' = enforce_stepper_hard_stop (stepper_angle s') v \<and>
    set_stepper_angular_vel res (stepper_min_position s) (stepper_max_position s) (in_interval_ret i)
      (in_actual_position i) (stepper_angular_velocity s') = Some rs \<and> asked s' = asked s @ [rs] \<and>
    (accepted 8 (in_late i) = [] \<longrightarrow> tier2_caught_up s')"
proof -
  obtain v s0 c0 c s1 s2 f where h: "sense res i s = (v, s0)"
    "raw_client.ready 32 8 cfg () () c0" "deliver_all cfg (in_delivered i) c0 = Some c"
    "cmd_accepted_count c =
      cmd_accepted_count (client2 s) + word_of_nat (length (accepted 8 (in_delivered i)))"
    "follow_command cfg i (s0\<lparr>client2 := c\<rparr>) = Some s1" "drive res i s1 = Some s2"
    "driver_ok res s1" "tier2_cycle cfg res i s = Some ((flash_led s2)\<lparr>loop_freq := f\<rparr>)"
    "raw_client.ready 32 8 cfg () () c"
    using tier2_cycle_phases [OF good i]
    by (elim exE conjE) (rule that)
  note keeps = sense_keeps [OF h(1)]
  let ?w = "last (accepted 8 (in_delivered i @ in_late i))"
  have nonempty: "accepted 8 (in_delivered i @ in_late i) \<noteq> []" using new(1) by (simp add: accepted_def)
  have w: "length ?w = 8" using accepted_length [OF last_in_set [OF nonempty]] .
  have small: "\<forall>b \<in> set (in_delivered i). length b < 2 ^ 32" "\<forall>b \<in> set (in_late i). length b < 2 ^ 32"
    using i by (auto simp: tier2_input_ok_def)
  have lengths: "raw_image 8 ?w" "raw_image 8 (in_cmd_val i)" "length (in_tmp i) = max_cmd_buffer_size cfg"
    using i w by (simp_all add: tier2_input_ok_def raw_image_def)
  have nonempty': "accepted (unat (8 :: size_t)) (in_delivered i @ in_late i) \<noteq> []" using nonempty by simp
  have last8: "last (accepted (unat (8 :: size_t)) (in_delivered i @ in_late i)) = ?w" by simp
  obtain c2 where c2: "deliver_all cfg (in_late i) c = Some c2"
    "read_command (raw_read 8) cfg (in_tmp i) c2 (in_cmd_val i) = Some (True, ?w)"
    using raw_client.read_newest [OF h(2) small lengths nonempty' last8 h(3)] by blast
  have "word_of_nat (length (accepted 8 (in_delivered i))) \<noteq> (0 :: 32 word)"
    using new by (simp add: word_unat_eq_iff unat_of_nat)
  then have fresh: "cmd_accepted_count c \<noteq> last_command_count s0"
    using h(4) up keeps(8) by (simp add: tier2_caught_up_def)
  have s1: "s1 = s0\<lparr>last_command_count := cmd_accepted_count c, cycles_since_command := 0,
      client2 := c2, commanded_acceleration := of_le64 ?w\<rparr>"
    using h(5) fresh c2 w by (simp add: follow_command_def accepted_command_count_def Let_def)
  obtain rs where rs: "s2 = s1\<lparr>stepper_angular_velocity := enforce_stepper_hard_stop (stepper_angle s1) (integrate s1),
      asked := asked s1 @ [rs]\<rparr>"
    "set_stepper_angular_vel res (stepper_min_position s1) (stepper_max_position s1) (in_interval_ret i)
      (in_actual_position i) (enforce_stepper_hard_stop (stepper_angle s1) (integrate s1)) = Some rs"
    using drive_returns [OF h(7), of i] i h(6) by (auto simp: tier2_input_ok_def)
  have "stepper_angle (flash_led s2) = stepper_angle s2" by (simp add: flash_led_def Let_def)
  moreover have "cmd_accepted_count c2 = cmd_accepted_count c" if "accepted 8 (in_late i) = []"
    using raw_client.deliver_all_ready [OF h(9) small(2)] c2(1) that by auto
  ultimately show ?thesis using h(8) rs s1 keeps by (simp add: integrate_def tier2_caught_up_def)
qed

text \<open>The turns of a silent link.\<close>

lemma tier2_silent_cycle:
  assumes good: "tier2_good cfg res s" and i: "tier2_input_ok cfg i" "tier2_silent i"
    and s': "tier2_cycle cfg res i s = Some s'"
  shows "tier2_caught_up s'"
    and "tier2_caught_up s \<Longrightarrow> unat (cycles_since_command s) < 20 \<Longrightarrow>
      unat (cycles_since_command s') = Suc (unat (cycles_since_command s))"
    and "tier2_caught_up s \<Longrightarrow> 20 \<le> unat (cycles_since_command s) \<Longrightarrow>
      20 \<le> unat (cycles_since_command s') \<and> tier2_idle s'"
proof -
  obtain v s0 c s1 s2 f where h: "sense res i s = (v, s0)" "raw_client.ready 32 8 cfg () () c"
    "cmd_accepted_count c =
      cmd_accepted_count (client2 s) + word_of_nat (length (accepted 8 (in_delivered i)))"
    "follow_command cfg i (s0\<lparr>client2 := c\<rparr>) = Some s1" "drive res i s1 = Some s2"
    "driver_ok res s1" "tier2_cycle cfg res i s = Some ((flash_led s2)\<lparr>loop_freq := f\<rparr>)"
    using tier2_cycle_phases [OF good i(1)]
    by (elim exE conjE) (rule that)
  have quiet: "accepted 8 (in_delivered i) = []" "accepted 8 (in_late i) = []"
    using i(2) by (auto simp: tier2_silent_def intro!: not_accepted)
  have count: "cmd_accepted_count c = cmd_accepted_count (client2 s)" using h(3) quiet by simp
  have "raw_client.ready 32 8 cfg () () (client2 (s0\<lparr>client2 := c\<rparr>))" using h(2) by simp
  note f = follow_command_returns [OF this i(1)]
  obtain rs where rs: "s2 = s1\<lparr>stepper_angular_velocity := enforce_stepper_hard_stop (stepper_angle s1) (integrate s1),
      asked := asked s1 @ [rs]\<rparr>"
    "set_stepper_angular_vel res (stepper_min_position s1) (stepper_max_position s1) (in_interval_ret i)
      (in_actual_position i) (enforce_stepper_hard_stop (stepper_angle s1) (integrate s1)) = Some rs"
    using drive_returns [OF h(6), of i] i h(5) by (auto simp: tier2_input_ok_def)
  have s'_eq: "s' = (flash_led s2)\<lparr>loop_freq := f\<rparr>" using h(7) s' by simp
  note keeps = sense_keeps [OF h(1)]
  show "tier2_caught_up s'"
    using f h(4) quiet count rs(1) s'_eq keeps by (auto simp: tier2_caught_up_def split: if_splits)
  show "unat (cycles_since_command s') = Suc (unat (cycles_since_command s))"
    if "tier2_caught_up s" "unat (cycles_since_command s) < 20"
    using f h(4) that count rs(1) s'_eq keeps by (auto simp: tier2_caught_up_def split: if_splits)
  assume up: "tier2_caught_up s" "20 \<le> unat (cycles_since_command s)"
  have z: "f64_eq (commanded_acceleration s1) 0" "f64_eq (stepper_angular_velocity s1) 0"
    "cycles_since_command s1 = cycles_since_command s"
    using f h(4) up count keeps by (auto simp: tier2_caught_up_def split: if_splits)
  have "f64_eq (integrate s1) 0" using zero_step [OF z(1,2)] zero_clamp by (simp add: integrate_def)
  then have "f64_eq (enforce_stepper_hard_stop (stepper_angle s1) (integrate s1)) 0"
    using hard_stop_cases [of "stepper_angle s1" "integrate s1"] by (auto simp: f64_eq_zero)
  then have "rs = [Stepper_Stop]" using rs(2) by (simp add: set_stepper_angular_vel_def stop_stepper_def)
  then show "20 \<le> unat (cycles_since_command s') \<and> tier2_idle s'"
    using rs(1) s'_eq z(3) up(2) by (simp add: tier2_idle_def)
qed

interpretation tier2_watchdog: command_watchdog "tier2_cycle cfg res" "tier2_good cfg res"
  "tier2_input_ok cfg" tier2_silent tier2_caught_up "\<lambda>s. unat (cycles_since_command s)" 20 tier2_idle
  for cfg res
proof
  show "\<exists>s'. tier2_cycle cfg res i s = Some s' \<and> tier2_good cfg res s'"
    if "tier2_good cfg res s" "tier2_input_ok cfg i" for s i
    using tier2_cycle_good [OF that] by blast
qed (use tier2_silent_cycle in blast)+

section \<open>From boot\<close>

text \<open>What the board and the configuration must provide: travel limits and a step interval that the
  constants of the program can be computed to, and buffers that hold the two structs.\<close>

definition tier2_board :: "client_config \<Rightarrow> nat \<Rightarrow> int \<Rightarrow> int \<Rightarrow> bool" where
  "tier2_board cfg res limit k \<longleftrightarrow>
     stepper_limit_microsteps res = Some limit \<and> 0 \<le> limit \<and>
     kStepIntervalForMaxVelNs res = Some k \<and> k \<le> kMaxMicrostepIntervalNs \<and>
     32 \<le> max_state_buffer_size cfg \<and> max_state_buffer_size cfg \<le> 2 ^ 31 \<and>
     8 \<le> max_cmd_buffer_size cfg \<and> max_cmd_buffer_size cfg \<le> 2 ^ 31"

definition tier2_boot_ok :: "client_config \<Rightarrow> tier2_boot \<Rightarrow> bool" where
  "tier2_boot_ok cfg b \<longleftrightarrow> (\<forall>a \<in> set (b_attempts b). length (at_scratch a) = max_cmd_buffer_size cfg) \<and>
     (\<forall>p \<in> set (b_delivered b). length p < 2 ^ 32)"

lemma init_client_ready:
  assumes "32 \<le> max_state_buffer_size cfg" "max_state_buffer_size cfg \<le> 2 ^ 31"
    "8 \<le> max_cmd_buffer_size cfg" "max_cmd_buffer_size cfg \<le> 2 ^ 31"
  shows "init_client cfg tm as ret c t = Some (0, c', t') \<Longrightarrow> ret \<noteq> 0 \<Longrightarrow> client_wf cfg c \<Longrightarrow>
    \<not> initialized c \<Longrightarrow> \<forall>a \<in> set as. length (at_scratch a) = max_cmd_buffer_size cfg \<Longrightarrow>
    raw_client.ready 32 8 cfg () () c'"
proof (induction "as" arbitrary: ret c t)
  case Nil
  then show ?case by simp
next
  case (Cons a "as")
  have sizes: "unat (32 :: size_t) \<le> max_state_buffer_size cfg" "unat (8 :: size_t) \<le> max_cmd_buffer_size cfg"
    using assms by simp_all
  obtain r c1 t1 where i: "client_init raw_init (raw_payload_size 32) raw_init (raw_payload_size 8) cfg
      (at_init a) (at_publisher a) (at_subscriber a) (at_scratch a) 100 () () c t = Some (r, c1, t1)"
    "client_wf cfg c1" "initialized c1 \<longrightarrow> raw_client.ready 32 8 cfg () () c1"
    "initialized c1 \<longrightarrow> r = 0" "\<not> initialized c1 \<longrightarrow> r = - EIO"
    using raw_client.init_gets_ready [OF Cons.prems(3,4) TrueI TrueI assms(2,4) sizes,
        of "at_scratch a" "at_init a" "at_publisher a" "at_subscriber a" 100 "()" "()" t] Cons.prems(5)
    by auto
  have "EIO \<noteq> 0" by (simp add: EIO_def)
  then show ?case
    using Cons.prems(1,2,5) i Cons.IH [of r c1 t1]
    by (cases "initialized c1") (auto split: if_splits)
qed

lemma tier2_main_good:
  assumes main: "tier2_main cfg res b network j t = Some (Inr s, t')"
    and board: "tier2_board cfg res limit k" and boot: "tier2_boot_ok cfg b"
  shows "\<exists>p. b_position b = Inr p \<and> tier2_good cfg res s \<and> tier2_caught_up s \<and> asked s = [] \<and>
    stepper_min_position s = p - limit \<and> stepper_max_position s = p + limit \<and>
    stepper_angular_velocity s = 0 \<and> commanded_acceleration s = 0"
proof -
  obtain c0 c t1 p lo hi where h:
    "init_client cfg (b_init_timer b) (b_attempts b) (- 1) (new_client cfg j () ()) t = Some (0, c0, t1)"
    "b_position b = Inr p" "to_int32 (p - limit) = Some lo" "to_int32 (p + limit) = Some hi"
    "s = \<lparr>client2 = c, stepper_min_position = lo, stepper_max_position = hi,
                  stepper_angle = 0, stepper_angle_offset = microsteps_to_angle res p,
                  stepper_angular_velocity = 0, commanded_acceleration = 0, prev_stepper_angle = 0,
                  last_command_count = accepted_command_count c, cycles_since_command = 0,
                  last_state_time = b_state_time b, print_count = 0, loop_freq = 0,
                  led_ready = b_led b, led_toggle_counter = 0, is_flash_on = True,
                  pixel = if b_led b then RGB 0 0 255 else RGB 0 0 0, asked = []\<rparr>"
    "deliver_all cfg (b_delivered b) c0 = Some c"
    using main board
    by (auto simp: tier2_main_def tier2_board_def bind_Some_iff split: if_splits sum.splits)
  have "raw_client.ready 32 8 cfg () () c0"
    using board boot new_client_wf [of cfg j "()" "()"]
    by (intro init_client_ready [OF _ _ _ _ h(1)])
      (auto simp: tier2_board_def tier2_boot_ok_def new_client_def)
  from raw_client.deliver_all_ready [OF this, of "b_delivered b"] boot h(6)
  have "raw_client.ready 32 8 cfg () () c" by (auto simp: tier2_boot_ok_def)
  then show ?thesis
    using h board speed_ok_0
    by (auto simp: tier2_good_def driver_ok_def tier2_board_def tier2_caught_up_def
        accepted_command_count_def to_int32_def split: if_splits)
qed

lemma tier2_run_good:
  assumes "tier2_good cfg res s" "\<forall>i \<in> set is. tier2_input_ok cfg i"
  shows "\<exists>s'. run_cycles (tier2_cycle cfg res) is s = Some s' \<and> tier2_good cfg res s' \<and>
    stepper_min_position s' = stepper_min_position s \<and> stepper_max_position s' = stepper_max_position s"
  using assms
proof (induction "is" arbitrary: s)
  case Nil
  then show ?case by simp
next
  case (Cons i "is")
  obtain s1 where "tier2_cycle cfg res i s = Some s1" "tier2_good cfg res s1"
    "stepper_min_position s1 = stepper_min_position s" "stepper_max_position s1 = stepper_max_position s"
    using tier2_cycle_good [of cfg res s i] Cons.prems by auto
  with Cons.IH [of s1] Cons.prems show ?case by auto
qed

section \<open>Runs with a NaN\<close>

definition tier2_renewed :: "tier2_input \<Rightarrow> bool" where
  "tier2_renewed i \<longleftrightarrow> accepted 8 (in_delivered i) \<noteq> [] \<and>
     length (accepted 8 (in_delivered i)) < 2 ^ 32 \<and> accepted 8 (in_late i) = []"

lemma NaN_turn:
  assumes "tier2_good cfg res s" "tier2_input_ok cfg i" "tier2_caught_up s" "tier2_renewed i"
    and nan: "isnan (stepper_angular_velocity s) \<or> isnan (of_le64 (last (accepted 8 (in_delivered i))))"
  shows "\<exists>s'. tier2_cycle cfg res i s = Some s' \<and> tier2_good cfg res s' \<and> tier2_caught_up s' \<and>
    isnan (stepper_angular_velocity s') \<and> asked s' = asked s @ [[Stepper_Stop]]"
proof -
  obtain s' v rs where h: "tier2_cycle cfg res i s = Some s'"
    "commanded_acceleration s' = of_le64 (last (accepted 8 (in_delivered i @ in_late i)))"
    "v = f64_clamp (f64_add (stepper_angular_velocity s) (f64_mul (commanded_acceleration s') kControlPeriodSec))
      (f64_neg kMaxAngularVelocity) kMaxAngularVelocity"
    "stepper_angular_velocity s' = enforce_stepper_hard_stop (stepper_angle s') v"
    "set_stepper_angular_vel res (stepper_min_position s) (stepper_max_position s) (in_interval_ret i)
      (in_actual_position i) (stepper_angular_velocity s') = Some rs" "asked s' = asked s @ [rs]"
    "accepted 8 (in_late i) = [] \<longrightarrow> tier2_caught_up s'"
    using tier2_command_cycle [OF assms(1-3)] assms(4) unfolding tier2_renewed_def by blast
  have late: "accepted 8 (in_delivered i @ in_late i) = accepted 8 (in_delivered i)"
    using assms(4) by (simp add: accepted_def tier2_renewed_def)
  have "isnan (f64_add (stepper_angular_velocity s) (f64_mul (commanded_acceleration s') kControlPeriodSec))"
    using nan h(2) late by (auto simp: isnan_ops)
  then have "isnan v" unfolding h(3) by (simp add: f64_clamp_NaN)
  then have v: "isnan (stepper_angular_velocity s')"
    unfolding h(4) by (simp add: enforce_stepper_hard_stop_def)
  then have "\<not> isfinite (stepper_angular_velocity s')" using isfinite_not_NaN by blast
  then have "rs = [Stepper_Stop]" using h(5) by (simp add: set_stepper_angular_vel_def stop_stepper_def)
  moreover have "tier2_good cfg res s'" using tier2_cycle_good [OF assms(1,2)] h(1) by auto
  ultimately show ?thesis using h(1,6,7) v assms(4) by (auto simp: tier2_renewed_def)
qed

lemma NaN_run:
  "tier2_good cfg res s \<Longrightarrow> tier2_caught_up s \<Longrightarrow> isnan (stepper_angular_velocity s) \<Longrightarrow>
   \<forall>i \<in> set is. tier2_input_ok cfg i \<and> tier2_renewed i \<Longrightarrow>
   \<exists>s'. run_cycles (tier2_cycle cfg res) is s = Some s' \<and> isnan (stepper_angular_velocity s') \<and>
     asked s' = asked s @ replicate (length is) [Stepper_Stop]"
proof (induction "is" arbitrary: s)
  case Nil
  then show ?case by simp
next
  case (Cons i "is")
  obtain s1 where "tier2_cycle cfg res i s = Some s1" "tier2_good cfg res s1" "tier2_caught_up s1"
    "isnan (stepper_angular_velocity s1)" "asked s1 = asked s @ [[Stepper_Stop]]"
    using NaN_turn [OF Cons.prems(1) _ Cons.prems(2)] Cons.prems(3,4) by force
  with Cons.IH [of s1] Cons.prems(4) show ?case by auto
qed

section \<open>Bringing up the network\<close>

lemma connect_stored_returns:
  assumes w: "timely j d w" and j: "j < 2 ^ 30" "d < 2 ^ 30"
    and t: "t0 \<le> now s" "now s \<le> t0 + 15200 + j"
  shows "\<exists>b s'. connect_stored grants w i (k_uptime_get_32 t0) s = Some (b, s') \<and> now s \<le> now s' \<and>
    now s' \<le> t0 + 15200 + j + d"
  using t
proof (induction "t0 + 15200 + j - now s" arbitrary: s rule: less_induct)
  case less
  let ?s1 = "call w (Wifi_Connect_Stored i) s"
  have c: "now s \<le> now ?s1" "now ?s1 \<le> now s + d" using timely_call [OF w] by auto
  have e: "unat (k_uptime_get_32 (now ?s1) - k_uptime_get_32 t0) = now ?s1 - t0"
    by (rule uptime_elapsed) (use less.prems c j in auto)
  have k: "unat kWifiConnectTimeout = 15000" by (simp add: kWifiConnectTimeout_def)
  show ?case
  proof (cases "grants (now s) \<or> 15000 < now ?s1 - t0")
    case True
    then show ?thesis using less.prems c e k
      by (subst connect_stored.simps) (auto simp: word_less_nat_alt Let_def)
  next
    case False
    let ?s2 = "k_sleep w 200 ?s1"
    have z: "now ?s1 + 200 \<le> now ?s2" "now ?s2 \<le> now ?s1 + 200 + j" using timely_sleep [OF w] by auto
    have "t0 + 15200 + j - now ?s2 < t0 + 15200 + j - now s" "t0 \<le> now ?s2" "now ?s2 \<le> t0 + 15200 + j"
      using z False c less.prems by linarith+
    then obtain b s' where r: "connect_stored grants w i (k_uptime_get_32 t0) ?s2 = Some (b, s')"
      "now ?s2 \<le> now s'" "now s' \<le> t0 + 15200 + j + d"
      using less.hyps by blast
    have "connect_stored grants w i (k_uptime_get_32 t0) s = connect_stored grants w i (k_uptime_get_32 t0) ?s2"
      using False e k by (subst connect_stored.simps) (simp add: word_less_nat_alt Let_def)
    with r z c show ?thesis by auto
  qed
qed

lemma wait_ipv4_returns:
  assumes "timely j d w" "j < 2 ^ 30"
  shows "\<exists>b s'. wait_for seen w kIpv4AcquireTimeout 200 (k_uptime_get_32 (now s)) s = Some (b, s') \<and>
    (b \<longleftrightarrow> seen (now s')) \<and> now s \<le> now s' \<and> now s' \<le> now s + 30200 + j"
proof -
  have "unat kIpv4AcquireTimeout = 30000" by (simp add: kIpv4AcquireTimeout_def)
  then show ?thesis
    using wait_for_returns [OF assms(1), of 200 kIpv4AcquireTimeout "now s" s seen] assms(2) by auto
qed

lemma demo_init_wifi_returns:
  assumes w: "timely j d w" and j: "j < 2 ^ 30" "d < 2 ^ 30"
  shows "\<exists>r s'. demo_init_wifi grants w i s = Some (r, s') \<and> now s' \<le> now s + 45400 + 2 * j + 2 * d \<and>
    (r = 0 \<longrightarrow> (\<exists>t. now s \<le> t \<and> t \<le> now s' \<and> ipv4_preferred w i t))"
proof -
  obtain b s1 where c: "connect_stored grants w i (k_uptime_get_32 (now s)) s = Some (b, s1)"
    "now s \<le> now s1" "now s1 \<le> now s + 15200 + j + d"
    using connect_stored_returns [OF w j, of "now s" s grants i] by auto
  obtain up s2 where u: "wait_for (ipv4_preferred w i) w kIpv4AcquireTimeout 200
      (k_uptime_get_32 (now s1)) s1 = Some (up, s2)" "up \<longleftrightarrow> ipv4_preferred w i (now s2)"
    "now s1 \<le> now s2" "now s2 \<le> now s1 + 30200 + j"
    using wait_ipv4_returns [OF w j(1)] by blast
  have e: "now s2 \<le> now (call w Esp_Power_Save_None s2)" "now (call w Esp_Power_Save_None s2) \<le> now s2 + d"
    using timely_call [OF w] by auto
  have "\<exists>t. now s \<le> t \<and> t \<le> now (call w Esp_Power_Save_None s2) \<and> ipv4_preferred w i t" if up
    by (rule exI [of _ "now s2"]) (use that u c e in linarith)
  with c u e show ?thesis by (cases b; cases up) (auto simp: demo_init_wifi_def ETIMEDOUT_def)
qed

lemma demo_init_usb_cdc_returns:
  assumes w: "timely j d w" and j: "j < 2 ^ 30" "d < 2 ^ 30"
  shows "\<exists>r s'. demo_init_usb_cdc cfg device w i s = Some (r, s') \<and>
    now s' \<le> now s + 35450 + 2 * j + 3 * d \<and>
    (r = 0 \<longrightarrow> (\<exists>t. now s \<le> t \<and> t \<le> now s' \<and> ipv4_preferred w i t))"
proof -
  let ?b = "if \<not> usb_device_stack_next cfg then (0, s)
         else if \<not> device then (- ENODEV, s)
         else
           let s = call w Usbd_Enable s
           in if answer w Usbd_Enable \<noteq> 0 then (answer w Usbd_Enable, s)
              else (0, if net_config_settings cfg then call w Net_Config_Init_App s
                       else if net_dhcpv4 cfg then call w (Dhcpv4_Start i) s
                       else s)"
  obtain err s1 where b: "?b = (err, s1)" by (cases ?b)
  have t: "now s \<le> now s1" "now s1 \<le> now s + 2 * d"
  proof -
    have c: "now s \<le> now (call w x s)" "now (call w x s) \<le> now s + d"
      "now (call w x s) \<le> now (call w y (call w x s))"
      "now (call w y (call w x s)) \<le> now s + 2 * d" for x y
      using timely_call [OF w, where s = s and c = x] timely_call [OF w, where s = "call w x s" and c = y]
      by auto
    have c2: "now s \<le> now (call w y (call w x s))" "now (call w x s) \<le> now s + 2 * d" for x y
      using c(1) [where x = x] c(2) [where x = x] c(3) [where x = x and y = y] by linarith+
    show "now s \<le> now s1" "now s1 \<le> now s + 2 * d"
      using b c c2 by (auto simp: Let_def split: if_splits)
  qed
  obtain up s2 where u: "wait_for (ipv4_preferred w i) w kIpv4AcquireTimeout 200
      (k_uptime_get_32 (now s1)) s1 = Some (up, s2)" "up \<longleftrightarrow> ipv4_preferred w i (now s2)"
    "now s1 \<le> now s2" "now s2 \<le> now s1 + 30200 + j"
    using wait_ipv4_returns [OF w j(1)] by blast
  obtain s3 where d: "serve_dhcp cfg w i s2 = Some s3" "now s2 \<le> now s3" "now s3 \<le> now s2 + 5250 + j + d"
    using serve_dhcp_returns [OF w, of cfg i s2] j by auto
  have "demo_init_usb_cdc cfg device w i s =
    (if err \<noteq> 0 then Some (err, s1) else if \<not> up then Some (- ETIMEDOUT, s2) else Some (0, s3))"
    unfolding demo_init_usb_cdc_def Let_def [of ?b] b using u(1) d(1) by simp
  moreover have "\<exists>t. now s \<le> t \<and> t \<le> now s3 \<and> ipv4_preferred w i t" if up
    by (rule exI [of _ "now s2"]) (use that u t d in linarith)
  ultimately show ?thesis using t u d by (auto simp: ETIMEDOUT_def)
qed

section \<open>A sample boot\<close>

lemma stepper_limit_microsteps_32: "stepper_limit_microsteps 32 = Some 2400"
proof -
  have a: "dec 135 0 = 0x4060E00000000000" "dec 180 0 = 0x4066800000000000"
    "dec 2 0 = 0x4000000000000000"
    by (simp_all add: f64_eval dec_def)
  have b: "f64_mul 0x4060E00000000000 M_PI = 0x407A81D712DFE78F"
    "f64_mul 0x4000000000000000 M_PI = 0x401921FB54442D18"
    by (simp_all add: M_PI_def f64_mul_def f64_eval)
  have c: "f64_div 0x407A81D712DFE78F 0x4066800000000000 = 0x4002D97C7F3321D2"
    "f64_div 0x4002D97C7F3321D2 0x401921FB54442D18 = 0x3FD8000000000000"
    by (simp_all add: f64_div_def f64_eval)
  have d: "int_to_double (micro_steps_per_rev 32) = 0x40B9000000000000"
    by (simp add: micro_steps_per_rev_def motor_steps_per_rev_def f64_eval)
  have e: "f64_mul 0x3FD8000000000000 0x40B9000000000000 = 0x40A2C00000000000"
    by (simp add: f64_mul_def f64_eval)
  have f: "f64_lround 0x40A2C00000000000 = Some 2400"
    by (simp add: f64_lround_def of_f64_def fp_decode_def binary64_def emin_def Let_def)
  show ?thesis
    unfolding stepper_limit_microsteps_def kStepperAngleLimitRad_def two_pi_def a b c d e f
    by (simp add: to_int32_def)
qed

definition pendulum_up :: "(int \<times> (unit, unit) client \<times> client_transport) option" where
  "pendulum_up = client_init raw_init (raw_payload_size 32) raw_init (raw_payload_size 8) tier2_config
     sample_zenoh sample_zenoh sample_zenoh (replicate 96 0) 100 () ()
     (new_client tier2_config 1 () ()) fresh_transport"

lemma pendulum_up_returns: "case pendulum_up of None \<Rightarrow> False
  | Some (r, c, t) \<Rightarrow> r = 0 \<and> pub c = Some 0 \<and> p_in_use (pub_pool t ! 0)"
  by code_simp

definition sample_boot :: tier2_boot where
  "sample_boot = \<lparr>b_led = True, b_stepper_driver = True, b_stepper_ctrl = True, b_encoder = True,
     b_pendulum_ready = True, b_init_timer = 0,
     b_attempts = [\<lparr>at_ms = 0, at_init = sample_zenoh, at_publisher = sample_zenoh,
                    at_subscriber = sample_zenoh, at_scratch = replicate 96 0\<rparr>],
     b_enable_ret = 0, b_position = Inr 0, b_delivered = [], b_state_time = 0\<rparr>"

abbreviation sample_main :: "((int + tier2_state) \<times> client_transport) option" where
  "sample_main \<equiv> tier2_main tier2_config 32 sample_boot (Some (0, \<lparr>now = 0, requests = []\<rparr>)) 1 fresh_transport"

lemma sample_board: "tier2_board tier2_config 32 2400 140249"
  by (simp add: tier2_board_def stepper_limit_microsteps_32 kStepIntervalForMaxVelNs_32
      kMaxMicrostepIntervalNs_def tier2_config_def tier1_config_def)

lemma sample_boot_ok: "tier2_boot_ok tier2_config sample_boot"
  by (simp add: tier2_boot_ok_def sample_boot_def tier2_config_def tier1_config_def)

lemma sample_main_enters:
  "\<exists>s t. sample_main = Some (Inr s, t) \<and> pub (client2 s) = Some 0 \<and> p_in_use (pub_pool t ! 0)"
proof -
  obtain c t where "pendulum_up = Some (0, c, t)" and up: "pub c = Some 0" "p_in_use (pub_pool t ! 0)"
    using pendulum_up_returns by (auto split: option.splits)
  then have "init_client tier2_config 0 (b_attempts sample_boot) (- 1) (new_client tier2_config 1 () ())
      fresh_transport = Some (0, c, t)"
    by (simp add: sample_boot_def pendulum_up_def)
  moreover have "b_init_timer sample_boot = 0" "b_position sample_boot = Inr 0" "b_enable_ret sample_boot = 0"
    "b_stepper_driver sample_boot" "b_stepper_ctrl sample_boot" "b_encoder sample_boot"
    "b_pendulum_ready sample_boot" "b_delivered sample_boot = []"
    by (simp_all add: sample_boot_def)
  ultimately show ?thesis using up
    by (simp add: tier2_main_def stepper_limit_microsteps_32 to_int32_def)
qed

lemma sample_state:
  "\<exists>s t. sample_main = Some (Inr s, t) \<and> tier2_good tier2_config 32 s \<and> tier2_caught_up s \<and>
     pub (client2 s) = Some 0 \<and> p_in_use (pub_pool t ! 0)"
  using sample_main_enters tier2_main_good [OF _ sample_board sample_boot_ok] by blast

definition quiet_input :: tier2_input where
  "quiet_input = \<lparr>in_loop_start_ms = 0, in_position = Some 10, in_encoder = \<lparr>enc_angle = 0, enc_velocity = 0\<rparr>,
     in_state_time = 10, in_state_time_again = 10, in_delivered = [[1, 2, 3]], in_late = [],
     in_tmp = replicate 96 0, in_cmd_val = replicate 8 0, in_interval_ret = 0,
     in_actual_position = Some 10, in_loop_end_ms = 4, in_after_sleep_ms = 10\<rparr>"

definition command_input :: "f64 \<Rightarrow> tier2_input" where
  "command_input a = quiet_input\<lparr>in_delivered := [[1, 2, 3], le64 a]\<rparr>"

lemma sample_inputs:
  "tier2_input_ok tier2_config quiet_input" "tier2_silent quiet_input"
  "tier2_input_ok tier2_config (command_input a)" "tier2_renewed (command_input a)"
  "accepted 8 (in_delivered (command_input a)) = [le64 a]"
  "accepted 8 (in_delivered (command_input a) @ in_late (command_input a)) = [le64 a]"
  by (simp_all add: tier2_input_ok_def tier2_silent_def tier2_renewed_def quiet_input_def
      command_input_def accepted_def tier2_config_def tier1_config_def)

section \<open>Properties\<close>

text \<open>C6: from boot on, whatever the sensors, the driver, the clock and the network do, the control
  loop of the Tier 2 pendulum runs without undefined behaviour; every target it sends the stepper to
  is within 135 degrees (\<open>limit\<close> microsteps) of the position at boot, every step interval is between
  that of the maximal velocity and a second, and the velocity it holds is a NaN or within 7 rad/s.\<close>

theorem tier2_run_confined:
  assumes main: "tier2_main cfg res b network j t = Some (Inr s, t')"
    and board: "tier2_board cfg res limit k" and boot: "tier2_boot_ok cfg b"
    and "is": "\<forall>i \<in> set is. tier2_input_ok cfg i"
  shows "\<exists>p s'. b_position b = Inr p \<and> run_cycles (tier2_cycle cfg res) is s = Some s' \<and>
    speed_ok (stepper_angular_velocity s') \<and>
    (\<forall>rs \<in> set (asked s'). \<forall>r \<in> set rs. case r of
        Stepper_Stop \<Rightarrow> True
      | Set_Microstep_Interval ns \<Rightarrow> k \<le> ns \<and> ns \<le> kMaxMicrostepIntervalNs
      | Move_To q \<Rightarrow> \<bar>q - p\<bar> \<le> limit
      | Stepper_Run _ \<Rightarrow> False)"
proof -
  obtain p where p: "b_position b = Inr p" "tier2_good cfg res s" "stepper_min_position s = p - limit"
    "stepper_max_position s = p + limit"
    using tier2_main_good [OF main board boot] by blast
  obtain s' where s': "run_cycles (tier2_cycle cfg res) is s = Some s'" "tier2_good cfg res s'"
    "stepper_min_position s' = p - limit" "stepper_max_position s' = p + limit"
    using tier2_run_good [OF p(2) "is"] p(3,4) by auto
  have "\<forall>rs \<in> set (asked s'). list_all (confined k (p - limit) (p + limit)) rs"
    using s' board by (auto simp: tier2_good_def driver_ok_def tier2_board_def)
  then have "\<forall>rs \<in> set (asked s'). \<forall>r \<in> set rs. case r of
        Stepper_Stop \<Rightarrow> True
      | Set_Microstep_Interval ns \<Rightarrow> k \<le> ns \<and> ns \<le> kMaxMicrostepIntervalNs
      | Move_To q \<Rightarrow> \<bar>q - p\<bar> \<le> limit
      | Stepper_Run _ \<Rightarrow> False"
    by (fastforce simp: list_all_iff confined_def split: stepper_request.splits)
  then show ?thesis using p(1) s'(1,2) by (auto simp: tier2_good_def)
qed

theorem tier2_run_confined_witness:
  "\<exists>s t p s'. sample_main = Some (Inr s, t) \<and> b_position sample_boot = Inr p \<and>
    run_cycles (tier2_cycle tier2_config 32) [command_input (dec 3 0), quiet_input] s = Some s' \<and>
    speed_ok (stepper_angular_velocity s') \<and>
    (\<forall>rs \<in> set (asked s'). \<forall>r \<in> set rs. case r of
        Stepper_Stop \<Rightarrow> True
      | Set_Microstep_Interval ns \<Rightarrow> 140249 \<le> ns \<and> ns \<le> kMaxMicrostepIntervalNs
      | Move_To q \<Rightarrow> \<bar>q - p\<bar> \<le> 2400
      | Stepper_Run _ \<Rightarrow> False)"
proof -
  obtain s t where m: "sample_main = Some (Inr s, t)" using sample_main_enters by blast
  have i: "\<forall>i \<in> set [command_input (dec 3 0), quiet_input]. tier2_input_ok tier2_config i"
    using sample_inputs by simp
  show ?thesis using tier2_run_confined [OF m sample_board sample_boot_ok i] m by blast
qed

text \<open>C13: a link that goes silent stops the pendulum. From boot on, after any run, 22 turns in which
  no payload of the size of a command arrives (others may) end with nothing but a stop request to
  the driver: one turn to notice the last command, the 20 turns of \<open>kCommandTimeoutMs\<close>, and the one
  that stops.\<close>

theorem tier2_silence_stops_motor:
  assumes main: "tier2_main cfg res b network j t = Some (Inr s, t')"
    and board: "tier2_board cfg res limit k" and boot: "tier2_boot_ok cfg b"
    and "is": "\<forall>i \<in> set (before @ silence). tier2_input_ok cfg i"
    and silence: "\<forall>i \<in> set silence. tier2_silent i" "22 \<le> length silence"
  shows "\<exists>s'. run_cycles (tier2_cycle cfg res) (before @ silence) s = Some s' \<and>
    last (asked s') = [Stepper_Stop]"
proof -
  have "tier2_good cfg res s" using tier2_main_good [OF main board boot] by blast
  then obtain s1 where s1: "run_cycles (tier2_cycle cfg res) before s = Some s1" "tier2_good cfg res s1"
    using tier2_run_good [of cfg res s before] "is" by auto
  obtain s' where "run_cycles (tier2_cycle cfg res) silence s1 = Some s'" "tier2_idle s'"
    using tier2_watchdog.silence_stops [OF s1(2), of silence] "is" silence
    by (auto simp: list_all_iff)
  with s1(1) show ?thesis by (auto simp: run_cycles_append tier2_idle_def)
qed

theorem tier2_silence_stops_motor_witness:
  "\<exists>s t s'. sample_main = Some (Inr s, t) \<and>
    run_cycles (tier2_cycle tier2_config 32) ([command_input (dec 3 0)] @ replicate 22 quiet_input) s = Some s' \<and>
    last (asked s') = [Stepper_Stop]"
proof -
  obtain s t where m: "sample_main = Some (Inr s, t)" using sample_main_enters by blast
  have i: "\<forall>i \<in> set ([command_input (dec 3 0)] @ replicate 22 quiet_input). tier2_input_ok tier2_config i"
    "\<forall>i \<in> set (replicate 22 quiet_input). tier2_silent i" "22 \<le> length (replicate 22 quiet_input)"
    using sample_inputs by simp_all
  show ?thesis using tier2_silence_stops_motor [OF m sample_board sample_boot_ok i] m by blast
qed

text \<open>C14: a turn publishes what it measured: the next publication of the control thread carries the
  stepper angle relative to the one at boot (the last known one when the driver cannot tell it), the
  difference to the angle of the previous turn over the time since then (0 when the clock did not
  advance), and the angle and velocity of the pendulum, as the four doubles of the state struct; and
  the angle and the time are kept for the next turn.\<close>

theorem tier2_publishes_measurement:
  assumes good: "tier2_good cfg res s" and i: "tier2_input_ok cfg i"
    and tmp: "length tmp = max_state_buffer_size cfg"
  shows "\<exists>s'. tier2_cycle cfg res i s = Some s' \<and>
    (let a = (case in_position i of None \<Rightarrow> stepper_angle s
                | Some p \<Rightarrow> f64_sub (microsteps_to_angle res p) (stepper_angle_offset s));
         dt = f64_div (int_to_double (uint (in_state_time i - last_state_time s))) (dec 1000 0);
         v = (if f64_lt 0 dt then f64_div (f64_sub a (prev_stepper_angle s)) dt else 0)
     in stepper_angle s' = a \<and> prev_stepper_angle s' = a \<and>
       last_state_time s' = in_state_time_again i \<and> stepper_angle_offset s' = stepper_angle_offset s \<and>
       zenoh_publish_state cfg z tmp (client2 s') t =
         Some (zenbedded_transport_publish (transport_cfg cfg) z (pub (client2 s))
           (le64s [a, v, enc_angle (in_encoder i), enc_velocity (in_encoder i)]) t))"
proof -
  define a where "a = (case in_position i of None \<Rightarrow> stepper_angle s
                | Some p \<Rightarrow> f64_sub (microsteps_to_angle res p) (stepper_angle_offset s))"
  define dt where "dt = f64_div (int_to_double (uint (in_state_time i - last_state_time s))) (dec 1000 0)"
  define v where "v = (if f64_lt 0 dt then f64_div (f64_sub a (prev_stepper_angle s)) dt else 0)"
  have r: "read_stepper res i s = s\<lparr>stepper_angle := a\<rparr>"
    by (simp add: read_stepper_def a_def split: option.split)
  have "motor_joint_velocity i (s\<lparr>stepper_angle := a\<rparr>) = v"
    by (simp add: motor_joint_velocity_def v_def dt_def)
  with tier2_cycle_publishes [OF assms, of z t]
  show ?thesis
    unfolding a_def [symmetric] dt_def [symmetric] v_def [symmetric] Let_def
    by (simp add: sense_def state_val_def r measured_def Let_def)
qed

theorem tier2_publishes_measurement_witness:
  "\<exists>s t s'. sample_main = Some (Inr s, t) \<and> tier2_cycle tier2_config 32 quiet_input s = Some s' \<and>
    last_state_time s' = in_state_time_again quiet_input \<and> prev_stepper_angle s' = stepper_angle s'"
proof -
  obtain s t where m: "sample_main = Some (Inr s, t)" "tier2_good tier2_config 32 s"
    using sample_state by blast
  have "length (replicate 128 0 :: bytes) = max_state_buffer_size tier2_config"
    by (simp add: tier2_config_def tier1_config_def)
  from tier2_publishes_measurement [OF m(2) sample_inputs(1) this, of sample_zenoh t] m(1)
  show ?thesis by (auto simp: Let_def)
qed

text \<open>C15: a turn in which commands arrived integrates the newest one: the velocity becomes
  \<open>clamp(v + a * 10 ms, -7, 7)\<close>, zeroed at a travel limit it points past, the timeout starts again,
  and exactly one list of requests goes to the driver, the one for that velocity.\<close>

theorem tier2_integrates_newest_command:
  assumes good: "tier2_good cfg res s" and i: "tier2_input_ok cfg i" and up: "tier2_caught_up s"
    and new: "accepted 8 (in_delivered i) \<noteq> []" "length (accepted 8 (in_delivered i)) < 2 ^ 32"
    and a: "last (accepted 8 (in_delivered i @ in_late i)) = le64 a"
  shows "\<exists>s' rs. tier2_cycle cfg res i s = Some s' \<and> cycles_since_command s' = 0 \<and>
    commanded_acceleration s' = a \<and>
    stepper_angular_velocity s' = enforce_stepper_hard_stop (stepper_angle s')
      (f64_clamp (f64_add (stepper_angular_velocity s) (f64_mul a kControlPeriodSec))
        (f64_neg kMaxAngularVelocity) kMaxAngularVelocity) \<and>
    set_stepper_angular_vel res (stepper_min_position s) (stepper_max_position s) (in_interval_ret i)
      (in_actual_position i) (stepper_angular_velocity s') = Some rs \<and> asked s' = asked s @ [rs]"
  using tier2_command_cycle [OF good i up new] a by auto

theorem tier2_integrates_newest_command_witness:
  "\<exists>s t s'. sample_main = Some (Inr s, t) \<and> tier2_cycle tier2_config 32 (command_input (dec 3 0)) s = Some s' \<and>
    cycles_since_command s' = 0 \<and> commanded_acceleration s' = dec 3 0"
proof -
  obtain s t where m: "sample_main = Some (Inr s, t)" "tier2_good tier2_config 32 s" "tier2_caught_up s"
    using sample_state by blast
  have "accepted 8 (in_delivered (command_input (dec 3 0))) \<noteq> []"
    "length (accepted 8 (in_delivered (command_input (dec 3 0)))) < 2 ^ 32"
    "last (accepted 8 (in_delivered (command_input (dec 3 0)) @ in_late (command_input (dec 3 0)))) = le64 (dec 3 0)"
    using sample_inputs by simp_all
  from tier2_integrates_newest_command [OF m(2) sample_inputs(3) m(3) this] m(1)
  show ?thesis by blast
qed

text \<open>C38: a NaN acceleration is not forgotten. Once a turn has taken a command that is a NaN, the velocity
  is a NaN, and as long as further commands keep arriving in every turn, whatever they ask for, it
  stays one and the stepper is told to stop in every turn; only the timeout clears it.\<close>

theorem tier2_NaN_command_latches:
  assumes "tier2_good cfg res s" "tier2_caught_up s"
    and "is": "\<forall>i \<in> set (first # is). tier2_input_ok cfg i \<and> tier2_renewed i"
    and a: "last (accepted 8 (in_delivered first)) = le64 a" "isnan a"
  shows "\<exists>s'. run_cycles (tier2_cycle cfg res) (first # is) s = Some s' \<and>
    isnan (stepper_angular_velocity s') \<and>
    asked s' = asked s @ replicate (Suc (length is)) [Stepper_Stop]"
proof -
  obtain s1 where "tier2_cycle cfg res first s = Some s1" "tier2_good cfg res s1" "tier2_caught_up s1"
    "isnan (stepper_angular_velocity s1)" "asked s1 = asked s @ [[Stepper_Stop]]"
    using NaN_turn [OF assms(1) _ assms(2), of first] "is" a by auto
  with NaN_run [of cfg res s1 "is"] "is" show ?thesis by auto
qed

theorem tier2_NaN_command_latches_witness:
  "\<exists>s t s'. sample_main = Some (Inr s, t) \<and>
    run_cycles (tier2_cycle tier2_config 32) [command_input 0x7FF8000000000000, command_input (dec 3 0)] s = Some s' \<and>
    isnan (stepper_angular_velocity s') \<and> asked s' = asked s @ [[Stepper_Stop], [Stepper_Stop]]"
proof -
  obtain s t where m: "sample_main = Some (Inr s, t)" "tier2_good tier2_config 32 s" "tier2_caught_up s"
    using sample_state by blast
  have "isnan 0x7FF8000000000000"
    by (simp add: isnan_def of_f64_def fp_decode_def binary64_def Let_def)
  from tier2_NaN_command_latches [OF m(2,3), of "command_input 0x7FF8000000000000" "[command_input (dec 3 0)]"
      "0x7FF8000000000000"] this m(1) show ?thesis
    using sample_inputs by auto
qed

text \<open>C34: the network bring-up of the Tier 2 demo returns within 45.4 s plus the latencies of the
  scheduler (\<open>j\<close> per sleep) and of the requests (\<open>d\<close> each), in each of its three variants, whatever
  the interfaces do and across the wrap of the uptime; and when it reports success over Wi-Fi or USB,
  the interface was seen with a preferred IPv4 address.\<close>

theorem demo_init_network_terminates:
  assumes "timely j d w" and "j < 2 ^ 30" and "d < 2 ^ 30"
  shows "\<exists>r s'. demo_init_network c cfg grants device w i s = Some (r, s') \<and>
    now s' \<le> now s + 45400 + 2 * j + 3 * d \<and>
    (r = 0 \<and> c \<noteq> Comm_Other \<longrightarrow> (\<exists>t. now s \<le> t \<and> t \<le> now s' \<and> ipv4_preferred w i t))"
proof (cases c)
  case Comm_Wifi
  then show ?thesis
    using demo_init_wifi_returns [OF assms, of grants i s] by (fastforce simp: demo_init_network_def)
next
  case Comm_Usb_Cdc
  then show ?thesis
    using demo_init_usb_cdc_returns [OF assms, of cfg device i s] by (fastforce simp: demo_init_network_def)
qed (simp add: demo_init_network_def)

theorem demo_init_network_terminates_witness:
  "\<exists>r s'. demo_init_network Comm_Wifi dual_config (\<lambda>t. False) True quick_world (Some 1)
      \<lparr>now = 4294967000, requests = []\<rparr> = Some (r, s') \<and> now s' \<le> 4294967000 + 45403"
  using demo_init_network_terminates [OF quick_world_timely, of Comm_Wifi dual_config "\<lambda>t. False" True
      "Some 1" "\<lparr>now = 4294967000, requests = []\<rparr>"] by fastforce

end
