(* ===== verification/Pendulum_Tier1_Properties.thy ===== *)
theory Pendulum_Tier1_Properties
  imports Pendulum_Tier1 Pendulum_Tier2_Properties
begin

text \<open>
  What the Tier 1 pendulum firmware guarantees over every run of its control loop: no undefined
  behaviour, step intervals the driver can keep, the watchdog, and what it publishes. The client is
  the one of \<open>position_client\<close>, the watchdog an instance of \<open>command_watchdog\<close>.
\<close>

section \<open>Requests to the driver\<close>

definition free_running :: "stepper_request list \<Rightarrow> bool" where
  "free_running rs \<longleftrightarrow>
     rs = [Stepper_Stop] \<or>
     (\<exists>ns. tier1_kMinMicrostepIntervalNs \<le> ns \<and> ns \<le> kMaxMicrostepIntervalNs \<and>
        (rs = [Set_Microstep_Interval ns] \<or> (\<exists>d. rs = [Set_Microstep_Interval ns, Stepper_Run d])))"

lemma tier1_set_stepper_returns:
  "\<exists>rs. tier1_set_stepper_angular_vel res interval_ret v = Some rs \<and> free_running rs \<and>
     (f64_eq v 0 \<longrightarrow> rs = [Stepper_Stop])"
proof (cases "(\<not> isfinite v \<or> f64_eq v 0) \<or>
    interval_out_of_range tier1_kMinMicrostepIntervalNs (f64_div (dec 1000000000 0) (microsteps_per_sec res v))")
  case True
  then show ?thesis
    by (auto simp: tier1_set_stepper_angular_vel_def stop_stepper_def free_running_def Let_def)
next
  case False
  let ?i = "f64_div (dec 1000000000 0) (microsteps_per_sec res v)"
  have nan: "\<not> isnan ?i" using False interval_accepted_not_NaN by blast
  have b: "\<bar>tier1_kMinMicrostepIntervalNs\<bar> < 2 ^ 53" "\<bar>kMaxMicrostepIntervalNs\<bar> < 2 ^ 53"
    by (simp_all add: tier1_kMinMicrostepIntervalNs_def kMaxMicrostepIntervalNs_def)
  have "f64_le (int_to_double tier1_kMinMicrostepIntervalNs) ?i" "f64_le ?i (int_to_double kMaxMicrostepIntervalNs)"
    using False nan isfinite_not_NaN [OF int_to_double_finite [OF b(1)]]
      isfinite_not_NaN [OF int_to_double_finite [OF b(2)]]
    by (auto simp: interval_out_of_range_def f64_le_def f64_lt_def)
  from double_to_int_between [OF b this, of 0 "2 ^ 64 - 1"]
  obtain ns where ns: "to_uint64 ?i = Some ns" "tier1_kMinMicrostepIntervalNs \<le> ns" "ns \<le> kMaxMicrostepIntervalNs"
    by (auto simp: to_uint64_def tier1_kMinMicrostepIntervalNs_def kMaxMicrostepIntervalNs_def)
  have "tier1_set_stepper_angular_vel res interval_ret v =
      Some (if interval_ret \<noteq> 0 then [Set_Microstep_Interval ns]
            else [Set_Microstep_Interval ns, Stepper_Run (f64_lt 0 v)])"
    using False ns(1) by (simp add: tier1_set_stepper_angular_vel_def Let_def)
  with False ns(2,3) show ?thesis by (auto simp: free_running_def)
qed

section \<open>A turn\<close>

abbreviation command_bytes :: nat where "command_bytes \<equiv> jc_bytes tier1_command_params"

abbreviation tier1_ready ::
  "client_config \<Rightarrow> (zcdr_joint_state_ctx_t, zcdr_joint_command_ctx_t) client \<Rightarrow> bool" where
  "tier1_ready cfg \<equiv> position_client.ready cfg tier1_state_params tier1_command_params"

definition tier1_input_ok :: "client_config \<Rightarrow> tier1_input \<Rightarrow> bool" where
  "tier1_input_ok cfg i \<longleftrightarrow>
     (\<forall>b \<in> set (t1_delivered i) \<union> set (t1_late i). length b < 2 ^ 32) \<and>
     length (t1_tmp i) = max_cmd_buffer_size cfg \<and> length (t1_cmd i) = 2"

definition tier1_silent :: "tier1_input \<Rightarrow> bool" where
  "tier1_silent i \<longleftrightarrow> (\<forall>b \<in> set (t1_delivered i) \<union> set (t1_late i). length b \<noteq> command_bytes)"

definition tier1_caught_up :: "tier1_state \<Rightarrow> bool" where
  "tier1_caught_up s \<longleftrightarrow> t1_last_command_count s = cmd_accepted_count (client1 s)"

definition tier1_idle :: "tier1_state \<Rightarrow> bool" where
  "tier1_idle s \<longleftrightarrow> t1_asked s \<noteq> [] \<and> last (t1_asked s) = [Stepper_Stop]"

definition tier1_good :: "client_config \<Rightarrow> tier1_state \<Rightarrow> bool" where
  "tier1_good cfg s \<longleftrightarrow> tier1_ready cfg (client1 s) \<and> list_all free_running (t1_asked s)"

lemma tier1_value_complete: "only_positions tier1_state_params (tier1_state_val i s)"
  by (simp add: only_positions_def tier1_state_val_def tier1_state_params_def)

lemma tier1_out_room:
  "length ds = 2 \<Longrightarrow> jc_room tier1_command_params \<lparr>cmd_stamp_sec = a, cmd_stamp_nanosec = b, cmd_values = Some ds\<rparr>"
  by (simp add: jc_room_def tier1_command_params_def)

lemma tier1_room_values:
  "jc_room tier1_command_params w \<Longrightarrow> \<exists>v x. cmd_values w = Some [v, x]"
proof -
  assume "jc_room tier1_command_params w"
  then obtain ds where "cmd_values w = Some ds" "length ds = 2"
    by (auto simp: jc_room_def tier1_command_params_def)
  then show ?thesis by (cases ds; cases "tl ds") auto
qed

lemma tier1_sense_keeps [simp]:
  "client1 (tier1_sense res i s) = client1 s" "t1_asked (tier1_sense res i s) = t1_asked s"
  "t1_velocity (tier1_sense res i s) = t1_velocity s"
  "t1_last_command_count (tier1_sense res i s) = t1_last_command_count s"
  "t1_cycles_since_command (tier1_sense res i s) = t1_cycles_since_command s"
  by (simp_all add: tier1_sense_def Let_def split: option.split)

text \<open>The command phase: the newest command if there is one, else a count, else a stop.\<close>

lemma tier1_follow_command_returns:
  assumes "tier1_ready cfg (client1 s)" "tier1_input_ok cfg i"
  shows "\<exists>s'. tier1_follow_command cfg i s = Some s' \<and> tier1_ready cfg (client1 s') \<and>
    t1_asked s' = t1_asked s \<and> t1_last_command_count s' = cmd_accepted_count (client1 s) \<and>
    (if cmd_accepted_count (client1 s) \<noteq> t1_last_command_count s then
       deliver_all cfg (t1_late i) (client1 s) = Some (client1 s') \<and>
       cmd_accepted_count (client1 s') =
         cmd_accepted_count (client1 s) + word_of_nat (length (accepted command_bytes (t1_late i)))
     else client1 s' = client1 s \<and>
       (if unat (t1_cycles_since_command s) < 20
        then unat (t1_cycles_since_command s') = Suc (unat (t1_cycles_since_command s))
        else t1_cycles_since_command s' = t1_cycles_since_command s \<and> f64_eq (t1_velocity s') 0))"
proof (cases "cmd_accepted_count (client1 s) \<noteq> t1_last_command_count s")
  case True
  obtain c where c: "deliver_all cfg (t1_late i) (client1 s) = Some c" "tier1_ready cfg c"
    "cmd_accepted_count c =
      cmd_accepted_count (client1 s) + word_of_nat (length (accepted command_bytes (t1_late i)))"
    using position_client.deliver_all_ready [OF assms(1), of "t1_late i"] assms(2)
    by (auto simp: tier1_input_ok_def)
  have room: "jc_room tier1_command_params
      \<lparr>cmd_stamp_sec = 0, cmd_stamp_nanosec = 0, cmd_values = Some (t1_cmd i)\<rparr>"
    using assms(2) by (intro tier1_out_room) (simp add: tier1_input_ok_def)
  have "length (t1_tmp i) = max_cmd_buffer_size cfg" using assms(2) by (simp add: tier1_input_ok_def)
  from position_client.read_command_total [OF c(2) room this] obtain w where
    w: "read_command joint_command_read cfg (t1_tmp i) c
      \<lparr>cmd_stamp_sec = 0, cmd_stamp_nanosec = 0, cmd_values = Some (t1_cmd i)\<rparr> = Some (True, w)"
    "jc_room tier1_command_params w" by blast
  obtain v x where "cmd_values w = Some [v, x]" using tier1_room_values [OF w(2)] by blast
  with True c w(1) show ?thesis
    by (simp add: tier1_follow_command_def accepted_command_count_def Let_def)
next
  case False
  have z: "f64_eq 0 0" by (simp add: f64_eq_zero)
  have k: "unat tier1_kCommandTimeoutCycles = 20"
    by (simp add: tier1_kCommandTimeoutCycles_def tier1_kCommandTimeoutMs_def tier1_kControlPeriodMs_def)
  have inc: "unat (t1_cycles_since_command s + 1) = Suc (unat (t1_cycles_since_command s))"
    if "unat (t1_cycles_since_command s) < 20"
    using that by (simp add: unat_word_ariths)
  show ?thesis using False assms(1) z inc
    by (auto simp: tier1_follow_command_def accepted_command_count_def Let_def word_less_nat_alt k f64_ne_def)
qed

lemma tier1_cycle_phases:
  assumes good: "tier1_good cfg s" and i: "tier1_input_ok cfg i"
  shows "\<exists>c0 c s1 rs. write_state joint_state_write (tier1_state_val i (tier1_sense res i s)) (client1 s) = Some c0 \<and>
    tier1_ready cfg c0 \<and> deliver_all cfg (t1_delivered i) c0 = Some c \<and> tier1_ready cfg c \<and>
    cmd_accepted_count c0 = cmd_accepted_count (client1 s) \<and>
    cmd_accepted_count c =
      cmd_accepted_count (client1 s) + word_of_nat (length (accepted command_bytes (t1_delivered i))) \<and>
    tier1_follow_command cfg i ((tier1_sense res i s)\<lparr>client1 := c\<rparr>) = Some s1 \<and>
    tier1_ready cfg (client1 s1) \<and> t1_asked s1 = t1_asked s \<and>
    tier1_set_stepper_angular_vel res (t1_interval_ret i) (t1_velocity s1) = Some rs \<and> free_running rs \<and>
    (f64_eq (t1_velocity s1) 0 \<longrightarrow> rs = [Stepper_Stop]) \<and>
    tier1_cycle cfg res i s = Some (s1\<lparr>t1_asked := t1_asked s @ [rs]\<rparr>)"
proof -
  let ?s0 = "tier1_sense res i s"
  have ready: "tier1_ready cfg (client1 s)" using good by (simp add: tier1_good_def)
  obtain c0 where c0: "write_state joint_state_write (tier1_state_val i ?s0) (client1 s) = Some c0"
    "tier1_ready cfg c0"
    using position_client.write_state_ready [OF ready tier1_value_complete] by blast
  have small: "\<forall>b \<in> set (t1_delivered i). length b < 2 ^ 32" using i by (simp add: tier1_input_ok_def)
  obtain c where c: "deliver_all cfg (t1_delivered i) c0 = Some c" "tier1_ready cfg c"
    "cmd_accepted_count c = cmd_accepted_count c0 + word_of_nat (length (accepted command_bytes (t1_delivered i)))"
    using position_client.deliver_all_ready [OF c0(2) small] by blast
  have n: "cmd_accepted_count c0 = cmd_accepted_count (client1 s)" using write_state_keeps [OF c0(1)] by simp
  have "tier1_ready cfg (client1 (?s0\<lparr>client1 := c\<rparr>))" using c(2) by simp
  from tier1_follow_command_returns [OF this i] obtain s1 where
    s1: "tier1_follow_command cfg i (?s0\<lparr>client1 := c\<rparr>) = Some s1" "tier1_ready cfg (client1 s1)"
    "t1_asked s1 = t1_asked s" by auto
  obtain rs where rs: "tier1_set_stepper_angular_vel res (t1_interval_ret i) (t1_velocity s1) = Some rs"
    "free_running rs" "f64_eq (t1_velocity s1) 0 \<longrightarrow> rs = [Stepper_Stop]"
    using tier1_set_stepper_returns by blast
  have "tier1_cycle cfg res i s = Some (s1\<lparr>t1_asked := t1_asked s @ [rs]\<rparr>)"
    using c0(1) c(1) s1(1,3) rs(1) by (simp add: tier1_cycle_def Let_def)
  with c0 c n s1 rs show ?thesis by auto
qed

lemma tier1_cycle_good:
  assumes "tier1_good cfg s" "tier1_input_ok cfg i"
  shows "\<exists>s'. tier1_cycle cfg res i s = Some s' \<and> tier1_good cfg s'"
proof -
  obtain s1 rs where "tier1_ready cfg (client1 s1)" "free_running rs"
    "tier1_cycle cfg res i s = Some (s1\<lparr>t1_asked := t1_asked s @ [rs]\<rparr>)"
    using tier1_cycle_phases [OF assms, of res] by (elim exE conjE) (rule that)
  then show ?thesis using assms(1) by (simp add: tier1_good_def)
qed

lemma tier1_silent_cycle:
  assumes good: "tier1_good cfg s" and i: "tier1_input_ok cfg i" "tier1_silent i"
    and s': "tier1_cycle cfg res i s = Some s'"
  shows "tier1_caught_up s'"
    and "tier1_caught_up s \<Longrightarrow> unat (t1_cycles_since_command s) < 20 \<Longrightarrow>
      unat (t1_cycles_since_command s') = Suc (unat (t1_cycles_since_command s))"
    and "tier1_caught_up s \<Longrightarrow> 20 \<le> unat (t1_cycles_since_command s) \<Longrightarrow>
      20 \<le> unat (t1_cycles_since_command s') \<and> tier1_idle s'"
proof -
  let ?s0 = "tier1_sense res i s"
  obtain c s1 rs where h: "tier1_ready cfg c"
    "cmd_accepted_count c =
      cmd_accepted_count (client1 s) + word_of_nat (length (accepted command_bytes (t1_delivered i)))"
    "tier1_follow_command cfg i (?s0\<lparr>client1 := c\<rparr>) = Some s1" "f64_eq (t1_velocity s1) 0 \<longrightarrow> rs = [Stepper_Stop]"
    "tier1_cycle cfg res i s = Some (s1\<lparr>t1_asked := t1_asked s @ [rs]\<rparr>)"
    using tier1_cycle_phases [OF good i(1), of res] by (elim exE conjE) (rule that)
  have quiet: "accepted command_bytes (t1_delivered i) = []" "accepted command_bytes (t1_late i) = []"
    using i(2) by (auto simp: tier1_silent_def intro!: not_accepted)
  have count: "cmd_accepted_count c = cmd_accepted_count (client1 s)" using h(2) quiet by simp
  have "tier1_ready cfg (client1 (?s0\<lparr>client1 := c\<rparr>))" using h(1) by simp
  note f = tier1_follow_command_returns [OF this i(1)]
  have eq: "s' = s1\<lparr>t1_asked := t1_asked s @ [rs]\<rparr>" using h(5) s' by simp
  show "tier1_caught_up s'"
    using f h(3) quiet count eq by (auto simp: tier1_caught_up_def split: if_splits)
  show "unat (t1_cycles_since_command s') = Suc (unat (t1_cycles_since_command s))"
    if "tier1_caught_up s" "unat (t1_cycles_since_command s) < 20"
    using f h(3) that count eq by (auto simp: tier1_caught_up_def split: if_splits)
  assume up: "tier1_caught_up s" "20 \<le> unat (t1_cycles_since_command s)"
  have "f64_eq (t1_velocity s1) 0" "t1_cycles_since_command s1 = t1_cycles_since_command s"
    using f h(3) up count by (auto simp: tier1_caught_up_def split: if_splits)
  then show "20 \<le> unat (t1_cycles_since_command s') \<and> tier1_idle s'"
    using h(4) eq up(2) by (simp add: tier1_idle_def)
qed

interpretation tier1_watchdog: command_watchdog "tier1_cycle cfg res" "tier1_good cfg"
  "tier1_input_ok cfg" tier1_silent tier1_caught_up "\<lambda>s. unat (t1_cycles_since_command s)" 20 tier1_idle
  for cfg res
proof
  show "\<exists>s'. tier1_cycle cfg res i s = Some s' \<and> tier1_good cfg s'"
    if "tier1_good cfg s" "tier1_input_ok cfg i" for s i
    by (rule tier1_cycle_good [OF that])
qed (use tier1_silent_cycle in blast)+

section \<open>From boot\<close>

definition tier1_board :: "client_config \<Rightarrow> bool" where
  "tier1_board cfg \<longleftrightarrow>
     js_bytes tier1_state_params \<le> max_state_buffer_size cfg \<and> max_state_buffer_size cfg \<le> 2 ^ 31 \<and>
     command_bytes \<le> max_cmd_buffer_size cfg \<and> max_cmd_buffer_size cfg \<le> 2 ^ 31"

definition tier1_boot_ok :: "client_config \<Rightarrow> tier1_boot \<Rightarrow> bool" where
  "tier1_boot_ok cfg b \<longleftrightarrow> length (t1b_scratch b) = max_cmd_buffer_size cfg \<and>
     (\<forall>p \<in> set (t1b_delivered b). length p < 2 ^ 32)"

lemma tier1_params_ok: "js_params_ok tier1_state_params" "jc_params_ok tier1_command_params"
  by (simp_all add: js_params_ok_def jc_params_ok_def tier1_state_params_def tier1_command_params_def)

lemma tier1_main_good:
  assumes main: "tier1_main cfg res b network (new_client cfg j x y) t = Some (Inr s, t')"
    and board: "tier1_board cfg" and boot: "tier1_boot_ok cfg b"
  shows "tier1_good cfg s \<and> tier1_caught_up s \<and> t1_asked s = []"
proof -
  let ?init = "client_init joint_state_init joint_state_payload_size joint_command_init
      joint_command_payload_size cfg (t1b_init b) (t1b_publisher b) (t1b_subscriber b) (t1b_scratch b)
      50 tier1_state_params tier1_command_params (new_client cfg j x y) t"
  obtain c0 c t1 where h: "?init = Some (0, c0, t1)" "deliver_all cfg (t1b_delivered b) c0 = Some c"
    "client1 s = c" "t1_last_command_count s = accepted_command_count c" "t1_asked s = []"
    using main by (auto simp: tier1_main_def bind_Some_iff split: if_splits sum.splits option.splits)
  have fresh: "client_wf cfg (new_client cfg j x y)" "\<not> initialized (new_client cfg j x y)"
    by (simp_all add: new_client_wf) (simp add: new_client_def)
  have sizes: "max_state_buffer_size cfg \<le> 2 ^ 31" "max_cmd_buffer_size cfg \<le> 2 ^ 31"
    "js_bytes tier1_state_params \<le> max_state_buffer_size cfg"
    "command_bytes \<le> max_cmd_buffer_size cfg" "length (t1b_scratch b) = max_cmd_buffer_size cfg"
    using board boot by (simp_all add: tier1_board_def tier1_boot_ok_def)
  have "EIO \<noteq> 0" by (simp add: EIO_def)
  then have "tier1_ready cfg c0"
    using position_client.init_gets_ready [OF fresh tier1_params_ok sizes, of "t1b_init b" "t1b_publisher b"
        "t1b_subscriber b" 50 t] h(1) by auto
  from position_client.deliver_all_ready [OF this, of "t1b_delivered b"] boot h(2)
  have "tier1_ready cfg c" by (auto simp: tier1_boot_ok_def)
  then show ?thesis using h by (simp add: tier1_good_def tier1_caught_up_def accepted_command_count_def)
qed

lemma tier1_publish:
  assumes good: "tier1_good cfg s" and i: "tier1_input_ok cfg i"
    and tmp: "length tmp = max_state_buffer_size cfg"
  shows "\<exists>s'. tier1_cycle cfg res i s = Some s' \<and>
    zenoh_publish_state cfg z tmp (client1 s') t =
      Some (zenbedded_transport_publish (transport_cfg cfg) z (pub (client1 s))
        (js_wire tier1_state_params (tier1_state_val i (tier1_sense res i s))) t)"
proof -
  let ?v = "tier1_state_val i (tier1_sense res i s)"
  obtain c0 c s1 rs where h: "write_state joint_state_write ?v (client1 s) = Some c0"
    "deliver_all cfg (t1_delivered i) c0 = Some c" "tier1_ready cfg c"
    "tier1_follow_command cfg i ((tier1_sense res i s)\<lparr>client1 := c\<rparr>) = Some s1"
    "tier1_cycle cfg res i s = Some (s1\<lparr>t1_asked := t1_asked s @ [rs]\<rparr>)"
    using tier1_cycle_phases [OF good i, of res] by (elim exE conjE) (rule that)
  have "tier1_ready cfg (client1 s)" using good by (simp add: tier1_good_def)
  from position_client.write_then_publish [OF this tier1_value_complete tmp, of i "tier1_sense res i s" z t]
  have p: "zenoh_publish_state cfg z tmp c0 t =
      Some (zenbedded_transport_publish (transport_cfg cfg) z (pub (client1 s)) (js_wire tier1_state_params ?v) t)"
    using h(1) by auto
  have "tier1_ready cfg (client1 ((tier1_sense res i s)\<lparr>client1 := c\<rparr>))" using h(3) by simp
  from tier1_follow_command_returns [OF this i] h(4)
  have "client1 s1 = c \<or> deliver_all cfg (t1_late i) c = Some (client1 s1)" by (auto split: if_splits)
  then have "zenoh_publish_state cfg z tmp (client1 s1) t = zenoh_publish_state cfg z tmp c0 t"
    using deliver_all_keeps [OF h(2)] by (intro publish_cong) (auto dest: deliver_all_keeps)
  with p h(5) show ?thesis by simp
qed

lemma tier1_wire:
  "js_wire tier1_state_params (tier1_state_val i s) = kCdrHeader @ lay_joint_state
     \<lparr>js_sec = word_of_int (tv_sec (t1_realtime i)), js_nanosec = word_of_int (tv_nsec (t1_realtime i)),
      js_frame = ''base_link'', js_names = [''stepper_motor'', ''magnetic_encoder''],
      js_position = [t1_stepper_angle s, t1_encoder_angle s], js_velocity = [0, 0], js_effort = [0, 0]\<rparr>"
proof -
  have two: "replicate 2 (0 :: f64) = [0, 0]" by (simp add: numeral_2_eq_2)
  show ?thesis
    by (simp add: js_wire_def js_message_def js_of_def js_template_def js_patch_def tier1_state_params_def
        tier1_state_val_def pick_def opt_str_def two)
qed

lemma tier1_command_turn:
  assumes good: "tier1_good cfg s" and i: "tier1_input_ok cfg i" and up: "tier1_caught_up s"
    and new: "accepted command_bytes (t1_delivered i) \<noteq> []"
      "length (accepted command_bytes (t1_delivered i)) < 2 ^ 32"
    and w: "last (accepted command_bytes (t1_delivered i @ t1_late i)) = jc_wire tier1_command_params w"
      "cmd_values w = Some [v, x]"
  shows "\<exists>s' rs. tier1_cycle cfg res i s = Some s' \<and> t1_velocity s' = v \<and> t1_cycles_since_command s' = 0 \<and>
    tier1_set_stepper_angular_vel res (t1_interval_ret i) v = Some rs \<and> t1_asked s' = t1_asked s @ [rs]"
proof -
  let ?s0 = "tier1_sense res i s"
  let ?out = "\<lparr>cmd_stamp_sec = 0, cmd_stamp_nanosec = 0, cmd_values = Some (t1_cmd i)\<rparr>"
  obtain c0 c s1 rs where h: "tier1_ready cfg c0" "deliver_all cfg (t1_delivered i) c0 = Some c"
    "cmd_accepted_count c =
      cmd_accepted_count (client1 s) + word_of_nat (length (accepted command_bytes (t1_delivered i)))"
    "tier1_follow_command cfg i (?s0\<lparr>client1 := c\<rparr>) = Some s1"
    "tier1_set_stepper_angular_vel res (t1_interval_ret i) (t1_velocity s1) = Some rs"
    "tier1_cycle cfg res i s = Some (s1\<lparr>t1_asked := t1_asked s @ [rs]\<rparr>)"
    using tier1_cycle_phases [OF good i, of res] by (elim exE conjE) (rule that)
  have room: "jc_room tier1_command_params w" "jc_room tier1_command_params ?out"
    using w(2) i by (auto simp: jc_room_def tier1_command_params_def tier1_input_ok_def)
  have small: "\<forall>b \<in> set (t1_delivered i). length b < 2 ^ 32" "\<forall>b \<in> set (t1_late i). length b < 2 ^ 32"
    "length (t1_tmp i) = max_cmd_buffer_size cfg"
    using i by (auto simp: tier1_input_ok_def)
  have nonempty: "accepted command_bytes (t1_delivered i @ t1_late i) \<noteq> []" using new(1) by (simp add: accepted_def)
  obtain c2 where c2: "deliver_all cfg (t1_late i) c = Some c2"
    "read_command joint_command_read cfg (t1_tmp i) c2 ?out = Some (True, w)"
    using position_client.read_newest [OF h(1) small(1,2) room small(3) nonempty w(1) h(2)] by blast
  have "word_of_nat (length (accepted command_bytes (t1_delivered i))) \<noteq> (0 :: 32 word)"
    using new by (simp add: word_unat_eq_iff unat_of_nat)
  then have "cmd_accepted_count c \<noteq> t1_last_command_count ?s0"
    using h(3) up by (simp add: tier1_caught_up_def)
  then have "t1_velocity s1 = v" "t1_cycles_since_command s1 = 0"
    using h(4) c2 w(2) by (auto simp: tier1_follow_command_def accepted_command_count_def Let_def)
  with h(5,6) show ?thesis by simp
qed

lemma ntp_nsec_below_second: "0 \<le> tv_nsec (ntp_timespec a) \<and> tv_nsec (ntp_timespec a) < 1000000000"
proof -
  let ?f = "ucast (sntp_fraction a) :: 64 word"
  have f: "unat ?f < 2 ^ 32" using unsigned_less [of "sntp_fraction a", where 'a = nat]
    by (simp add: unsigned_ucast_eq take_bit_nat_eq_self)
  have "unat (?f * 1000000000) = unat ?f * 1000000000"
    using f by (subst unat_word_ariths) simp
  then have "unat (drop_bit 32 (?f * 1000000000)) = unat ?f * 1000000000 div 2 ^ 32"
    by (simp only: unat_drop_bit_eq) (simp only: drop_bit_eq_div)
  also have "\<dots> < 1000000000" using f by (intro less_mult_imp_div_less) simp
  finally show ?thesis
    by (simp add: ntp_timespec_def) (metis of_nat_less_iff of_nat_numeral uint_nat)
qed

lemma tier1_bring_up_returns:
  assumes w: "timely j d w" and j: "j < 2 ^ 30" "d < 2 ^ 30"
  shows "\<exists>r clock s'. tier1_bring_up grants w sntp settime s = Some (r, clock, s') \<and>
    now s' \<le> now s + 45600 + 3 * j + 2 * d \<and>
    (r = 0 \<longrightarrow> (\<exists>t. now s \<le> t \<and> t \<le> now s' \<and> ipv4_preferred w (default_if w) t))"
proof -
  let ?i = "default_if w"
  obtain b s1 where c: "connect_stored grants w ?i (k_uptime_get_32 (now s)) s = Some (b, s1)"
    "now s \<le> now s1" "now s1 \<le> now s + 15200 + j + d"
    using connect_stored_returns [OF w j, of "now s" s grants ?i] by auto
  obtain up s2 where u: "wait_for (ipv4_preferred w ?i) w kIpv4AcquireTimeout 200
      (k_uptime_get_32 (now s1)) s1 = Some (up, s2)" "up \<longleftrightarrow> ipv4_preferred w ?i (now s2)"
    "now s1 \<le> now s2" "now s2 \<le> now s1 + 30200 + j"
    using wait_ipv4_returns [OF w j(1)] by blast
  let ?e = "call w Esp_Power_Save_None s2"
  have e: "now s2 \<le> now ?e" "now ?e \<le> now s2 + d" using timely_call [OF w] by auto
  have z: "now ?e + 200 \<le> now (k_sleep w 200 ?e)" "now (k_sleep w 200 ?e) \<le> now ?e + 200 + j"
    using timely_sleep [OF w] by auto
  have "\<exists>t. now s \<le> t \<and> t \<le> now (k_sleep w 200 ?e) \<and> ipv4_preferred w ?i t" if up
    by (rule exI [of _ "now s2"]) (use that u c e z in linarith)
  with c u e z show ?thesis
    by (cases b; cases up) (auto simp: tier1_bring_up_def Let_def split: prod.split)
qed

section \<open>A sample boot\<close>

definition tier1_pendulum_config :: client_config where
  "tier1_pendulum_config = tier1_config\<lparr>max_state_buffer_size := 256, max_cmd_buffer_size := 256\<rparr>"

definition tier1_sample_boot :: tier1_boot where
  "tier1_sample_boot = \<lparr>t1b_stepper_driver = True, t1b_stepper_ctrl = True, t1b_encoder = True,
     t1b_init = sample_zenoh, t1b_publisher = sample_zenoh, t1b_subscriber = sample_zenoh,
     t1b_scratch = replicate 256 0xEE, t1b_enable_ret = 0, t1b_position = Inr 0,
     t1b_encoder_answer = \<lparr>fetch_ret = 0, channel_ret = 0, rotation = 0\<rparr>, t1b_delivered = []\<rparr>"

abbreviation tier1_sample_main :: "((int + tier1_state) \<times> client_transport) option" where
  "tier1_sample_main \<equiv> tier1_main tier1_pendulum_config 32 tier1_sample_boot
     (Some (0, None, \<lparr>now = 0, requests = []\<rparr>)) (new_client tier1_pendulum_config 1 any_ctx any_cctx)
     fresh_transport"

lemma tier1_sample_up:
  "case client_init joint_state_init joint_state_payload_size joint_command_init
      joint_command_payload_size tier1_pendulum_config sample_zenoh sample_zenoh sample_zenoh
      (replicate 256 0xEE) 50 tier1_state_params tier1_command_params
      (new_client tier1_pendulum_config 1 any_ctx any_cctx) fresh_transport of
    None \<Rightarrow> False | Some (r, c, t) \<Rightarrow> r = 0"
  by code_simp

lemma tier1_sizes: "js_bytes tier1_state_params = 148" "command_bytes = 116"
  by code_simp+

lemma tier1_sample_board: "tier1_board tier1_pendulum_config"
  by (simp add: tier1_board_def tier1_sizes tier1_pendulum_config_def)

lemma tier1_sample_boot_ok: "tier1_boot_ok tier1_pendulum_config tier1_sample_boot"
  by (simp add: tier1_boot_ok_def tier1_sample_boot_def tier1_pendulum_config_def)

lemma tier1_sample_enters: "\<exists>s t. tier1_sample_main = Some (Inr s, t)"
proof -
  have "t1b_stepper_driver tier1_sample_boot" "t1b_stepper_ctrl tier1_sample_boot"
    "t1b_encoder tier1_sample_boot" "t1b_init tier1_sample_boot = sample_zenoh"
    "t1b_publisher tier1_sample_boot = sample_zenoh" "t1b_subscriber tier1_sample_boot = sample_zenoh"
    "t1b_scratch tier1_sample_boot = replicate 256 0xEE" "t1b_enable_ret tier1_sample_boot = 0"
    "t1b_position tier1_sample_boot = Inr 0" "t1b_delivered tier1_sample_boot = []"
    "fetch_ret (t1b_encoder_answer tier1_sample_boot) = 0"
    "channel_ret (t1b_encoder_answer tier1_sample_boot) = 0"
    by (simp_all add: tier1_sample_boot_def)
  then show ?thesis
    using tier1_sample_up
    by (auto simp: tier1_main_def tier1_get_encoder_angle_deg_def split: option.splits)
qed

lemma tier1_sample_state:
  "\<exists>s t. tier1_sample_main = Some (Inr s, t) \<and> tier1_good tier1_pendulum_config s \<and> tier1_caught_up s"
  using tier1_sample_enters tier1_main_good [OF _ tier1_sample_board tier1_sample_boot_ok] by blast

definition tier1_quiet_input :: tier1_input where
  "tier1_quiet_input = \<lparr>t1_position = Some 10, t1_encoder = \<lparr>fetch_ret = 0, channel_ret = 0, rotation = 0\<rparr>,
     t1_realtime = \<lparr>tv_sec = 5, tv_nsec = 7\<rparr>, t1_delivered = [[1, 2, 3]], t1_late = [],
     t1_tmp = replicate 256 0, t1_cmd = [0, 0], t1_interval_ret = 0\<rparr>"

definition tier1_command_input :: "joint_command_value \<Rightarrow> tier1_input" where
  "tier1_command_input w = tier1_quiet_input\<lparr>t1_delivered := [[1, 2, 3], jc_wire tier1_command_params w]\<rparr>"

lemma tier1_sample_inputs:
  "tier1_input_ok tier1_pendulum_config tier1_quiet_input" "tier1_silent tier1_quiet_input"
  by (simp_all add: tier1_input_ok_def tier1_silent_def tier1_quiet_input_def tier1_sizes
      tier1_pendulum_config_def)

lemma tier1_sample_command:
  assumes "jc_room tier1_command_params w"
  shows "tier1_input_ok tier1_pendulum_config (tier1_command_input w)"
    "accepted command_bytes (t1_delivered (tier1_command_input w)) = [jc_wire tier1_command_params w]"
    "accepted command_bytes (t1_delivered (tier1_command_input w) @ t1_late (tier1_command_input w)) =
      [jc_wire tier1_command_params w]"
proof -
  have "length (jc_wire tier1_command_params w) = command_bytes"
    by (rule joint_command.rwire_length [OF tier1_params_ok(2) _ assms]) (simp add: tier1_sizes)
  then show "tier1_input_ok tier1_pendulum_config (tier1_command_input w)"
    "accepted command_bytes (t1_delivered (tier1_command_input w)) = [jc_wire tier1_command_params w]"
    "accepted command_bytes (t1_delivered (tier1_command_input w) @ t1_late (tier1_command_input w)) =
      [jc_wire tier1_command_params w]"
    by (simp_all add: tier1_input_ok_def tier1_command_input_def tier1_quiet_input_def accepted_def
        tier1_sizes tier1_pendulum_config_def)
qed

text \<open>The angles a turn measures.\<close>

lemma tier1_sensed:
  "t1_stepper_angle (tier1_sense res i s) =
     (case t1_position i of None \<Rightarrow> t1_stepper_angle s
        | Some p \<Rightarrow> f64_sub (microsteps_to_angle res p) (t1_stepper_angle_offset s))"
  "t1_encoder_angle (tier1_sense res i s) =
     (case tier1_get_encoder_angle_deg (t1_encoder i) of None \<Rightarrow> t1_encoder_angle s
        | Some a \<Rightarrow> f64_sub a (t1_encoder_angle_offset s))"
  by (simp_all add: tier1_sense_def Let_def split: option.split)

section \<open>Properties\<close>

text \<open>C23: a turn of the Tier 1 pendulum publishes what it measured: the next publication of the control
  thread is the CDR encoding of a \<open>JointState\<close> with the clock's stamp, the frame and the names of the
  program, the two angles relative to those at boot (the last known ones where the driver or the
  encoder cannot tell), and zeros as velocities and efforts, whatever was published before.\<close>

theorem tier1_publishes_positions:
  assumes good: "tier1_good cfg s" and i: "tier1_input_ok cfg i"
    and tmp: "length tmp = max_state_buffer_size cfg"
  shows "\<exists>s'. tier1_cycle cfg res i s = Some s' \<and>
    zenoh_publish_state cfg z tmp (client1 s') t =
      Some (zenbedded_transport_publish (transport_cfg cfg) z (pub (client1 s))
        (kCdrHeader @ lay_joint_state
          \<lparr>js_sec = word_of_int (tv_sec (t1_realtime i)), js_nanosec = word_of_int (tv_nsec (t1_realtime i)),
           js_frame = ''base_link'', js_names = [''stepper_motor'', ''magnetic_encoder''],
           js_position =
             [case t1_position i of None \<Rightarrow> t1_stepper_angle s
                | Some p \<Rightarrow> f64_sub (microsteps_to_angle res p) (t1_stepper_angle_offset s),
              case tier1_get_encoder_angle_deg (t1_encoder i) of None \<Rightarrow> t1_encoder_angle s
                | Some a \<Rightarrow> f64_sub a (t1_encoder_angle_offset s)],
           js_velocity = [0, 0], js_effort = [0, 0]\<rparr>) t)"
  using tier1_publish [OF assms] unfolding tier1_wire tier1_sensed .

theorem tier1_publishes_positions_witness:
  "\<exists>s t s'. tier1_sample_main = Some (Inr s, t) \<and>
    tier1_cycle tier1_pendulum_config 32 tier1_quiet_input s = Some s' \<and>
    zenoh_publish_state tier1_pendulum_config sample_zenoh (replicate 256 0) (client1 s') t =
      Some (zenbedded_transport_publish (transport_cfg tier1_pendulum_config) sample_zenoh (pub (client1 s))
        (kCdrHeader @ lay_joint_state
          \<lparr>js_sec = 5, js_nanosec = 7,
           js_frame = ''base_link'', js_names = [''stepper_motor'', ''magnetic_encoder''],
           js_position = [f64_sub (microsteps_to_angle 32 10) (t1_stepper_angle_offset s),
             f64_sub (f64_div (f64_mul 0 M_PI) (int_to_double 180)) (t1_encoder_angle_offset s)],
           js_velocity = [0, 0], js_effort = [0, 0]\<rparr>) t)"
proof -
  obtain s t where m: "tier1_sample_main = Some (Inr s, t)" "tier1_good tier1_pendulum_config s"
    using tier1_sample_state by blast
  have len: "length (replicate 256 0 :: bytes) = max_state_buffer_size tier1_pendulum_config"
    by (simp add: tier1_pendulum_config_def)
  have c: "word_of_int (tv_sec (t1_realtime tier1_quiet_input)) = (5 :: uint32)"
    "word_of_int (tv_nsec (t1_realtime tier1_quiet_input)) = (7 :: uint32)"
    "t1_position tier1_quiet_input = Some 10"
    "tier1_get_encoder_angle_deg (t1_encoder tier1_quiet_input) =
       Some (f64_div (f64_mul 0 M_PI) (int_to_double 180))"
    by (simp_all add: tier1_quiet_input_def tier1_get_encoder_angle_deg_def)
  from tier1_publishes_positions [OF m(2) tier1_sample_inputs(1) len, of 32 sample_zenoh t] m(1)
  show ?thesis unfolding c option.case by blast
qed

text \<open>C24: a link that goes silent stops the stepper. From boot on, after any run, 22 turns in which no
  payload of the size of a command arrives (others may) end with nothing but a stop request.\<close>

theorem tier1_silence_stops_stepper:
  assumes main: "tier1_main cfg res b network (new_client cfg j x y) t = Some (Inr s, t')"
    and board: "tier1_board cfg" and boot: "tier1_boot_ok cfg b"
    and "is": "\<forall>i \<in> set (before @ silence). tier1_input_ok cfg i"
    and silence: "\<forall>i \<in> set silence. tier1_silent i" "22 \<le> length silence"
  shows "\<exists>s'. run_cycles (tier1_cycle cfg res) (before @ silence) s = Some s' \<and>
    last (t1_asked s') = [Stepper_Stop]"
proof -
  have "tier1_good cfg s" using tier1_main_good [OF main board boot] by blast
  then obtain s1 where s1: "run_cycles (tier1_cycle cfg res) before s = Some s1" "tier1_good cfg s1"
    using tier1_watchdog.run_total [of cfg s before res] "is" by (auto simp: list_all_iff)
  obtain s' where "run_cycles (tier1_cycle cfg res) silence s1 = Some s'" "tier1_idle s'"
    using tier1_watchdog.silence_stops [OF s1(2), of silence res] "is" silence
    by (auto simp: list_all_iff)
  with s1(1) show ?thesis by (auto simp: run_cycles_append tier1_idle_def)
qed

theorem tier1_silence_stops_stepper_witness:
  "\<exists>s t s'. tier1_sample_main = Some (Inr s, t) \<and>
    run_cycles (tier1_cycle tier1_pendulum_config 32) ([] @ replicate 22 tier1_quiet_input) s = Some s' \<and>
    last (t1_asked s') = [Stepper_Stop]"
proof -
  obtain s t where m: "tier1_sample_main = Some (Inr s, t)" using tier1_sample_enters by blast
  have i: "\<forall>i \<in> set ([] @ replicate 22 tier1_quiet_input). tier1_input_ok tier1_pendulum_config i"
    "\<forall>i \<in> set (replicate 22 tier1_quiet_input). tier1_silent i" "22 \<le> length (replicate 22 tier1_quiet_input)"
    using tier1_sample_inputs by simp_all
  show ?thesis
    using tier1_silence_stops_stepper [OF m tier1_sample_board tier1_sample_boot_ok i] m by blast
qed

text \<open>from boot on, whatever arrives and whatever the drivers answer, the loop of the Tier 1
  pendulum runs without undefined behaviour, and every turn asks the driver for a stop, or for a step
  interval between 20 microseconds and a second and, unless that is refused, to run in the direction
  commanded.\<close>

theorem tier1_run_in_range:
  assumes main: "tier1_main cfg res b network (new_client cfg j x y) t = Some (Inr s, t')"
    and board: "tier1_board cfg" and boot: "tier1_boot_ok cfg b"
    and "is": "\<forall>i \<in> set is. tier1_input_ok cfg i"
  shows "\<exists>s'. run_cycles (tier1_cycle cfg res) is s = Some s' \<and> list_all free_running (t1_asked s')"
proof -
  have "tier1_good cfg s" using tier1_main_good [OF main board boot] by blast
  then obtain s' where "run_cycles (tier1_cycle cfg res) is s = Some s'" "tier1_good cfg s'"
    using tier1_watchdog.run_total [of cfg s "is" res] "is" by (auto simp: list_all_iff)
  then show ?thesis by (auto simp: tier1_good_def)
qed

theorem tier1_run_in_range_witness:
  "\<exists>s t s'. tier1_sample_main = Some (Inr s, t) \<and>
    run_cycles (tier1_cycle tier1_pendulum_config 32) [tier1_quiet_input] s = Some s' \<and>
    list_all free_running (t1_asked s')"
proof -
  obtain s t where m: "tier1_sample_main = Some (Inr s, t)" using tier1_sample_enters by blast
  have "\<forall>i \<in> set [tier1_quiet_input]. tier1_input_ok tier1_pendulum_config i"
    using tier1_sample_inputs by simp
  from tier1_run_in_range [OF m tier1_sample_board tier1_sample_boot_ok this] m show ?thesis by blast
qed

text \<open>C25: a turn follows the newest command: if messages of the agreed size arrived, and the last of
  them when it is read is the encoding of a \<open>JointCommand\<close>, the stepper is set to its first value.\<close>

theorem tier1_follows_newest_command:
  assumes good: "tier1_good cfg s" "tier1_caught_up s" and i: "tier1_input_ok cfg i"
    and new: "accepted command_bytes (t1_delivered i) \<noteq> []"
      "length (accepted command_bytes (t1_delivered i)) < 2 ^ 32"
    and w: "last (accepted command_bytes (t1_delivered i @ t1_late i)) = jc_wire tier1_command_params w"
      "cmd_values w = Some [v, x]"
  shows "\<exists>s' rs. tier1_cycle cfg res i s = Some s' \<and> t1_velocity s' = v \<and> t1_cycles_since_command s' = 0 \<and>
    tier1_set_stepper_angular_vel res (t1_interval_ret i) v = Some rs \<and> t1_asked s' = t1_asked s @ [rs]"
  by (rule tier1_command_turn [OF good(1) i good(2) new w])

theorem tier1_follows_newest_command_witness:
  "\<exists>s t s' rs. tier1_sample_main = Some (Inr s, t) \<and>
    tier1_cycle tier1_pendulum_config 32 (tier1_command_input
      \<lparr>cmd_stamp_sec = 1, cmd_stamp_nanosec = 2, cmd_values = Some [0x4008000000000000, 0]\<rparr>) s = Some s' \<and>
    t1_velocity s' = 0x4008000000000000 \<and>
    tier1_set_stepper_angular_vel 32 0 0x4008000000000000 = Some rs \<and> t1_asked s' = t1_asked s @ [rs]"
proof -
  let ?w = "\<lparr>cmd_stamp_sec = 1, cmd_stamp_nanosec = 2, cmd_values = Some [0x4008000000000000, 0]\<rparr>"
  obtain s t where m: "tier1_sample_main = Some (Inr s, t)" "tier1_good tier1_pendulum_config s"
    "tier1_caught_up s" using tier1_sample_state by blast
  have "jc_room tier1_command_params ?w" by (simp add: tier1_out_room)
  note c = tier1_sample_command [OF this]
  have h: "accepted command_bytes (t1_delivered (tier1_command_input ?w)) \<noteq> []"
    "length (accepted command_bytes (t1_delivered (tier1_command_input ?w))) < 2 ^ 32"
    "last (accepted command_bytes (t1_delivered (tier1_command_input ?w) @ t1_late (tier1_command_input ?w))) =
      jc_wire tier1_command_params ?w"
    "cmd_values ?w = Some [0x4008000000000000, 0]" "t1_interval_ret (tier1_command_input ?w) = 0"
    unfolding c(2,3) by (simp_all add: tier1_command_input_def tier1_quiet_input_def)
  from tier1_follows_newest_command [OF m(2,3) c(1) h(1-4), of 32] m(1) show ?thesis
    unfolding h(5) by blast
qed

end
