(* ===== verification/Float_Order.thy ===== *)
theory Float_Order
  imports Float_Lemmas
begin

text \<open>
  Rounding is monotone: of two numbers the smaller one is not rounded to the larger pattern. From it
  follow the bounds of sums, differences and remainders that range proofs need.
\<close>

section \<open>Rounding magnitudes\<close>

definition rounded :: "fmt \<Rightarrow> nat \<Rightarrow> int \<Rightarrow> nat" where
  "rounded f m e = nat (mant_exp f m e - emin f) * 2 ^ frac_bits f + round_shift m (mant_exp f m e - e)"

lemma fp_encode_rounded: "fp_encode f (Fin s m e) = sign_bit f s + min (rounded f m e) (inf_bits f)"
  by (simp add: fp_encode_def rounded_def Let_def)

lemma round_shift_mono:
  assumes "m \<le> n"
  shows "round_shift m k \<le> round_shift n k"
proof (cases "k \<le> 0")
  case True
  then show ?thesis using assms by (simp add: round_shift_def)
next
  case False
  let ?d = "2 ^ nat k :: nat"
  have q: "m div ?d \<le> n div ?d" using assms by (rule div_le_mono)
  show ?thesis
  proof (cases "m div ?d = n div ?d")
    case True
    have "m mod ?d \<le> n mod ?d"
      using assms True by (metis add_le_cancel_left mult_div_mod_eq)
    with True False show ?thesis by (auto simp: round_shift_def Let_def)
  next
    case False
    with q have "m div ?d + 1 \<le> n div ?d" by simp
    then show ?thesis using \<open>\<not> k \<le> 0\<close> by (auto simp: round_shift_def Let_def)
  qed
qed

lemma round_shift_power:
  assumes "k \<le> int j"
  shows "round_shift (2 ^ j) k = 2 ^ nat (int j - k)"
proof (cases "k \<le> 0")
  case True
  then have "nat (int j - k) = j + nat (- k)" by simp
  with True show ?thesis by (simp add: round_shift_def power_add)
next
  case False
  then have j: "j = nat k + nat (int j - k)" using assms by simp
  have "(2 :: nat) ^ j = 2 ^ nat k * 2 ^ nat (int j - k)" by (subst j) (rule power_add)
  with False show ?thesis by (simp add: round_shift_def Let_def)
qed

lemma nat_bits_mono: "m \<le> n \<Longrightarrow> nat_bits m \<le> nat_bits n"
  by (meson le_less_trans nat_bits_le nat_bits_upper)

lemma rounded_mono:
  assumes "m \<le> n"
  shows "rounded f m e \<le> rounded f n e"
proof (cases "m = 0 \<or> mant_exp f m e = mant_exp f n e")
  case True
  then show ?thesis
  proof
    assume "m = 0"
    then have "rounded f m e = 0" by (simp add: rounded_def mant_exp_def round_shift_def)
    then show ?thesis by simp
  qed (simp add: rounded_def round_shift_mono assms)
next
  case False
  let ?p = "frac_bits f" and ?E = "mant_exp f m e" and ?F = "mant_exp f n e"
  have nz: "m \<noteq> 0" "n \<noteq> 0" and bits: "nat_bits m \<le> nat_bits n"
    using False assms nat_bits_mono by auto
  have less: "?E < ?F" "emin f \<le> ?E" and F: "?F = e + int (nat_bits n) - int (Suc ?p)"
    using False nz bits by (auto simp: mant_exp_def)
  have low: "e + int (nat_bits m) - int (Suc ?p) \<le> ?E" using nz by (simp add: mant_exp_def)
  have "round_shift m (?E - e) \<le> round_shift (2 ^ nat_bits m) (?E - e)"
    using nat_bits_upper [of m] by (intro round_shift_mono) simp
  also have "\<dots> \<le> 2 ^ Suc ?p"
  proof (cases "?E - e \<le> int (nat_bits m)")
    case True
    then have "round_shift (2 ^ nat_bits m) (?E - e) = 2 ^ nat (int (nat_bits m) - (?E - e))"
      by (rule round_shift_power)
    also have "\<dots> \<le> 2 ^ Suc ?p" using low by (intro power_increasing) auto
    finally show ?thesis .
  next
    case big: False
    have "(2 :: nat) ^ nat_bits m < 2 ^ nat (?E - e)"
      using big by (intro power_strict_increasing) auto
    then have "round_shift (2 ^ nat_bits m) (?E - e) \<le> 1" using big by (simp add: round_shift_def Let_def)
    also have "(1 :: nat) \<le> 2 ^ Suc ?p" by (rule one_le_power) simp
    finally show ?thesis .
  qed
  finally have m: "round_shift m (?E - e) \<le> 2 * 2 ^ ?p" by simp
  have "(2 :: nat) ^ ?p = round_shift (2 ^ (nat_bits n - 1)) (?F - e)"
  proof -
    have pos: "0 < nat_bits n" using nat_bits_pos [OF nz(2)] .
    have "?F - e \<le> int (nat_bits n - 1)" using F pos by simp
    moreover have "nat (int (nat_bits n - 1) - (?F - e)) = ?p" using F pos by simp
    ultimately show ?thesis by (simp add: round_shift_power)
  qed
  also have "\<dots> \<le> round_shift n (?F - e)"
    by (intro round_shift_mono nat_bits_lower nz)
  finally have n: "2 ^ ?p \<le> round_shift n (?F - e)" .
  have "nat (?E - emin f) + 1 \<le> nat (?F - emin f)" using less by simp
  then have "(nat (?E - emin f) + 1) * 2 ^ ?p \<le> nat (?F - emin f) * 2 ^ ?p" by (rule mult_le_mono1)
  with m n show ?thesis by (simp add: rounded_def)
qed

lemma rounded_scale: "m \<noteq> 0 \<Longrightarrow> rounded f (m * 2 ^ j) (e - int j) = rounded f m e"
  using nat_bits_shift [of m j] round_shift_scale [of m j "mant_exp f m e - e"]
  by (auto simp: rounded_def mant_exp_def algebra_simps)

section \<open>Rounding numbers\<close>

lemma f64_key_parts:
  "unat x = (if s then 2 ^ 63 else 0) + b \<Longrightarrow> b < 2 ^ 63 \<Longrightarrow> f64_key x = (if s then - 1 else 1) * int b"
  by (auto simp: f64_key_def Let_def)

lemma f64_key_to_f64:
  "f64_key (to_f64 (Fin s m e)) =
     (if s then - 1 else 1) * int (min (rounded binary64 m e) (inf_bits binary64))"
proof (rule f64_key_parts)
  show "min (rounded binary64 m e) (inf_bits binary64) < 2 ^ 63"
    by (rule le_less_trans [OF min.cobounded2]) (simp add: inf_bits_def binary64_def)
  have "sign_bit binary64 s = (if s then 2 ^ 63 else 0)" by (simp add: sign_bit_def binary64_def)
  then show "unat (to_f64 (Fin s m e)) =
      (if s then 2 ^ 63 else 0) + min (rounded binary64 m e) (inf_bits binary64)"
    by (simp only: unat_to_f64 fp_encode_rounded)
qed

lemma rounded_units: "- 1074 \<le> e \<Longrightarrow> rounded f (m * 2 ^ nat (e + 1074)) (- 1074) = rounded f m e"
  using rounded_scale [of m f "nat (e + 1074)" e]
  by (cases "m = 0") (simp_all add: rounded_def mant_exp_def round_shift_def)

lemma to_f64_mono:
  assumes "units (Fin s m e) \<le> units (Fin t n g)" "- 1074 \<le> e" "- 1074 \<le> g"
  shows "f64_le (to_f64 (Fin s m e)) (to_f64 (Fin t n g))"
proof -
  define M where "M = m * 2 ^ nat (e + 1074)"
  define N where "N = n * 2 ^ nat (g + 1074)"
  have M: "rounded binary64 m e = rounded binary64 M (- 1074)"
    "rounded binary64 n g = rounded binary64 N (- 1074)"
    using assms(2,3) by (simp_all add: rounded_units M_def N_def)
  have v: "(if s then - int M else int M) \<le> (if t then - int N else int N)"
    using assms(1) by (auto simp: units_Fin M_def N_def split: if_splits)
  have "f64_key (to_f64 (Fin s m e)) \<le> f64_key (to_f64 (Fin t n g))"
  proof (cases "s = t")
    case True
    then show ?thesis
      using v rounded_mono [of M N binary64 "- 1074"] rounded_mono [of N M binary64 "- 1074"]
      by (cases t) (auto simp: f64_key_to_f64 M min_def)
  next
    case False
    have z: "rounded binary64 0 (- 1074) = 0" by (simp add: rounded_def mant_exp_def round_shift_def)
    show ?thesis
    proof (cases t)
      case True
      then have "M = 0" "N = 0" using v False by auto
      then show ?thesis using True False z by (simp add: f64_key_to_f64 M)
    next
      case pos: False
      then show ?thesis using False by (simp add: f64_key_to_f64)
    qed
  qed
  then show ?thesis by (simp add: f64_le_def)
qed

lemma units_le:
  assumes "f64_le x y" "of_f64 x = Fin s m e" "of_f64 y = Fin t n g"
  shows "units (of_f64 x) \<le> units (of_f64 y)"
  using f64_key_units [OF assms(2,3)] assms by (simp add: f64_le_def)

lemma units_neg: "units (fp_neg X) = - units X"
  by (cases X) (simp_all add: units_def scaled_def)

lemma scaled_split: "k \<le> e \<Longrightarrow> - 1074 \<le> k \<Longrightarrow> scaled s m (e - k) * 2 ^ nat (k + 1074) = units (Fin s m e)"
proof -
  assume h: "k \<le> e" "- 1074 \<le> k"
  then have "nat (e + 1074) = nat (e - k) + nat (k + 1074)" by simp
  then have "(2 :: int) ^ nat (e + 1074) = 2 ^ nat (e - k) * 2 ^ nat (k + 1074)" by (simp only: power_add)
  then show ?thesis by (simp add: units_Fin scaled_def)
qed

lemma units_signed: "units (Fin (v < 0) (nat \<bar>v\<bar>) k) = v * 2 ^ nat (k + 1074)"
  by (simp add: units_Fin)

lemma units_add:
  assumes "- 1074 \<le> e" "- 1074 \<le> g"
  shows "\<exists>u k h. fp_add (Fin s m e) (Fin t n g) = Fin u k h \<and> - 1074 \<le> h \<and>
    units (Fin u k h) = units (Fin s m e) + units (Fin t n g)"
proof -
  let ?k = "min e g"
  let ?v = "scaled s m (e - ?k) + scaled t n (g - ?k)"
  have k: "- 1074 \<le> ?k" using assms by simp
  have "?v * 2 ^ nat (?k + 1074) = units (Fin s m e) + units (Fin t n g)"
    using scaled_split [of ?k e s m] scaled_split [of ?k g t n] k by (simp add: distrib_right)
  then have v: "units (Fin (?v < 0) (nat \<bar>?v\<bar>) ?k) = units (Fin s m e) + units (Fin t n g)"
    by (simp only: units_signed)
  have f: "fp_add (Fin s m e) (Fin t n g) =
      (if ?v = 0 then Fin (s \<and> t) 0 ?k else Fin (?v < 0) (nat \<bar>?v\<bar>) ?k)"
    by (simp only: fp_add.simps Let_def)
  show ?thesis
  proof (cases "?v = 0")
    case True
    have "units (Fin (s \<and> t) 0 ?k) = units (Fin (?v < 0) (nat \<bar>?v\<bar>) ?k)" using True by (simp add: units_Fin)
    moreover have "fp_add (Fin s m e) (Fin t n g) = Fin (s \<and> t) 0 ?k" using f True by (simp only: if_True simp_thms)
    ultimately show ?thesis using k v by metis
  next
    case False
    with f k v show ?thesis by (simp only: if_False) blast
  qed
qed

section \<open>Sums and differences\<close>

lemma f64_add_mono:
  assumes "f64_le x y" "isfinite x" "isfinite y" "isfinite z"
  shows "f64_le (f64_add x z) (f64_add y z)"
proof -
  obtain s m e t n g u k h where f: "of_f64 x = Fin s m e" "of_f64 y = Fin t n g" "of_f64 z = Fin u k h"
    using assms(2-4) by (auto simp: isfinite_iff)
  note ex = of_f64_exponent [OF f(1)] of_f64_exponent [OF f(2)] of_f64_exponent [OF f(3)]
  have "units (Fin s m e) \<le> units (Fin t n g)" using units_le [OF assms(1) f(1,2)] f by simp
  with units_add [OF ex(1,3), of s m u k] units_add [OF ex(2,3), of t n u k]
  show ?thesis unfolding f64_add_def f by (auto intro!: to_f64_mono)
qed

lemma f64_sub_mono:
  assumes "f64_le x y" "isfinite x" "isfinite y" "isfinite z"
  shows "f64_le (f64_sub x z) (f64_sub y z)"
proof -
  obtain s m e t n g u k h where f: "of_f64 x = Fin s m e" "of_f64 y = Fin t n g" "of_f64 z = Fin u k h"
    using assms(2-4) by (auto simp: isfinite_iff)
  note ex = of_f64_exponent [OF f(1)] of_f64_exponent [OF f(2)] of_f64_exponent [OF f(3)]
  have "units (Fin s m e) \<le> units (Fin t n g)" using units_le [OF assms(1) f(1,2)] f by simp
  with units_add [OF ex(1,3), of s m "\<not> u" k] units_add [OF ex(2,3), of t n "\<not> u" k]
  show ?thesis unfolding f64_sub_def f by (auto intro!: to_f64_mono)
qed

section \<open>Remainders\<close>

lemma f64_fmod_bounds:
  assumes "isfinite x" "of_f64 y = Fin False n g" "n \<noteq> 0"
  shows "f64_le (f64_neg y) (f64_fmod x y)" "f64_le (f64_fmod x y) y"
proof -
  obtain s m e where x: "of_f64 x = Fin s m e" using assms(1) by (auto simp: isfinite_iff)
  note ex = of_f64_exponent [OF x] of_f64_exponent [OF assms(2)]
  define k where "k = min e g"
  define r where "r = m * 2 ^ nat (e - k) mod (n * 2 ^ nat (g - k))"
  have k: "- 1074 \<le> k" "k \<le> g" using ex by (simp_all add: k_def)
  have "r \<le> n * 2 ^ nat (g - k)" using assms(3) by (simp add: r_def less_imp_le)
  then have "int r * 2 ^ nat (k + 1074) \<le> int (n * 2 ^ nat (g - k)) * 2 ^ nat (k + 1074)"
    by (intro mult_right_mono) (simp_all only: of_nat_le_iff zero_le_power zero_le_numeral)
  also have "\<dots> = units (Fin False n g)" using scaled_split [OF k(2,1), of False n] by (simp add: scaled_def)
  finally have r: "int r * 2 ^ nat (k + 1074) \<le> units (Fin False n g)" .
  have "fp_fmod (of_f64 x) (of_f64 y) = Fin s r k"
    using assms(3) by (simp add: x assms(2) Let_def k_def r_def)
  then have f: "f64_fmod x y = to_f64 (Fin s r k)" by (simp only: f64_fmod_def)
  have y: "y = to_f64 (Fin False n g)" "f64_neg y = to_f64 (Fin True n g)"
    using to_f64_of_f64 [of y] by (simp_all add: isnan_def f64_neg_def assms(2))
  have u: "units (Fin True n g) = - units (Fin False n g)"
    "units (Fin s r k) = (if s then - 1 else 1) * (int r * 2 ^ nat (k + 1074))"
    by (simp_all add: units_Fin)
  define R where "R = int r * 2 ^ nat (k + 1074)"
  have "0 \<le> R" by (simp add: R_def)
  with r u have "units (Fin True n g) \<le> units (Fin s r k)" "units (Fin s r k) \<le> units (Fin False n g)"
    unfolding R_def [symmetric] by auto
  then have "f64_le (to_f64 (Fin True n g)) (to_f64 (Fin s r k))"
    "f64_le (to_f64 (Fin s r k)) (to_f64 (Fin False n g))"
    using k ex by (simp_all add: to_f64_mono)
  then show "f64_le (f64_neg y) (f64_fmod x y)" "f64_le (f64_fmod x y) y"
    using f y by simp_all
qed

lemma f64_fmod_NaN: "\<not> isfinite x \<Longrightarrow> isnan (f64_fmod x y)"
  by (cases "of_f64 x"; cases "of_f64 y") (simp_all add: f64_fmod_def isfinite_def)

end
