(* ===== verification/Pendulum_Encoder.thy ===== *)
theory Pendulum_Encoder
  imports Pendulum_Tier2 Float_Order
begin

text \<open>
  The encoder thread of the Tier 2 pendulum together with the consumer of its mailbox: whatever the
  sensor and the clock deliver, the published angle stays in [-pi, pi] and the mailbox holds nothing
  but the newest sample.
\<close>

section \<open>Gaps of the clock\<close>

text \<open>A positive number of microseconds is a positive number of seconds.\<close>

lemma micros_positive:
  assumes "0 < i" "i < 2 ^ 53"
  shows "f64_lt 0 (f64_div (int_to_double i) (dec 1000000 0))"
proof -
  obtain s m e where f: "of_f64 (int_to_double i) = Fin s m e" "units (Fin s m e) = i * 2 ^ 1074"
    using int_to_double_units [of i] assms by auto
  have pos: "0 < units (Fin s m e)" unfolding f(2) by (rule mult_pos_pos [OF assms(1)]) simp
  have nonneg: "0 \<le> int (m * 2 ^ nat (e + 1074))" by (rule of_nat_0_le_iff)
  have sm: "\<not> s" "m \<noteq> 0"
    using pos nonneg unfolding units_Fin by (auto simp del: of_nat_mult of_nat_power split: if_splits)
  have m: "m < 2 ^ 53" using f(1) by (auto simp: of_f64_def fp_decode_def binary64_def emin_def Let_def
        split: if_splits)
  have "m * 2 ^ nat (e + 1074) = nat i * 2 ^ 1074"
  proof -
    have "int (m * 2 ^ nat (e + 1074)) = int (nat i * 2 ^ 1074)"
      using f(2) sm(1) assms(1) unfolding units_Fin by (simp only: if_False of_nat_mult) simp
    then show ?thesis by (simp only: of_nat_eq_iff)
  qed
  moreover have "1 * 2 ^ 1074 \<le> nat i * (2 :: nat) ^ 1074" by (rule mult_le_mono1) (use assms(1) in simp)
  ultimately have "(2 :: nat) ^ 1074 \<le> m * 2 ^ nat (e + 1074)" by simp
  also have "\<dots> < 2 ^ 53 * 2 ^ nat (e + 1074)" using m by (intro mult_strict_right_mono) simp_all
  also have "\<dots> = 2 ^ (53 + nat (e + 1074))" by (simp only: power_add)
  finally have "1074 < 53 + nat (e + 1074)" by (rule power_less_imp_less_exp [rotated]) simp
  then have e: "- 53 \<le> e" by linarith
  have d: "of_f64 (dec 1000000 0) = Fin False 0x1E848000000000 (- 33)" by (simp add: dec_def f64_eval)
  obtain q where q: "fp_div (Fin s m e) (Fin False 0x1E848000000000 (- 33)) = Fin False q (e - 77)" "q \<noteq> 0"
  proof -
    have nb: "nat_bits 0x1E848000000000 = 53" by (simp add: f64_eval)
    define k where "k = m * 2 ^ 109 div (0x1E848000000000 :: nat)"
    have "2 ^ 109 div (0x1E848000000000 :: nat) \<le> k"
      unfolding k_def using sm(2) by (intro div_le_mono) simp
    then have "k \<noteq> 0" by auto
    have "fp_div (Fin s m e) (Fin False 0x1E848000000000 (- 33)) =
      Fin False (2 * k + (if m * 2 ^ 109 mod 0x1E848000000000 = 0 then 0 else 1)) (e - 77)"
      using sm(1) unfolding fp_div.simps nb Let_def k_def by simp
    then show thesis by (rule that) (use \<open>k \<noteq> 0\<close> in simp)
  qed
  have "f64_le (to_f64 (Fin False 1 (- 1074))) (to_f64 (Fin False q (e - 77)))"
  proof (rule to_f64_mono)
    have "1 * 1 \<le> q * 2 ^ nat (e - 77 + 1074)" using q(2) by (intro mult_le_mono) simp_all
    then have "int (1 * 1) \<le> int (q * 2 ^ nat (e - 77 + 1074))" by (simp only: of_nat_le_iff)
    then show "units (Fin False 1 (- 1074)) \<le> units (Fin False q (e - 77))"
      unfolding units_Fin by simp
  qed (use e in simp_all)
  moreover have "to_f64 (Fin False 1 (- 1074)) = 1" by (simp add: f64_eval)
  ultimately have "f64_le 1 (f64_div (int_to_double i) (dec 1000000 0))"
    unfolding f64_div_def f(1) d q(1) by (simp only:)
  then show ?thesis by (simp add: f64_le_def f64_lt_def f64_key_def isnan_zero)
qed

section \<open>Wrapping an angle\<close>

definition angle_ok :: "f64 \<Rightarrow> bool" where
  "angle_ok a \<longleftrightarrow> isnan a \<or> f64_le (f64_neg M_PI) a \<and> f64_le a M_PI"

lemma pi_values:
  "two_pi = 0x401921FB54442D18" "f64_mul (int_to_double 2) M_PI = 0x401921FB54442D18"
  "f64_neg M_PI = 0xC00921FB54442D18" "f64_neg 0x401921FB54442D18 = 0xC01921FB54442D18"
proof -
  have a: "dec 2 0 = 0x4000000000000000" by (simp add: f64_eval dec_def)
  have b: "int_to_double 2 = 0x4000000000000000" by (simp add: f64_eval)
  have c: "f64_mul 0x4000000000000000 M_PI = 0x401921FB54442D18"
    by (simp add: f64_mul_def M_PI_def f64_eval)
  show "two_pi = 0x401921FB54442D18" unfolding two_pi_def a c ..
  show "f64_mul (int_to_double 2) M_PI = 0x401921FB54442D18" unfolding b c ..
  show "f64_neg M_PI = 0xC00921FB54442D18" by (simp add: f64_neg_def M_PI_def f64_eval)
  show "f64_neg 0x401921FB54442D18 = 0xC01921FB54442D18" by (simp add: f64_neg_def f64_eval)
qed

lemma pi_differences:
  "f64_sub M_PI 0x401921FB54442D18 = 0xC00921FB54442D18"
  "f64_sub 0x401921FB54442D18 0x401921FB54442D18 = 0"
  "f64_add 0xC00921FB54442D18 0x401921FB54442D18 = M_PI"
  "f64_add 0xC01921FB54442D18 0x401921FB54442D18 = 0"
  by (simp_all add: f64_sub_def f64_add_def M_PI_def f64_eval scaled_def)

lemma pi_order:
  "f64_le 0 M_PI" "f64_le 0xC00921FB54442D18 0"
  by (simp_all add: f64_le_def f64_key_def isnan_def of_f64_def fp_decode_def binary64_def M_PI_def)

lemma pi_finite:
  "isfinite M_PI" "isfinite 0x401921FB54442D18" "isfinite 0xC00921FB54442D18" "isfinite 0xC01921FB54442D18"
  by (simp_all add: isfinite_def of_f64_def fp_decode_def binary64_def Let_def M_PI_def)

lemma wrap_angle_ok:
  assumes "f64_le (f64_neg two_pi) a" "f64_le a two_pi"
  shows "angle_ok (wrap_angle a)"
proof -
  note b = assms [unfolded pi_values]
  have a: "isfinite a" "\<not> isnan a"
    using f64_le_finite [OF b] pi_finite isfinite_not_NaN by blast+
  have nan: "\<not> isnan M_PI" "\<not> isnan (f64_neg M_PI)"
    using pi_finite isfinite_not_NaN unfolding pi_values by blast+
  consider "f64_lt M_PI a" | "\<not> f64_lt M_PI a" "f64_le a (f64_neg M_PI)"
    | "\<not> f64_lt M_PI a" "\<not> f64_le a (f64_neg M_PI)"
    by blast
  then show ?thesis
  proof cases
    case 1
    then have "f64_le M_PI a" by (rule f64_lt_imp_le)
    from f64_sub_mono [OF this pi_finite(1) a(1) pi_finite(2)]
      f64_sub_mono [OF b(2) a(1) pi_finite(2) pi_finite(2)]
    have "f64_le 0xC00921FB54442D18 (f64_sub a 0x401921FB54442D18)"
      "f64_le (f64_sub a 0x401921FB54442D18) M_PI"
      unfolding pi_differences using pi_order(1) f64_le_trans by blast+
    with 1 show ?thesis unfolding wrap_angle_def angle_ok_def pi_values by simp
  next
    case 2
    note lo = 2(2) [unfolded pi_values]
    from f64_add_mono [OF lo a(1) pi_finite(3) pi_finite(2)]
      f64_add_mono [OF b(1) pi_finite(4) a(1) pi_finite(2)]
    have "f64_le (f64_add a 0x401921FB54442D18) M_PI"
      "f64_le 0xC00921FB54442D18 (f64_add a 0x401921FB54442D18)"
      unfolding pi_differences using pi_order(2) f64_le_trans by blast+
    with 2 show ?thesis unfolding wrap_angle_def angle_ok_def pi_values by simp
  next
    case 3
    then have "f64_le a M_PI" "f64_le (f64_neg M_PI) a" using a nan by (auto simp: f64_lt_def f64_le_def)
    with 3 show ?thesis by (simp add: wrap_angle_def angle_ok_def)
  qed
qed

lemma wrap_fmod_ok: "angle_ok (wrap_angle (f64_fmod x (f64_mul (int_to_double 2) M_PI)))"
proof (cases "isfinite x")
  case True
  have "of_f64 0x401921FB54442D18 = Fin False 0x1921FB54442D18 (- 50)"
    by (simp add: of_f64_def fp_decode_def binary64_def emin_def Let_def)
  from f64_fmod_bounds [OF True this] show ?thesis
    by (intro wrap_angle_ok) (simp_all add: pi_values)
next
  case False
  then have "isnan (f64_fmod x (f64_mul (int_to_double 2) M_PI))" by (rule f64_fmod_NaN)
  then show ?thesis by (simp add: wrap_angle_def angle_ok_def f64_le_def)
qed

lemma clock_gap:
  fixes x y :: uint32
  shows "f64_lt 0 (f64_div (int_to_double (uint (x - y))) (dec 1000000 0)) \<longleftrightarrow> x \<noteq> y"
proof (cases "x = y")
  case True
  have "f64_div (int_to_double 0) (dec 1000000 0) = 0"
    by (simp add: f64_div_def dec_def f64_eval)
  then show ?thesis using True by (simp add: f64_lt_def)
next
  case False
  then have "uint (x - y) \<noteq> 0" by (simp add: uint_0_iff)
  then have "0 < uint (x - y)" using uint_ge_0 [of "x - y"] by linarith
  moreover have "uint (x - y) < 2 ^ 53" using uint_bounded [of "x - y"] by simp
  ultimately have "f64_lt 0 (f64_div (int_to_double (uint (x - y))) (dec 1000000 0))"
    by (rule micros_positive)
  then show ?thesis using False by simp
qed

section \<open>The thread and its consumers\<close>

text \<open>What happens to the thread's objects: a turn of the thread, the control loop emptying the
  mailbox, and \<open>main\<close> getting past \<open>k_sem_take\<close> (which waits while the count is zero).\<close>

datatype encoder_event =
    Encoder_Turn encoder_answer uint32 uint32 uint32
  | State_Taken
  | Ready_Taken

definition encoder_step :: "encoder_event \<Rightarrow> encoder_thread \<Rightarrow> encoder_thread option" where
  "encoder_step ev s =
     (case ev of
        Encoder_Turn a t0 t1 t2 \<Rightarrow> map_option snd (encoder_turn a t0 t1 t2 s)
      | State_Taken \<Rightarrow> Some (s\<lparr>encoder_state_msgq := tl (encoder_state_msgq s)\<rparr>)
      | Ready_Taken \<Rightarrow> Some (s\<lparr>g_pendulum_ready := g_pendulum_ready s - 1\<rparr>))"

lemma put_latest_only: "put_latest x q = [x]"
  by (induction q) (simp_all add: k_msgq_put_def)

lemma kEncoderSamplePeriodUs_eq: "kEncoderSamplePeriodUs = Some 2500"
proof -
  have a: "dec 1000000 0 = 0x412E848000000000" "kEncoderSampleHz = 0x4079000000000000"
    by (simp_all add: f64_eval dec_def kEncoderSampleHz_def)
  have b: "f64_div 0x412E848000000000 0x4079000000000000 = 0x40A3880000000000"
    by (simp add: f64_div_def f64_eval)
  show ?thesis unfolding kEncoderSamplePeriodUs_def a b by (simp add: f64_eval)
qed

text \<open>The clock readings of the turns in which the sensor answered.\<close>

definition sample_times :: "encoder_event list \<Rightarrow> uint32 list" where
  "sample_times evs = concat (map (\<lambda>ev. case ev of
     Encoder_Turn a t0 t1 t2 \<Rightarrow> if get_encoder_angle_deg a = None then [] else [t1]
   | _ \<Rightarrow> []) evs)"

definition clock_moved :: "uint32 list \<Rightarrow> bool" where
  "clock_moved ts \<longleftrightarrow> (\<exists>x \<in> set ts. x \<noteq> hd ts)"

lemma clock_moved_snoc: "clock_moved (ts @ [x]) \<longleftrightarrow> clock_moved ts \<or> ts \<noteq> [] \<and> x \<noteq> last ts"
proof (cases "ts = []")
  case False
  then have "clock_moved ts \<or> last ts = hd ts" by (auto simp: clock_moved_def)
  with False show ?thesis by (auto simp: clock_moved_def)
qed (simp add: clock_moved_def)

definition encoder_inv :: "uint32 list \<Rightarrow> encoder_thread \<Rightarrow> bool" where
  "encoder_inv ts s \<longleftrightarrow> angle_ok (enc_angle (encoder_state s)) \<and>
     (encoder_state_msgq s = [] \<or> encoder_state_msgq s = [encoder_state s]) \<and>
     (have_prev s \<longleftrightarrow> ts \<noteq> []) \<and> (ts \<noteq> [] \<longrightarrow> prev_time_us s = last ts) \<and>
     (signaled_ready s \<longleftrightarrow> clock_moved ts) \<and> ready_gives s = (if clock_moved ts then 1 else 0) \<and>
     g_pendulum_ready s \<le> ready_gives s"

lemma encoder_sample_inv:
  assumes "encoder_inv ts s"
  shows "encoder_inv (ts @ [t]) (encoder_sample raw t s) \<and>
    (g_pendulum_ready s = ready_gives s \<longrightarrow>
       g_pendulum_ready (encoder_sample raw t s) = ready_gives (encoder_sample raw t s))"
proof -
  note wrap_fmod_ok [of "f64_add (f64_sub raw (encoder_angle_offset s)) (f64_mul (int_to_double 3) M_PI)"]
  with assms show ?thesis
    by (auto simp: encoder_sample_def encoder_inv_def put_latest_only filtered_def give_pendulum_ready_def
        clock_gap clock_moved_snoc Let_def)
qed

lemma encoder_step_inv:
  assumes "encoder_inv ts s"
  shows "\<exists>s'. encoder_step ev s = Some s' \<and> encoder_inv (ts @ sample_times [ev]) s' \<and>
    (ev \<noteq> Ready_Taken \<and> g_pendulum_ready s = ready_gives s \<longrightarrow> g_pendulum_ready s' = ready_gives s')"
proof (cases ev)
  case (Encoder_Turn a t0 t1 t2)
  then show ?thesis
    using assms encoder_sample_inv [OF assms]
    by (auto simp: encoder_step_def encoder_turn_def kEncoderSamplePeriodUs_eq sample_times_def Let_def
        split: option.splits)
next
  case State_Taken
  then show ?thesis using assms by (auto simp: encoder_step_def encoder_inv_def sample_times_def)
next
  case Ready_Taken
  then show ?thesis using assms by (auto simp: encoder_step_def encoder_inv_def sample_times_def)
qed

lemma encoder_start_inv: "encoder_inv [] (encoder_start offset t)"
proof -
  have "f64_le (f64_neg M_PI) M_PI"
    unfolding pi_values using pi_order f64_le_trans by blast
  moreover have "f64_le M_PI M_PI" using pi_finite(1) isfinite_not_NaN by (simp add: f64_le_refl)
  ultimately show ?thesis by (simp add: encoder_inv_def encoder_start_def angle_ok_def clock_moved_def)
qed

lemma encoder_run_inv:
  "\<exists>s. run_cycles encoder_step events (encoder_start offset t) = Some s \<and>
    encoder_inv (sample_times events) s \<and> (Ready_Taken \<notin> set events \<longrightarrow> g_pendulum_ready s = ready_gives s)"
proof (induction events rule: rev_induct)
  case Nil
  have "g_pendulum_ready (encoder_start offset t) = ready_gives (encoder_start offset t)"
    by (simp add: encoder_start_def)
  then show ?case using encoder_start_inv by (simp add: sample_times_def)
next
  case (snoc ev events)
  then obtain s where s: "run_cycles encoder_step events (encoder_start offset t) = Some s"
    "encoder_inv (sample_times events) s"
    "Ready_Taken \<notin> set events \<longrightarrow> g_pendulum_ready s = ready_gives s"
    by blast
  have "sample_times (events @ [ev]) = sample_times events @ sample_times [ev]" by (simp add: sample_times_def)
  with encoder_step_inv [OF s(2), of ev] s(1,3) show ?case by (auto simp: run_cycles_append)
qed

text \<open>C36: whatever the sensor answers and the clock shows, and however the control loop takes messages
  and \<open>main\<close> the semaphore, the encoder thread keeps running, the angle it publishes is a NaN or
  within [-pi, pi] (the wrapped remainder never leaves the range through rounding), and its mailbox
  never holds anything but the newest sample. \<open>k_sem_give\<close> has been called exactly once if a sample
  was taken at a clock reading other than the first sample's, and otherwise never; until \<open>main\<close> takes
  it, the semaphore counts that call.\<close>

theorem encoder_mailbox_newest_wrapped:
  "\<exists>s. run_cycles encoder_step events (encoder_start offset t) = Some s \<and>
    (isnan (enc_angle (encoder_state s)) \<or>
      f64_le (f64_neg M_PI) (enc_angle (encoder_state s)) \<and> f64_le (enc_angle (encoder_state s)) M_PI) \<and>
    encoder_state_msgq s \<in> {[], [encoder_state s]} \<and>
    ready_gives s = (if \<exists>x \<in> set (sample_times events). x \<noteq> hd (sample_times events) then 1 else 0) \<and>
    (if Ready_Taken \<in> set events then g_pendulum_ready s \<le> ready_gives s
     else g_pendulum_ready s = ready_gives s)"
proof -
  obtain s where s: "run_cycles encoder_step events (encoder_start offset t) = Some s"
    "encoder_inv (sample_times events) s" "Ready_Taken \<notin> set events \<longrightarrow> g_pendulum_ready s = ready_gives s"
    using encoder_run_inv [of events offset t] by blast
  then show ?thesis by (auto simp: encoder_inv_def angle_ok_def clock_moved_def)
qed

end
