(* ===== verification/Pendulum_Controller.thy ===== *)
theory Pendulum_Controller
  imports Float_Order Command_Watchdog
begin

text \<open>
  \<open>inverted_pendulum_ros/src/inverted_pendulum_controller.cpp\<close> and its header: the ros2_control
  controller that swings the pendulum up and balances it. The members of
  \<open>InvertedPendulumController\<close> are a record. The parameters of the node are functions from names to
  values, an argument (\<open>None\<close>: the accessor throws); what the framework and the hardware do during a
  call (the readings of the state interfaces, whether the command interface takes the value) is an
  argument too. \<open>cos\<close> is that of the record \<open>libm\<close>. Arithmetic is evaluated operation by operation,
  in the order of the source, without contraction to fused operations.
\<close>

section \<open>Parameters\<close>

datatype param_value = P_String string | P_Double f64 | P_Int int

text \<open>The declarations of \<open>on_init\<close> with their defaults; \<open>throws\<close> is whether one of them does.\<close>

definition declared_parameters :: "(string \<times> param_value) list" where
  "declared_parameters =
    [(''motor_joint_state_name'', P_String ''motor_joint/position''),
     (''motor_joint_vel_name'', P_String ''motor_joint/velocity''),
     (''pendulum_joint_state_name'', P_String ''pendulum_joint/position''),
     (''pendulum_joint_vel_name'', P_String ''pendulum_joint/velocity''),
     (''motor_joint_command_name'', P_String ''motor_joint/acceleration''),
     (''m2'', P_Double (dec 14 3)), (''l2'', P_Double (dec 51 3)), (''L1'', P_Double (dec 62 3)),
     (''J2'', P_Double (dec 4447 8)), (''g'', P_Double (dec 980665 5)),
     (''k_q1'', P_Double (f64_neg (dec 5 0))), (''k_q1_vel'', P_Double (f64_neg (dec 4352 3))),
     (''k_q2'', P_Double (dec 418238 3)), (''k_q2_vel'', P_Double (dec 33281 3)),
     (''k_e'', P_Double (dec 80 0)), (''k_arm'', P_Double (dec 31 0)),
     (''k_arm_vel'', P_Double (dec 6 0)), (''swing_accel_max'', P_Double (dec 100 0)),
     (''arm_zone'', P_Double (dec 2 0)), (''swing_start_vel'', P_Double (dec 1 2)),
     (''catch_angle'', P_Double (dec 20 2)), (''fall_angle'', P_Double (dec 60 2)),
     (''catch_cmd_fraction'', P_Double (dec 60 2)), (''catch_ramp_steps'', P_Int 10),
     (''motor_accel_max'', P_Double (dec 150 0))]"

datatype CallbackReturn_t = CB_SUCCESS | CB_ERROR

text \<open>\<open>get_parameter(name).as_string()\<close> and \<open>as_double()\<close>: an exception when it is missing or of
  another type.\<close>

type_synonym node_parameters = "string \<Rightarrow> param_value option"

definition as_string :: "node_parameters \<Rightarrow> string \<Rightarrow> string option" where
  "as_string n name = (case n name of Some (P_String s) \<Rightarrow> Some s | _ \<Rightarrow> None)"

definition as_double :: "node_parameters \<Rightarrow> string \<Rightarrow> f64 option" where
  "as_double n name = (case n name of Some (P_Double d) \<Rightarrow> Some d | _ \<Rightarrow> None)"

section \<open>State\<close>

record controller =
  motor_joint_state_name :: string
  motor_joint_vel_name :: string
  pendulum_joint_state_name :: string
  pendulum_joint_vel_name :: string
  motor_joint_command_name :: string
  ctl_m2 :: f64
  ctl_l2 :: f64
  ctl_L1 :: f64
  ctl_J2 :: f64
  ctl_g :: f64
  E_target :: f64
  k_q1 :: f64
  k_q1_vel :: f64
  k_q2 :: f64
  k_q2_vel :: f64
  k_e :: f64
  k_arm :: f64
  k_arm_vel :: f64
  swing_accel_max :: f64
  arm_zone :: f64
  swing_start_vel :: f64
  catch_angle :: f64
  fall_angle :: f64
  catch_cmd_fraction :: f64
  catch_ramp_steps :: int
  catch_ramp_remaining :: int
  motor_accel_max :: f64
  balancing :: bool

text \<open>A fresh controller, from the initialisers of the members.\<close>

definition initial_controller :: controller where
  "initial_controller = \<lparr>motor_joint_state_name = [], motor_joint_vel_name = [],
     pendulum_joint_state_name = [], pendulum_joint_vel_name = [], motor_joint_command_name = [],
     ctl_m2 = dec 14 3, ctl_l2 = dec 51 3, ctl_L1 = dec 62 3, ctl_J2 = dec 4447 8,
     ctl_g = dec 980665 5, E_target = dec 0 0,
     k_q1 = f64_neg (dec 5 0), k_q1_vel = f64_neg (dec 4352 3), k_q2 = dec 418238 3, k_q2_vel = dec 33281 3,
     k_e = dec 80 0, k_arm = dec 31 0, k_arm_vel = dec 6 0, swing_accel_max = dec 100 0,
     arm_zone = dec 2 0, swing_start_vel = dec 1 2,
     catch_angle = dec 20 2, fall_angle = dec 60 2, catch_cmd_fraction = dec 60 2,
     catch_ramp_steps = 10, catch_ramp_remaining = 0, motor_accel_max = dec 150 0, balancing = False\<rparr>"

definition controller_on_init :: "bool \<Rightarrow> CallbackReturn_t" where
  "controller_on_init throws = (if throws then CB_ERROR else CB_SUCCESS)"

definition command_interface_configuration :: "controller \<Rightarrow> string list" where
  "command_interface_configuration c = [motor_joint_command_name c]"

definition state_interface_configuration :: "controller \<Rightarrow> string list" where
  "state_interface_configuration c =
     [motor_joint_state_name c, motor_joint_vel_name c, pendulum_joint_state_name c,
      pendulum_joint_vel_name c]"

section \<open>Configuration\<close>

text \<open>The parameter may be an integer, narrowed to \<open>int\<close>, or a double, truncated.\<close>

definition ramp_steps :: "node_parameters \<Rightarrow> int option" where
  "ramp_steps n =
     (case n ''catch_ramp_steps'' of
        Some (P_Int i) \<Rightarrow> Some (max 1 (sint (word_of_int i :: 32 word)))
      | Some (P_Double d) \<Rightarrow> map_option (max 1) (double_to_int (- (2 ^ 31)) (2 ^ 31 - 1) d)
      | _ \<Rightarrow> None)"

definition controller_on_configure :: "node_parameters \<Rightarrow> controller \<Rightarrow> (CallbackReturn_t \<times> controller) option" where
  "controller_on_configure n c = do {
     s1 \<leftarrow> as_string n ''motor_joint_state_name'';
     s2 \<leftarrow> as_string n ''motor_joint_vel_name'';
     s3 \<leftarrow> as_string n ''pendulum_joint_state_name'';
     s4 \<leftarrow> as_string n ''pendulum_joint_vel_name'';
     s5 \<leftarrow> as_string n ''motor_joint_command_name'';
     m2 \<leftarrow> as_double n ''m2'';
     l2 \<leftarrow> as_double n ''l2'';
     L1 \<leftarrow> as_double n ''L1'';
     J2 \<leftarrow> as_double n ''J2'';
     g \<leftarrow> as_double n ''g'';
     kq1 \<leftarrow> as_double n ''k_q1'';
     kq1v \<leftarrow> as_double n ''k_q1_vel'';
     kq2 \<leftarrow> as_double n ''k_q2'';
     kq2v \<leftarrow> as_double n ''k_q2_vel'';
     ke \<leftarrow> as_double n ''k_e'';
     karm \<leftarrow> as_double n ''k_arm'';
     karmv \<leftarrow> as_double n ''k_arm_vel'';
     swing \<leftarrow> as_double n ''swing_accel_max'';
     zone \<leftarrow> as_double n ''arm_zone'';
     start \<leftarrow> as_double n ''swing_start_vel'';
     ca \<leftarrow> as_double n ''catch_angle'';
     fa \<leftarrow> as_double n ''fall_angle'';
     fraction \<leftarrow> as_double n ''catch_cmd_fraction'';
     steps \<leftarrow> ramp_steps n;
     amax \<leftarrow> as_double n ''motor_accel_max'';
     let catch = f64_abs ca;
     let fall = (if f64_le (f64_abs fa) catch then f64_mul (dec 2 0) catch else f64_abs fa);
     let target = f64_mul (f64_mul (f64_abs m2) (f64_abs g)) (f64_abs l2);
     Some (CB_SUCCESS, c\<lparr>motor_joint_state_name := s1, motor_joint_vel_name := s2,
       pendulum_joint_state_name := s3, pendulum_joint_vel_name := s4, motor_joint_command_name := s5,
       ctl_m2 := f64_abs m2, ctl_l2 := f64_abs l2, ctl_L1 := f64_abs L1, ctl_J2 := f64_abs J2,
       ctl_g := f64_abs g, E_target := target,
       k_q1 := kq1, k_q1_vel := kq1v, k_q2 := kq2, k_q2_vel := kq2v, k_e := ke,
       k_arm := f64_abs karm, k_arm_vel := f64_abs karmv, swing_accel_max := f64_abs swing,
       arm_zone := f64_abs zone, swing_start_vel := f64_abs start, catch_angle := catch,
       fall_angle := fall, catch_cmd_fraction := f64_clamp fraction (dec 5 2) (dec 1 0),
       catch_ramp_steps := steps, motor_accel_max := f64_abs amax\<rparr>)
   }"

definition controller_on_activate :: "controller \<Rightarrow> CallbackReturn_t \<times> controller" where
  "controller_on_activate c = (CB_SUCCESS, c\<lparr>balancing := False, catch_ramp_remaining := 0\<rparr>)"

text \<open>The command interfaces as the values they hold; \<open>takes\<close> is whether \<open>set_value\<close> succeeds.\<close>

definition controller_on_deactivate :: "bool \<Rightarrow> f64 list \<Rightarrow> CallbackReturn_t \<times> f64 list" where
  "controller_on_deactivate takes cmds =
     (CB_SUCCESS, if cmds \<noteq> [] \<and> takes then cmds[0 := 0] else cmds)"

section \<open>The update\<close>

record control_input =
  cin_q1 :: "f64 option"
  cin_q1d :: "f64 option"
  cin_q2 :: "f64 option"
  cin_q2d :: "f64 option"
  cin_takes :: bool

definition value_or :: "f64 option \<Rightarrow> f64" where
  "value_or x = (case x of Some v \<Rightarrow> v | None \<Rightarrow> 0)"

definition ctl_q2 :: "control_input \<Rightarrow> f64" where
  "ctl_q2 i = f64_remainder (value_or (cin_q2 i)) (f64_mul (dec 2 0) M_PI)"

definition u_lqr_candidate :: "controller \<Rightarrow> control_input \<Rightarrow> f64" where
  "u_lqr_candidate c i =
     f64_neg (f64_add (f64_add (f64_add (f64_mul (k_q1 c) (value_or (cin_q1 i)))
                                        (f64_mul (k_q1_vel c) (value_or (cin_q1d i))))
                               (f64_mul (k_q2 c) (ctl_q2 i)))
                      (f64_mul (k_q2_vel c) (value_or (cin_q2d i))))"

definition command_is_safe :: "controller \<Rightarrow> control_input \<Rightarrow> bool" where
  "command_is_safe c i \<longleftrightarrow>
     f64_lt (f64_abs (u_lqr_candidate c i)) (f64_mul (catch_cmd_fraction c) (motor_accel_max c))"

definition mode_transition :: "control_input \<Rightarrow> controller \<Rightarrow> controller" where
  "mode_transition i c =
     (if \<not> balancing c \<and> f64_lt (f64_abs (ctl_q2 i)) (catch_angle c) \<and> command_is_safe c i
      then c\<lparr>balancing := True, catch_ramp_remaining := catch_ramp_steps c\<rparr>
      else if balancing c \<and> f64_lt (fall_angle c) (f64_abs (ctl_q2 i))
      then c\<lparr>balancing := False\<rparr>
      else c)"

definition balance_command :: "control_input \<Rightarrow> controller \<Rightarrow> f64 \<times> controller" where
  "balance_command i c =
     (let u = u_lqr_candidate c i
      in if catch_ramp_remaining c > 0 then
           let frac = f64_sub (dec 1 0)
                 (f64_div (int_to_double (catch_ramp_remaining c)) (int_to_double (catch_ramp_steps c)))
           in (f64_mul u frac, c\<lparr>catch_ramp_remaining := catch_ramp_remaining c - 1\<rparr>)
         else (u, c))"

definition swing_command :: "libm \<Rightarrow> control_input \<Rightarrow> controller \<Rightarrow> f64" where
  "swing_command lm i c =
     (let q1 = value_or (cin_q1 i); q1d = value_or (cin_q1d i); q2d = value_or (cin_q2d i);
          cosq = lm_cos lm (ctl_q2 i);
          E = f64_add (f64_mul (f64_mul (f64_mul (dec 5 1) (ctl_J2 c)) q2d) q2d)
                (f64_mul (f64_mul (f64_mul (ctl_m2 c) (ctl_g c)) (ctl_l2 c)) cosq);
          E_err = f64_sub E (E_target c);
          pump_dir = f64_mul (f64_mul (f64_neg E_err) q2d) cosq;
          u_pump = (if f64_lt (f64_abs q1) (arm_zone c) then
                      (if f64_lt (swing_start_vel c) (f64_abs q2d)
                       then f64_copysign (swing_accel_max c) pump_dir
                       else swing_accel_max c)
                    else 0);
          u_arm = f64_sub (f64_mul (f64_neg (k_arm c)) q1) (f64_mul (k_arm_vel c) q1d)
      in f64_add u_pump u_arm)"

datatype return_type = RT_OK | RT_ERROR

text \<open>The value offered to the command interface comes with the result.\<close>

definition controller_update ::
  "libm \<Rightarrow> control_input \<Rightarrow> controller \<Rightarrow> return_type \<times> f64 \<times> controller" where
  "controller_update lm i c =
     (let c = mode_transition i c;
          (u, c) = (if balancing c then balance_command i c else (swing_command lm i c, c));
          u = f64_clamp u (f64_neg (motor_accel_max c)) (motor_accel_max c)
      in (if cin_takes i then RT_OK else RT_ERROR, u, c))"

end
