(* ===== verification/Mock_Pendulum.thy ===== *)
theory Mock_Pendulum
  imports Pendulum_Controller
begin

text \<open>
  \<open>inverted_pendulum_ros/src/mock_pendulum_hardware.cpp\<close> and its header: the simulated pendulum the
  controller can run against, a ros2_control hardware component. The members are three records: what
  \<open>on_init\<close> reads from the parameters, the plant \<open>on_activate\<close> draws, and the state of the simulation.
  \<open>std::stod\<close> (\<open>None\<close>: it throws), \<open>sin\<close>, \<open>cos\<close>, \<open>tanh\<close> and the draws of \<open>normal_(rng_)\<close> are
  arguments; the state counts how many have been drawn. The result \<open>None\<close> is a conversion of a
  double to \<open>int\<close> that cannot hold it. What \<open>set_value\<close> hands to the interfaces is \<open>hw_states\<close>; its
  result is ignored by the code.
\<close>

section \<open>Constants and rounding\<close>

definition kPi :: f64 where "kPi = dec 314159265358979323846 20"
definition kTwoPi :: f64 where "kTwoPi = f64_mul (dec 2 0) kPi"
definition kCoulombEps :: f64 where "kCoulombEps = dec 1 3"

text \<open>\<open>std::round\<close>, halves away from zero, and \<open>std::ceil\<close>.\<close>

definition f64_round :: "f64 \<Rightarrow> f64" where
  "f64_round x =
     (case of_f64 x of
        Fin s m e \<Rightarrow> if 0 \<le> e then x
          else to_f64 (Fin s ((m + 2 ^ (nat (- e) - 1)) div 2 ^ nat (- e)) 0)
      | _ \<Rightarrow> x)"

definition f64_ceil :: "f64 \<Rightarrow> f64" where
  "f64_ceil x =
     (case of_f64 x of
        Fin s m e \<Rightarrow> if 0 \<le> e then x
          else if s then to_f64 (Fin s (m div 2 ^ nat (- e)) 0)
          else to_f64 (Fin s ((m + (2 ^ nat (- e) - 1)) div 2 ^ nat (- e)) 0)
      | _ \<Rightarrow> x)"

definition to_int :: "f64 \<Rightarrow> int option" where "to_int = double_to_int (- (2 ^ 31)) (2 ^ 31 - 1)"

section \<open>Parameters\<close>

type_synonym hardware_parameters = "string \<Rightarrow> string option"

definition mock_param ::
  "(string \<Rightarrow> f64 option) \<Rightarrow> hardware_parameters \<Rightarrow> string \<Rightarrow> f64 \<Rightarrow> f64" where
  "mock_param stod hp name fallback =
     (case hp name of
        None \<Rightarrow> fallback
      | Some t \<Rightarrow> (case stod t of Some d \<Rightarrow> d | None \<Rightarrow> fallback))"

text \<open>\<open>std::tolower\<close> in the C locale.\<close>

definition to_lower :: "char \<Rightarrow> char" where
  "to_lower c =
     (let n = of_char c :: nat in if 65 \<le> n \<and> n \<le> 90 then char_of (n + 32) else c)"

definition mock_param_bool :: "hardware_parameters \<Rightarrow> string \<Rightarrow> bool \<Rightarrow> bool" where
  "mock_param_bool hp name fallback =
     (case hp name of
        None \<Rightarrow> fallback
      | Some t \<Rightarrow> map to_lower t \<in> {''true'', ''1'', ''yes'', ''on''})"

record mock_params =
  J1_nom :: f64
  m2_nom :: f64
  l2_nom :: f64
  mock_L1 :: f64
  b1_nom :: f64
  b2_nom :: f64
  c2_nom :: f64
  mock_g :: f64
  J2_com_nom :: f64
  motor_limit :: f64
  motor_max_vel :: f64
  motor_max_accel :: f64
  motor_max_torque :: f64
  model_step_loss :: bool
  stop_restitution :: f64
  mock_steps_per_rev :: f64
  encoder_counts_per_rev :: f64
  encoder_noise :: f64
  pendulum_vel_from_encoder :: bool
  report_offset :: f64
  vel_filter_alpha :: f64
  motor_vel_noise :: f64
  pendulum_accel_noise :: f64
  motor_accel_noise :: f64
  param_randomization :: f64
  initial_q2 :: f64
  initial_q2_jitter :: f64
  sim_speed :: f64
  max_substep :: f64
  max_substeps :: int
  max_cycle_dt :: f64

definition J2_com_from :: "f64 \<Rightarrow> f64 \<Rightarrow> f64 \<Rightarrow> f64" where
  "J2_com_from J2_pivot_nom m l =
     (let com = f64_sub J2_pivot_nom (f64_mul (f64_mul m l) l)
      in if f64_le com 0 then J2_pivot_nom else com)"

text \<open>The parameters as \<open>on_init\<close> reads them.\<close>

definition read_parameters ::
  "(string \<Rightarrow> f64 option) \<Rightarrow> hardware_parameters \<Rightarrow> mock_params option" where
  "read_parameters stod hp = do {
     let p = mock_param stod hp;
     let m = p ''m2'' (dec 14 3);
     let l = p ''l2'' (dec 51 3);
     let speed = p ''sim_speed_factor'' (dec 1 0);
     steps \<leftarrow> to_int (f64_max (p ''max_substeps'' (dec 4000 0)) (dec 1 0));
     Some \<lparr>J1_nom = p ''J1'' (dec 610 7), m2_nom = m, l2_nom = l, mock_L1 = p ''L1'' (dec 62 3),
       b1_nom = p ''b1'' (dec 1 4), b2_nom = p ''b2'' (dec 8 6), c2_nom = p ''c2'' (dec 2 6),
       mock_g = p ''g'' (dec 980665 5),
       J2_com_nom = J2_com_from (p ''J2'' (dec 4447 8)) m l,
       motor_limit = f64_abs (p ''motor_position_limit'' (dec 235619449 8)),
       motor_max_vel = f64_abs (p ''motor_max_velocity'' (dec 5 0)),
       motor_max_accel = f64_abs (p ''motor_max_acceleration'' (dec 200 0)),
       motor_max_torque = f64_abs (p ''motor_max_torque'' (dec 4 1)),
       model_step_loss = mock_param_bool hp ''model_step_loss'' True,
       stop_restitution = f64_clamp (p ''hard_stop_restitution'' (dec 0 0)) (dec 0 0) (dec 9 1),
       mock_steps_per_rev = p ''motor_steps_per_rev'' (dec 6400 0),
       encoder_counts_per_rev = p ''encoder_counts_per_rev'' (dec 4096 0),
       encoder_noise = f64_abs (p ''encoder_noise'' (dec 4 4)),
       pendulum_vel_from_encoder = mock_param_bool hp ''pendulum_velocity_from_encoder'' True,
       report_offset = p ''pendulum_report_offset'' (dec 0 0),
       vel_filter_alpha = f64_clamp (p ''velocity_filter_alpha'' (dec 5 1)) (dec 1 2) (dec 1 0),
       motor_vel_noise = f64_abs (p ''motor_velocity_noise'' (dec 2 3)),
       pendulum_accel_noise = f64_abs (p ''pendulum_accel_noise'' (dec 3 2)),
       motor_accel_noise = f64_abs (p ''motor_accel_noise'' (dec 2 2)),
       param_randomization = f64_abs (p ''param_randomization'' (dec 2 2)),
       initial_q2 = p ''initial_q2'' kPi,
       initial_q2_jitter = f64_abs (p ''initial_q2_jitter'' (dec 1 2)),
       sim_speed = (if \<not> f64_lt 0 speed then dec 1 0 else speed),
       max_substep = f64_max (p ''max_substep'' (dec 5 4)) (dec 1 6),
       max_substeps = steps,
       max_cycle_dt = f64_max (p ''max_cycle_dt'' (dec 1 1)) (dec 1 4)\<rparr>
   }"

section \<open>State\<close>

record mock_plant =
  pl_J1 :: f64
  pl_J2_com :: f64
  pl_J2_pivot :: f64
  pl_m2 :: f64
  pl_l2 :: f64
  pl_b1 :: f64
  pl_b2 :: f64
  pl_c2 :: f64
  encoder_offset :: f64

record mock_state =
  q1 :: f64
  q1_dot :: f64
  q2 :: f64
  q2_dot :: f64
  q2_ddot_prev :: f64
  sim_time :: f64
  at_limit :: bool
  step_loss :: bool
  q2_meas_prev :: f64
  q2_dot_filt :: f64
  have_prev_meas :: bool
  hw_states :: "f64 list"
  hw_command :: f64
  drawn :: nat

text \<open>The state after \<open>on_init\<close>: the initialisers, and the vectors it assigns.\<close>

definition initial_mock_state :: mock_state where
  "initial_mock_state = \<lparr>q1 = 0, q1_dot = 0, q2 = 0, q2_dot = 0, q2_ddot_prev = 0, sim_time = 0,
     at_limit = False, step_loss = False, q2_meas_prev = 0, q2_dot_filt = 0, have_prev_meas = False,
     hw_states = [0, 0, 0, 0], hw_command = 0, drawn = 0\<rparr>"

text \<open>\<open>base\<close> is whether \<open>SystemInterface::on_init\<close> succeeds.\<close>

definition mock_on_init ::
  "bool \<Rightarrow> (string \<Rightarrow> f64 option) \<Rightarrow> hardware_parameters
     \<Rightarrow> (CallbackReturn_t + mock_params \<times> mock_state) option" where
  "mock_on_init base stod hp =
     (if \<not> base then Some (Inl CB_ERROR)
      else map_option (\<lambda>p. Inr (p, initial_mock_state)) (read_parameters stod hp))"

definition mock_state_interfaces :: "(string \<times> string) list" where
  "mock_state_interfaces =
     [(''motor_joint'', ''position''), (''motor_joint'', ''velocity''),
      (''pendulum_joint'', ''position''), (''pendulum_joint'', ''velocity'')]"

definition mock_command_interfaces :: "(string \<times> string) list" where
  "mock_command_interfaces = [(''motor_joint'', ''acceleration'')]"

section \<open>Dynamics\<close>

definition wrap_pi :: "f64 \<Rightarrow> f64" where "wrap_pi a = f64_remainder a kTwoPi"

definition draw :: "(nat \<Rightarrow> f64) \<Rightarrow> mock_state \<Rightarrow> f64 \<times> mock_state" where
  "draw normal s = (normal (drawn s), s\<lparr>drawn := drawn s + 1\<rparr>)"

definition pendulum_accel ::
  "libm \<Rightarrow> mock_params \<Rightarrow> mock_plant \<Rightarrow> f64 \<Rightarrow> f64 \<Rightarrow> f64 \<Rightarrow> f64 \<Rightarrow> f64" where
  "pendulum_accel lm p pl a2 a2_dot a1_dot a1_ddot =
     (let s = lm_sin lm a2; c = lm_cos lm a2;
          tau_gravity = f64_mul (f64_mul (f64_mul (pl_m2 pl) (mock_g p)) (pl_l2 pl)) s;
          tau_coupling =
            f64_mul (f64_mul (f64_mul (f64_mul (pl_m2 pl) (mock_L1 p)) (pl_l2 pl)) c) a1_ddot;
          tau_centrifugal = f64_mul (f64_mul (f64_mul (f64_mul
            (f64_mul (f64_mul (pl_m2 pl) (pl_l2 pl)) (pl_l2 pl)) s) c) a1_dot) a1_dot;
          tau_viscous = f64_mul (f64_neg (pl_b2 pl)) a2_dot;
          tau_coulomb = f64_mul (f64_neg (pl_c2 pl)) (lm_tanh lm (f64_div a2_dot kCoulombEps))
      in f64_div
           (f64_add (f64_add (f64_add (f64_add tau_gravity tau_coupling) tau_centrifugal) tau_viscous)
             tau_coulomb)
           (pl_J2_pivot pl))"

text \<open>The acceleration the stepper realises before the velocity limit: the command, clamped and
  jittered, or what the holding torque allows.\<close>

definition motor_accel ::
  "libm \<Rightarrow> (nat \<Rightarrow> f64) \<Rightarrow> mock_params \<Rightarrow> mock_plant \<Rightarrow> mock_state \<Rightarrow> f64 \<times> mock_state" where
  "motor_accel lm normal p pl s =
     (let a_cmd = (if \<not> isfinite (hw_command s) then 0 else hw_command s);
          a_cmd = f64_clamp a_cmd (f64_neg (motor_max_accel p)) (motor_max_accel p);
          (n, s) = draw normal s;
          a_cmd = f64_add a_cmd (f64_mul (motor_accel_noise p) n);
          s = s\<lparr>step_loss := False\<rparr>
      in if model_step_loss p \<and> f64_lt 0 (motor_max_torque p) then
           let s2 = lm_sin lm (q2 s);
               J0 = f64_add (f64_add (pl_J1 pl) (f64_mul (f64_mul (pl_m2 pl) (mock_L1 p)) (mock_L1 p)))
                 (f64_mul (f64_mul (f64_mul (f64_mul (pl_m2 pl) (pl_l2 pl)) (pl_l2 pl)) s2) s2);
               tau_react = f64_add
                 (f64_mul (f64_mul (f64_mul (f64_mul (pl_m2 pl) (mock_L1 p)) (pl_l2 pl))
                   (lm_cos lm (q2 s))) (q2_ddot_prev s))
                 (f64_mul (pl_b1 pl) (q1_dot s));
               tau_req = f64_add (f64_mul J0 a_cmd) tau_react
           in if f64_lt (motor_max_torque p) (f64_abs tau_req) then
                let tau_avail = f64_copysign (motor_max_torque p) tau_req
                in (f64_div (f64_sub tau_avail tau_react) J0, s\<lparr>step_loss := True\<rparr>)
              else (a_cmd, s)
         else (a_cmd, s))"

text \<open>The velocity ceiling and the mechanical stops: position, velocity, and whether a stop is hit.\<close>

definition arm_step :: "mock_params \<Rightarrow> f64 \<Rightarrow> f64 \<Rightarrow> mock_state \<Rightarrow> f64 \<times> f64 \<times> bool" where
  "arm_step p h a_cmd s =
     (let v_new = f64_clamp (f64_add (q1_dot s) (f64_mul a_cmd h))
            (f64_neg (motor_max_vel p)) (motor_max_vel p);
          p_new = f64_add (q1 s) (f64_mul v_new h)
      in if f64_lt (motor_limit p) p_new then
           (motor_limit p, f64_mul (f64_neg (stop_restitution p)) v_new, True)
         else if f64_lt p_new (f64_neg (motor_limit p)) then
           (f64_neg (motor_limit p), f64_mul (f64_neg (stop_restitution p)) v_new, True)
         else (p_new, v_new, False))"

definition mock_integrate ::
  "libm \<Rightarrow> (nat \<Rightarrow> f64) \<Rightarrow> mock_params \<Rightarrow> mock_plant \<Rightarrow> f64 \<Rightarrow> mock_state \<Rightarrow> mock_state" where
  "mock_integrate lm normal p pl h s =
     (let (a_cmd, s) = motor_accel lm normal p pl s;
          v_old = q1_dot s;
          (p_new, v_new, hit) = arm_step p h a_cmd s;
          s = s\<lparr>at_limit := hit\<rparr>;
          a_real = f64_div (f64_sub v_new v_old) h;
          a2 = pendulum_accel lm p pl (q2 s) (q2_dot s) v_old a_real;
          (n, s) = draw normal s;
          a2 = f64_add a2 (f64_mul (pendulum_accel_noise p) n);
          s = s\<lparr>q2_dot := f64_add (q2_dot s) (f64_mul a2 h)\<rparr>;
          s = s\<lparr>q2 := f64_add (q2 s) (f64_mul (q2_dot s) h)\<rparr>;
          s = s\<lparr>q2 := wrap_pi (q2 s)\<rparr>
      in s\<lparr>q2_ddot_prev := a2, q1_dot := v_new, q1 := p_new, sim_time := f64_add (sim_time s) h\<rparr>)"

section \<open>The sensors\<close>

definition publish_states ::
  "(nat \<Rightarrow> f64) \<Rightarrow> mock_params \<Rightarrow> mock_plant \<Rightarrow> f64 \<Rightarrow> mock_state \<Rightarrow> mock_state" where
  "publish_states normal p pl dt_sim s =
     (let step = f64_div kTwoPi (mock_steps_per_rev p);
          q1_meas = f64_mul (f64_round (f64_div (q1 s) step)) step;
          count = f64_div kTwoPi (encoder_counts_per_rev p);
          (n, s) = draw normal s;
          q2_meas = f64_add (f64_add (q2 s) (encoder_offset pl)) (f64_mul (encoder_noise p) n);
          q2_meas = wrap_pi (f64_mul (f64_round (f64_div q2_meas count)) count);
          (q2_dot_meas, s) =
            (if pendulum_vel_from_encoder p \<and> have_prev_meas s \<and> f64_lt 0 dt_sim then
               let raw = f64_div (wrap_pi (f64_sub q2_meas (q2_meas_prev s))) dt_sim;
                   s = s\<lparr>q2_dot_filt := f64_add (q2_dot_filt s)
                     (f64_mul (vel_filter_alpha p) (f64_sub raw (q2_dot_filt s)))\<rparr>
               in (q2_dot_filt s, s)
             else (q2_dot s, s\<lparr>q2_dot_filt := q2_dot s\<rparr>));
          s = s\<lparr>q2_meas_prev := q2_meas, have_prev_meas := True\<rparr>;
          (n, s) = draw normal s
      in s\<lparr>hw_states :=
             [q1_meas, f64_add (q1_dot s) (f64_mul (motor_vel_noise p) n),
              if f64_eq (report_offset p) 0 then q2_meas
              else wrap_pi (f64_add q2_meas (report_offset p)),
              q2_dot_meas]\<rparr>)"

section \<open>Activation\<close>

definition jitter :: "(nat \<Rightarrow> f64) \<Rightarrow> mock_params \<Rightarrow> f64 \<Rightarrow> mock_state \<Rightarrow> f64 \<times> mock_state" where
  "jitter normal p nominal s =
     (if f64_lt 0 (param_randomization p) then
        let (n, s) = draw normal s
        in (f64_mul nominal (f64_add (dec 1 0) (f64_mul (param_randomization p) n)), s)
      else (nominal, s))"

definition mock_on_activate ::
  "(nat \<Rightarrow> f64) \<Rightarrow> (string \<Rightarrow> f64 option) \<Rightarrow> hardware_parameters \<Rightarrow> mock_params \<Rightarrow> mock_state
     \<Rightarrow> CallbackReturn_t \<times> mock_plant \<times> mock_state" where
  "mock_on_activate normal stod hp p s =
     (let (J1, s) = jitter normal p (J1_nom p) s;
          (J2, s) = jitter normal p (J2_com_nom p) s;
          (m, s) = jitter normal p (m2_nom p) s;
          (l, s) = jitter normal p (l2_nom p) s;
          (b1, s) = jitter normal p (b1_nom p) s;
          (b2, s) = jitter normal p (b2_nom p) s;
          (c2, s) = jitter normal p (c2_nom p) s;
          (n, s) = draw normal s;
          pl = \<lparr>pl_J1 = J1, pl_J2_com = J2, pl_J2_pivot = f64_add J2 (f64_mul (f64_mul m l) l),
                pl_m2 = m, pl_l2 = l, pl_b1 = b1, pl_b2 = b2, pl_c2 = c2,
                encoder_offset = f64_add (mock_param stod hp ''encoder_offset'' (dec 0 0))
                  (f64_mul (f64_mul (dec 1 1) (param_randomization p)) n)\<rparr>;
          s = s\<lparr>q1 := 0, q1_dot := 0\<rparr>;
          (n, s) = draw normal s;
          s = s\<lparr>q2 := wrap_pi (f64_add (initial_q2 p) (f64_mul (initial_q2_jitter p) n))\<rparr>;
          (n, s) = draw normal s;
          s = s\<lparr>q2_dot := f64_mul (f64_mul (initial_q2_jitter p) (dec 5 1)) n,
                q2_ddot_prev := 0, sim_time := 0, at_limit := False, step_loss := False,
                have_prev_meas := False, q2_dot_filt := 0, hw_command := 0\<rparr>
      in (CB_SUCCESS, pl, publish_states normal p pl (dec 1 0) s))"

definition mock_on_deactivate :: "mock_state \<Rightarrow> CallbackReturn_t \<times> mock_state" where
  "mock_on_deactivate s = (CB_SUCCESS, s)"

section \<open>Read and write\<close>

primrec integrate_steps ::
  "libm \<Rightarrow> (nat \<Rightarrow> f64) \<Rightarrow> mock_params \<Rightarrow> mock_plant \<Rightarrow> f64 \<Rightarrow> nat \<Rightarrow> mock_state \<Rightarrow> mock_state" where
  "integrate_steps lm normal p pl h 0 s = s"
| "integrate_steps lm normal p pl h (Suc k) s =
     integrate_steps lm normal p pl h k (mock_integrate lm normal p pl h s)"

text \<open>How long a call simulates, and in how many steps.\<close>

definition simulated_time :: "mock_params \<Rightarrow> f64 \<Rightarrow> f64" where
  "simulated_time p period = f64_mul (f64_min period (max_cycle_dt p)) (sim_speed p)"

definition substeps :: "mock_params \<Rightarrow> f64 \<Rightarrow> int option" where
  "substeps p dt_sim = do {
     n \<leftarrow> to_int (f64_ceil (f64_div dt_sim (max_substep p)));
     Some (if n < 1 then 1 else if max_substeps p < n then max_substeps p else n)
   }"

text \<open>\<open>cmd\<close> is what \<open>get_optional\<close> returns, \<open>period\<close> the period in seconds.\<close>

definition mock_take_command :: "f64 option \<Rightarrow> mock_state \<Rightarrow> mock_state" where
  "mock_take_command cmd s =
     (case cmd of
        Some c \<Rightarrow> if \<not> isnan c then s\<lparr>hw_command := c\<rparr> else s
      | None \<Rightarrow> s)"

definition mock_read ::
  "libm \<Rightarrow> (nat \<Rightarrow> f64) \<Rightarrow> mock_params \<Rightarrow> mock_plant \<Rightarrow> f64 option \<Rightarrow> f64 \<Rightarrow> mock_state
     \<Rightarrow> (return_type \<times> mock_state) option" where
  "mock_read lm normal p pl cmd period s =
     (let s = mock_take_command cmd s
      in if \<not> f64_lt 0 period then Some (RT_OK, s)
         else do {
           let dt_sim = simulated_time p period;
           n \<leftarrow> substeps p dt_sim;
           let h = f64_div dt_sim (int_to_double n);
           Some (RT_OK, publish_states normal p pl dt_sim (integrate_steps lm normal p pl h (nat n) s))
         })"

definition mock_write :: "mock_state \<Rightarrow> return_type \<times> mock_state" where
  "mock_write s = (RT_OK, s)"

end
