(* ===== verification/Float_Sign.thy ===== *)
theory Float_Sign
  imports Float_Order
begin

text \<open>
  Signs, magnitudes and bounds of doubles: negation and absolute value on the order of the patterns,
  products with a factor of at most one, remainders of a full turn. Shared by the controller and the
  simulated hardware.
\<close>

section \<open>Signs and magnitudes of doubles\<close>

lemma f64_key_Infinite: "f64_key (to_f64 (Infinite s)) = (if s then - 1 else 1) * (2047 * 2 ^ 52)"
proof -
  have "unat (to_f64 (Infinite s)) = (if s then 2 ^ 63 else 0) + 2047 * 2 ^ 52"
    by (simp add: unat_to_f64 fp_encode_def sign_bit_def inf_bits_def binary64_def)
  from f64_key_parts [OF this] show ?thesis by simp
qed

lemma f64_key_neg: "\<not> isnan x \<Longrightarrow> f64_key (f64_neg x) = - f64_key x"
proof -
  assume x: "\<not> isnan x"
  then have eq: "x = to_f64 (of_f64 x)" by (simp add: to_f64_of_f64)
  show ?thesis
  proof (cases "of_f64 x")
    case NaN
    with x show ?thesis by (simp add: isnan_def)
  next
    case (Infinite s)
    have "f64_key (f64_neg x) = - f64_key (to_f64 (of_f64 x))"
      unfolding f64_neg_def Infinite fp_neg.simps f64_key_Infinite by simp
    with eq show ?thesis by simp
  next
    case (Fin s m e)
    have "f64_key (f64_neg x) = - f64_key (to_f64 (of_f64 x))"
      unfolding f64_neg_def Fin fp_neg.simps f64_key_to_f64 by simp
    with eq show ?thesis by simp
  qed
qed

lemma isnan_neg: "isnan (f64_neg x) \<longleftrightarrow> isnan x"
  by (rule neg_not_NaN)

lemma isfinite_zero: "isfinite 0"
  by (simp add: isfinite_def f64_eval)

lemma isfinite_neg: "isfinite (f64_neg x) \<longleftrightarrow> isfinite x"
proof (cases "isnan x")
  case True
  then show ?thesis using isfinite_not_NaN [of x] isfinite_not_NaN [of "f64_neg x"] by (auto simp: isnan_neg)
next
  case False
  then show ?thesis using f64_key_bound [of x] f64_key_bound [of "f64_neg x"] by (simp add: isnan_neg f64_key_neg)
qed

lemma f64_key_abs: "f64_key (f64_abs x) = int (unat x mod 2 ^ 63)"
proof -
  have "unat (f64_abs x) = unat x mod 2 ^ 63"
    unfolding f64_abs_def by (rule trans [OF unat_of_nat]) simp
  from f64_key_parts [of "f64_abs x" False, OF _ _] this show ?thesis by simp
qed

lemma f64_key_abs_eq: "f64_key (f64_abs u) = \<bar>f64_key u\<bar>"
proof -
  have "\<bar>if b < 2 ^ 63 then int b else - int (b - 2 ^ 63)\<bar> = int (b mod 2 ^ 63)" if "b < 2 ^ 64" for b :: nat
    using that by (auto simp: mod_if)
  moreover have "unat u < 2 ^ 64" using unsigned_less [of u, where 'a = nat] by simp
  ultimately show ?thesis unfolding f64_key_abs by (simp only: f64_key_def [of u] Let_def)
qed

lemma isnan_abs: "isnan (f64_abs x) \<longleftrightarrow> isnan x"
proof -
  have "unat (f64_abs x) = unat x mod 2 ^ 63"
    unfolding f64_abs_def by (rule trans [OF unat_of_nat]) simp
  moreover have "b mod 2 ^ 63 mod 4503599627370496 = b mod 4503599627370496"
    "b mod 2 ^ 63 div 4503599627370496 mod 2048 = b div 4503599627370496 mod 2048" for b :: nat
  proof -
    have d: "(4503599627370496 :: nat) dvd 2 ^ 63" by simp
    show "b mod 2 ^ 63 mod 4503599627370496 = b mod 4503599627370496"
      by (rule mod_mod_cancel [OF d])
    have "(4503599627370496 * q + r) div 4503599627370496 = q" if "r < 4503599627370496" for q r :: nat
      using that by simp
    from this [of "b mod 4503599627370496" "b div 4503599627370496 mod 2048"]
    have "b mod (4503599627370496 * 2048) div 4503599627370496 = b div 4503599627370496 mod 2048"
      unfolding mod_mult2_eq by simp
    then show "b mod 2 ^ 63 div 4503599627370496 mod 2048 = b div 4503599627370496 mod 2048" by simp
  qed
  ultimately show ?thesis
    by (simp add: isnan_def of_f64_def fp_decode_binary64 Let_def)
qed

lemma abs_bounds:
  assumes "\<not> isnan a"
  shows "f64_le (f64_neg (f64_abs a)) 0" "f64_le 0 (f64_abs a)"
    "f64_le (f64_neg (f64_abs a)) (f64_abs a)"
proof -
  have k0: "f64_key 0 = 0" by (simp add: f64_key_def)
  have "\<not> isnan (f64_abs a)" using assms by (simp add: isnan_abs)
  then show "f64_le (f64_neg (f64_abs a)) 0" "f64_le 0 (f64_abs a)"
    "f64_le (f64_neg (f64_abs a)) (f64_abs a)"
    by (simp_all add: f64_le_def isnan_neg isnan_zero f64_key_neg f64_key_abs k0)
qed

lemma f64_key_le_inf: "\<not> isnan x \<Longrightarrow> \<bar>f64_key x\<bar> \<le> 2047 * 2 ^ 52"
proof (cases "isfinite x")
  case True
  assume "\<not> isnan x"
  with f64_key_bound [OF this] True show ?thesis by simp
next
  case False
  assume x: "\<not> isnan x"
  with False obtain s where "of_f64 x = Infinite s" by (cases "of_f64 x") (auto simp: isfinite_def isnan_def)
  then have "x = to_f64 (Infinite s)" using to_f64_of_f64 [OF x] by simp
  then show ?thesis using f64_key_Infinite [of s] by simp
qed

lemma less_is_finite:
  assumes "f64_lt (f64_abs u) x"
  shows "isfinite u"
proof -
  have nan: "\<not> isnan u" "\<not> isnan x" using assms by (auto simp: f64_lt_def isnan_abs)
  have "f64_key (f64_abs u) < 2047 * 2 ^ 52"
    using assms f64_key_le_inf [OF nan(2)] unfolding f64_lt_def by linarith
  moreover have "f64_key (f64_abs u) = \<bar>f64_key u\<bar>" by (rule f64_key_abs_eq)
  ultimately show ?thesis using f64_key_bound [OF nan(1)] by simp
qed

lemma mul_zero:
  assumes "isfinite u"
  shows "f64_eq (f64_mul u 0) 0"
proof -
  obtain s m e where u: "of_f64 u = Fin s m e" using assms by (auto simp: isfinite_iff)
  have z: "of_f64 0 = Fin False 0 (- 1074)" by (simp add: of_f64_def fp_decode_binary64 Let_def)
  have "rounded binary64 0 k = 0" for k by (simp add: rounded_def mant_exp_def round_shift_def)
  then show ?thesis
    by (simp add: f64_eq_def f64_mul_def u z f64_key_to_f64 isnan_zero) (simp add: f64_key_def)
qed

lemma div_self:
  assumes "of_f64 x = Fin s m e" "m \<noteq> 0"
  shows "f64_div x x = 0x3FF0000000000000"
proof -
  let ?k = "56 + nat_bits m"
  have "fp_div (of_f64 x) (of_f64 x) = Fin False (1 * 2 ^ Suc ?k) (0 - int (Suc ?k))"
    using assms power_Suc [of "2 :: nat" ?k] by (simp add: Let_def del: power_Suc)
  then have "f64_div x x = to_f64 (Fin False 1 0)"
    unfolding f64_div_def to_f64_def by (simp only: fp_encode_scale [OF one_neq_zero])
  also have "\<dots> = 0x3FF0000000000000" by (simp add: f64_eval)
  finally show ?thesis .
qed

lemma no_ramp_left:
  assumes "0 < n" "n < 2 ^ 53"
  shows "f64_sub (dec 1 0) (f64_div (int_to_double n) (int_to_double n)) = 0"
proof -
  obtain s m e where f: "of_f64 (int_to_double n) = Fin s m e" "units (Fin s m e) = n * 2 ^ 1074"
    using int_to_double_units [of n] assms by auto
  have "n * 2 ^ 1074 \<noteq> 0" using assms(1) by simp
  then have "m \<noteq> 0" using f(2) by (intro notI) (simp add: units_Fin)
  from div_self [OF f(1) this] have a: "f64_div (int_to_double n) (int_to_double n) = 0x3FF0000000000000" .
  have b: "dec 1 0 = 0x3FF0000000000000" by (simp add: dec_def f64_eval)
  show ?thesis unfolding a b by (simp add: f64_sub_def f64_eval scaled_def)
qed

lemma clamp_of_zero:
  assumes "f64_eq v 0" "f64_le lo 0" "f64_le 0 hi"
  shows "f64_clamp v lo hi = v"
  using assms by (auto simp: f64_clamp_def f64_lt_def f64_eq_def f64_le_def)

lemma double_gt:
  assumes "isfinite x" "f64_lt 0 x"
  shows "f64_lt x (f64_mul (dec 2 0) x)"
proof -
  obtain s m e where x: "of_f64 x = Fin s m e" using assms(1) by (auto simp: isfinite_iff)
  have xe: "x = to_f64 (Fin s m e)" using to_f64_of_f64 [of x] x by (simp add: isnan_def)
  have k0: "f64_key 0 = 0" by (simp add: f64_key_def)
  have pos: "0 < f64_key x" using assms(2) by (simp add: f64_lt_def k0)
  have kx: "f64_key x = (if s then - 1 else 1) * int (min (rounded binary64 m e) (inf_bits binary64))"
    by (subst xe) (rule f64_key_to_f64)
  have s: "\<not> s" using pos kx by auto
  have fin: "rounded binary64 m e < inf_bits binary64"
  proof -
    have "f64_key x < 2047 * 2 ^ 52" using f64_key_bound [of x] assms(1) isfinite_not_NaN by auto
    then show ?thesis using kx s by (simp add: inf_bits_def binary64_def min_def split: if_splits)
  qed
  have m0: "m \<noteq> 0"
  proof
    assume "m = 0"
    then have "rounded binary64 m e = 0" by (simp add: rounded_def mant_exp_def round_shift_def)
    with pos kx show False by simp
  qed
  have d: "dec 2 0 = 0x4000000000000000" by (simp add: dec_def f64_eval)
  have "of_f64 0x4000000000000000 = Fin False (2 ^ 52) (- 51)" by (simp add: of_f64_def fp_decode_binary64 Let_def)
  then have p: "f64_mul (dec 2 0) x = to_f64 (Fin False (m * 2 ^ 52) (e + 1 - int 52))"
    using s by (simp add: f64_mul_def d x mult.commute)
  have "rounded binary64 (m * 2 ^ 52) (e + 1 - int 52) = rounded binary64 m (e + 1)"
    by (rule rounded_scale [OF m0])
  moreover have "rounded binary64 m e < rounded binary64 m (e + 1)"
  proof -
    have bits: "m < 2 ^ Suc (frac_bits binary64)" "- 1074 \<le> e"
      using fp_decode_bounds(1,2) [of binary64 "unat x" s m e] x by (simp_all add: of_f64_def)
    then have nb: "nat_bits m \<le> 53" by (intro nat_bits_le) (simp add: binary64_def)
    show ?thesis
    proof (cases "nat_bits m = 53 \<and> - 1074 < e \<or> nat_bits m = 53")
      case True
      then have "mant_exp binary64 m e = e" "mant_exp binary64 m (e + 1) = e + 1"
        using bits(2) m0 by (auto simp: mant_exp_binary64)
      then show ?thesis using bits(2) by (simp add: rounded_def nat_add_distrib round_shift_def)
    next
      case False
      then have small: "nat_bits m \<le> 52" using nb by simp
      show ?thesis
      proof (cases "e = - 1074")
        case True
        then have "mant_exp binary64 m e = - 1074" "mant_exp binary64 m (e + 1) = - 1074"
          using small m0 by (auto simp: mant_exp_binary64)
        then show ?thesis using True m0 by (simp add: rounded_def round_shift_def)
      next
        case e: False
        then have "m = 2 ^ frac_bits binary64 + unat x mod 2 ^ frac_bits binary64"
          using x bits(2) by (auto simp: of_f64_def fp_decode_def Let_def split: if_splits)
        then have "2 ^ 52 \<le> m" by (simp add: binary64_def)
        from nat_bits_ge [OF this] small show ?thesis by simp
      qed
    qed
  qed
  ultimately have "f64_key x < f64_key (f64_mul (dec 2 0) x)"
    unfolding p f64_key_to_f64 kx using s fin by (simp add: min_def)
  then show ?thesis using assms(2) by (simp add: f64_lt_def p)
qed

section \<open>Bounds around zero\<close>

definition inside :: "f64 \<Rightarrow> f64 \<Rightarrow> bool" where
  "inside L x \<longleftrightarrow> isnan x \<or> f64_le (f64_neg L) x \<and> f64_le x L"

lemma inside_key:
  assumes "\<not> isnan L"
  shows "inside L x \<longleftrightarrow> isnan x \<or> \<bar>f64_key x\<bar> \<le> f64_key L"
  using assms by (auto simp: inside_def f64_le_def f64_key_neg isnan_neg)

lemma inside_clamp:
  assumes "\<not> isnan a"
  shows "inside (f64_abs a) (f64_clamp v (f64_neg (f64_abs a)) (f64_abs a))"
  using f64_clamp_bounds [OF abs_bounds(3) [OF assms], of v] f64_clamp_NaN [of v]
  by (cases "isnan v") (auto simp: inside_def)

lemma inside_zero: "\<not> isnan a \<Longrightarrow> inside (f64_abs a) 0"
  by (simp add: inside_def abs_bounds)

lemma inside_abs_ends:
  "\<not> isnan a \<Longrightarrow> inside (f64_abs a) (f64_abs a)"
  "\<not> isnan a \<Longrightarrow> inside (f64_abs a) (f64_neg (f64_abs a))"
  using abs_bounds(3) [of a] by (simp_all add: inside_def f64_le_refl isnan_abs isnan_neg)

lemma mul_shrinks:
  assumes r: "of_f64 r = Fin t n g" "n * 2 ^ nat (g + 1074) \<le> 2 ^ 1074"
  shows "isnan (f64_mul r v) \<or> \<bar>f64_key (f64_mul r v)\<bar> \<le> \<bar>f64_key v\<bar>"
proof (cases "of_f64 v")
  case NaN
  then show ?thesis using r(1) by (simp add: f64_mul_def)
next
  case (Infinite s)
  then have v: "v = to_f64 (Infinite s)" using to_f64_of_f64 [of v] by (simp add: isnan_def)
  show ?thesis
  proof (cases "n = 0")
    case True
    then show ?thesis by (simp add: f64_mul_def r(1) Infinite)
  next
    case False
    then have "f64_mul r v = to_f64 (Infinite (t \<noteq> s))" by (simp add: f64_mul_def r(1) Infinite)
    then show ?thesis using f64_key_Infinite [of s] f64_key_Infinite [of "t \<noteq> s"] v by simp
  qed
next
  case (Fin s m e)
  then have v: "v = to_f64 (Fin s m e)" using to_f64_of_f64 [of v] by (simp add: isnan_def)
  have p: "f64_mul r v = to_f64 (Fin (t \<noteq> s) (n * m) (g + e))" by (simp add: f64_mul_def r(1) Fin)
  have "rounded binary64 (n * m) (g + e) \<le> rounded binary64 m e"
  proof (cases "n = 0 \<or> m = 0")
    case True
    then have "rounded binary64 (n * m) (g + e) = 0"
      by (auto simp: rounded_def mant_exp_def round_shift_def)
    then show ?thesis by simp
  next
    case False
    have g: "- 1074 \<le> g" by (rule of_f64_exponent [OF r(1)])
    have "g \<le> 0"
    proof (rule ccontr)
      assume "\<not> g \<le> 0"
      then have "(2 :: nat) ^ 1075 \<le> 2 ^ nat (g + 1074)" by (intro power_increasing) auto
      also have "\<dots> \<le> n * 2 ^ nat (g + 1074)" using False by simp
      also have "\<dots> \<le> 2 ^ 1074" by (rule r(2))
      finally show False by simp
    qed
    define j where "j = nat (- g)"
    define a where "a = nat (g + 1074)"
    have j: "g = - int j" "1074 = j + a" using g \<open>g \<le> 0\<close> by (simp_all add: j_def a_def)
    have "n * 2 ^ a \<le> 2 ^ j * 2 ^ a" using r(2) unfolding a_def [symmetric] j(2) by (simp only: power_add)
    then have "n \<le> 2 ^ j" by simp
    then have "rounded binary64 (n * m) (g + e) \<le> rounded binary64 (m * 2 ^ j) (g + e)"
      by (intro rounded_mono) (simp add: mult.commute)
    also have "\<dots> = rounded binary64 m e" using rounded_scale [of m binary64 j e] False j(1) by simp
    finally show ?thesis .
  qed
  moreover have "f64_key v = (if s then - 1 else 1) * int (min (rounded binary64 m e) (inf_bits binary64))"
    using f64_key_to_f64 [of s m e] v by simp
  ultimately show ?thesis unfolding p by (simp add: f64_key_to_f64 min_def)
qed

text \<open>A factor of a magnitude of at most one keeps a value inside its bounds.\<close>

lemma inside_mul:
  assumes L: "\<not> isnan L" "inside L v" and r: "f64_le (f64_neg (dec 1 0)) r" "f64_le r (dec 1 0)"
  shows "inside L (f64_mul r v)"
proof (cases "isnan v")
  case True
  then show ?thesis by (simp add: inside_def isnan_ops)
next
  case False
  have one: "dec 1 0 = 0x3FF0000000000000" by (simp add: dec_def f64_eval)
  have mone: "f64_neg 0x3FF0000000000000 = 0xBFF0000000000000" by (simp add: f64_neg_def f64_eval)
  have of1: "of_f64 0x3FF0000000000000 = Fin False 4503599627370496 (- 52)"
    "of_f64 0xBFF0000000000000 = Fin True 4503599627370496 (- 52)"
    by (simp_all add: of_f64_def fp_decode_binary64 Let_def)
  have u1: "units (Fin False 4503599627370496 (- 52)) = 2 ^ 1074"
    "units (Fin True 4503599627370496 (- 52)) = - (2 ^ 1074)"
    by (simp_all add: units_Fin)
  have nan: "\<not> isnan r" using r(1) by (simp add: f64_le_def)
  have k1: "f64_key 0x3FF0000000000000 = 4607182418800017408"
    "f64_key 0xBFF0000000000000 = - 4607182418800017408" by (simp_all add: f64_key_def)
  have "\<bar>f64_key r\<bar> \<le> 4607182418800017408"
    using r unfolding one mone f64_le_def k1 by linarith
  then have "isfinite r" using f64_key_bound [OF nan] by simp
  then obtain t n g where f: "of_f64 r = Fin t n g" by (auto simp: isfinite_iff)
  have "- (2 ^ 1074) \<le> units (Fin t n g)" "units (Fin t n g) \<le> 2 ^ 1074"
    using units_le [OF r(1) [unfolded one mone] of1(2) f] units_le [OF r(2) [unfolded one] f of1(1)] u1
    by (simp_all only: f of1)
  then have "int (n * 2 ^ nat (g + 1074)) \<le> int (2 ^ 1074)"
    unfolding units_Fin by (cases t) (simp_all only: if_True if_False, simp_all)
  then have "n * 2 ^ nat (g + 1074) \<le> 2 ^ 1074" by (simp only: of_nat_le_iff)
  from mul_shrinks [OF f this, of v] show ?thesis using L False by (auto simp: inside_key)
qed

text \<open>A remainder lies within half the divisor.\<close>

lemma remainder_half:
  assumes y: "of_f64 y = Fin False n (g + 1)" and z: "of_f64 z = Fin False n g" and n: "n \<noteq> 0"
  shows "inside z (f64_remainder x y)"
proof (cases "of_f64 x")
  case NaN
  then show ?thesis by (simp add: inside_def f64_remainder_def)
next
  case (Infinite s)
  then show ?thesis by (simp add: inside_def f64_remainder_def y)
next
  case (Fin s m e)
  note ex = of_f64_exponent [OF Fin] of_f64_exponent [OF y] of_f64_exponent [OF z]
  define k where "k = min e (g + 1)"
  define X where "X = m * 2 ^ nat (e - k)"
  define Y where "Y = n * 2 ^ nat (g + 1 - k)"
  have k: "- 1074 \<le> k" "k \<le> g + 1" using ex by (simp_all add: k_def)
  have Y: "0 < Y" using n by (simp add: Y_def)
  obtain u r where r: "fp_remainder (of_f64 x) (of_f64 y) = Fin u r k" "2 * r \<le> Y"
  proof (cases "Y < 2 * (X mod Y) \<or> (Y = 2 * (X mod Y) \<and> odd (X div Y))")
    case True
    then have "fp_remainder (of_f64 x) (of_f64 y) = Fin (\<not> s) (Y - X mod Y) k"
      using n by (simp add: Fin y Let_def k_def X_def Y_def)
    moreover have "2 * (Y - X mod Y) \<le> Y" using True by auto
    ultimately show ?thesis by (rule that)
  next
    case False
    then have "fp_remainder (of_f64 x) (of_f64 y) = Fin s (X mod Y) k"
      using n by (simp add: Fin y Let_def k_def X_def Y_def)
    moreover have "2 * (X mod Y) \<le> Y" using False by auto
    ultimately show ?thesis by (rule that)
  qed
  have res: "f64_remainder x y = to_f64 (Fin u r k)" by (simp only: f64_remainder_def r(1))
  have zz: "z = to_f64 (Fin False n g)" "f64_neg z = to_f64 (Fin True n g)"
    using to_f64_of_f64 [of z] by (simp_all add: isnan_def f64_neg_def z)
  define R where "R = int r * 2 ^ nat (k + 1074)"
  define Z where "Z = int n * 2 ^ nat (g + 1074)"
  have "int (2 * r) * 2 ^ nat (k + 1074) \<le> int Y * 2 ^ nat (k + 1074)"
    using r(2) by (intro mult_right_mono) (simp_all only: of_nat_le_iff zero_le_power zero_le_numeral)
  moreover have "int Y * 2 ^ nat (k + 1074) = 2 * Z"
  proof -
    have "nat (g + 1 - k) + nat (k + 1074) = Suc (nat (g + 1074))" using ex k by simp
    then have "(2 :: int) ^ nat (g + 1 - k) * 2 ^ nat (k + 1074) = 2 * 2 ^ nat (g + 1074)"
      by (simp only: power_add [symmetric] power_Suc)
    then show ?thesis by (simp add: Y_def Z_def mult.assoc)
  qed
  ultimately have "0 \<le> R" "R \<le> Z" by (simp_all add: R_def)
  then have "units (Fin True n g) \<le> units (Fin u r k)" "units (Fin u r k) \<le> units (Fin False n g)"
    by (cases u; simp add: units_Fin R_def [symmetric] Z_def [symmetric])+
  then have "f64_le (to_f64 (Fin True n g)) (to_f64 (Fin u r k))"
    "f64_le (to_f64 (Fin u r k)) (to_f64 (Fin False n g))"
    using ex k by (simp_all add: to_f64_mono)
  then show ?thesis unfolding inside_def res zz(2) using zz(1) by simp
qed

end
