(* ===== verification/Controller_Properties.thy ===== *)
theory Controller_Properties
  imports Pendulum_Controller Float_Sign
begin

text \<open>
  The pendulum controller over its runs: what it commands is bounded, its modes change only outside
  the band between the catch and the fall angle, and a catch starts from a command of zero.
\<close>

section \<open>Runs\<close>

text \<open>The values a run offers to the command interface, and the controller after it.\<close>

primrec controller_run :: "libm \<Rightarrow> control_input list \<Rightarrow> controller \<Rightarrow> f64 list \<times> controller" where
  "controller_run lm [] c = ([], c)"
| "controller_run lm (i # is) c =
     (case controller_update lm i c of (r, u, c1) \<Rightarrow>
        case controller_run lm is c1 of (us, c2) \<Rightarrow> (u # us, c2))"

lemma mode_transition_keeps [simp]:
  "motor_accel_max (mode_transition i c) = motor_accel_max c"
  "catch_angle (mode_transition i c) = catch_angle c" "fall_angle (mode_transition i c) = fall_angle c"
  "catch_ramp_steps (mode_transition i c) = catch_ramp_steps c"
  by (simp_all add: mode_transition_def)

lemma balance_command_keeps [simp]:
  "motor_accel_max (snd (balance_command i c)) = motor_accel_max c"
  "catch_angle (snd (balance_command i c)) = catch_angle c"
  "fall_angle (snd (balance_command i c)) = fall_angle c"
  "catch_ramp_steps (snd (balance_command i c)) = catch_ramp_steps c"
  "balancing (snd (balance_command i c)) = balancing c"
  by (simp_all add: balance_command_def Let_def)

lemma controller_update_eq:
  "controller_update lm i c =
    (if cin_takes i then RT_OK else RT_ERROR,
     f64_clamp (if balancing (mode_transition i c) then fst (balance_command i (mode_transition i c))
                else swing_command lm i (mode_transition i c))
       (f64_neg (motor_accel_max c)) (motor_accel_max c),
     if balancing (mode_transition i c) then snd (balance_command i (mode_transition i c))
     else mode_transition i c)"
  by (cases "balance_command i (mode_transition i c)")
    (use balance_command_keeps(1) [of i "mode_transition i c"] in
      \<open>auto simp: controller_update_def Let_def split: if_splits\<close>)

lemma controller_update_keeps:
  assumes "controller_update lm i c = (r, u, c')"
  shows "motor_accel_max c' = motor_accel_max c" "catch_angle c' = catch_angle c"
    "fall_angle c' = fall_angle c" "catch_ramp_steps c' = catch_ramp_steps c"
    "balancing c' = balancing (mode_transition i c)"
  using assms by (auto simp: controller_update_eq split: if_splits)

section \<open>What configuration establishes\<close>

definition configured :: "controller \<Rightarrow> bool" where
  "configured c \<longleftrightarrow> 1 \<le> catch_ramp_steps c \<and> catch_ramp_steps c < 2 ^ 31 \<and>
     (\<not> isnan (motor_accel_max c) \<longrightarrow> f64_le (f64_neg (motor_accel_max c)) 0 \<and> f64_le 0 (motor_accel_max c)) \<and>
     (isfinite (catch_angle c) \<and> f64_lt 0 (catch_angle c) \<and> \<not> isnan (fall_angle c) \<longrightarrow>
       f64_lt (catch_angle c) (fall_angle c))"

lemma on_configure_configured:
  assumes "controller_on_configure n c0 = Some (r, c)"
  shows "configured c \<and> r = CB_SUCCESS"
proof -
  have steps: "1 \<le> k \<and> k < 2 ^ 31" if "ramp_steps n = Some k" for k
  proof (cases "n ''catch_ramp_steps''")
    case (Some v)
    then show ?thesis
    proof (cases v)
      case (P_Int i)
      have "sint (word_of_int i :: 32 word) < 2 ^ 31"
        using sint_lt [of "word_of_int i :: 32 word"] by simp
      then show ?thesis using that Some P_Int by (auto simp: ramp_steps_def)
    next
      case (P_Double d)
      then show ?thesis using that Some
        by (auto simp: ramp_steps_def dest!: double_to_int_range)
    qed (use that Some in \<open>simp add: ramp_steps_def\<close>)
  qed (use that in \<open>simp add: ramp_steps_def\<close>)
  obtain ca fa a k where h: "catch_angle c = f64_abs ca" "motor_accel_max c = f64_abs a"
    "fall_angle c = (if f64_le (f64_abs fa) (f64_abs ca) then f64_mul (dec 2 0) (f64_abs ca) else f64_abs fa)"
    "ramp_steps n = Some k" "catch_ramp_steps c = k" "r = CB_SUCCESS"
    using assms by (auto simp: controller_on_configure_def bind_Some_iff Let_def)
  have "f64_lt (catch_angle c) (fall_angle c)"
    if c: "isfinite (catch_angle c)" "f64_lt 0 (catch_angle c)" "\<not> isnan (fall_angle c)"
  proof (cases "f64_le (f64_abs fa) (f64_abs ca)")
    case True
    then show ?thesis using double_gt [OF c(1,2)] h by simp
  next
    case False
    then show ?thesis using c h isfinite_not_NaN by (simp add: f64_lt_iff)
  qed
  then show ?thesis
    using steps [OF h(4)] abs_bounds [of a] h(2,5,6) by (simp add: configured_def isnan_abs)
qed

section \<open>Turns\<close>

text \<open>What configuration established is kept by every turn.\<close>

lemma configured_cong:
  "configured c \<Longrightarrow> motor_accel_max c' = motor_accel_max c \<Longrightarrow> catch_angle c' = catch_angle c \<Longrightarrow>
   fall_angle c' = fall_angle c \<Longrightarrow> catch_ramp_steps c' = catch_ramp_steps c \<Longrightarrow> configured c'"
  by (simp add: configured_def)

lemma controller_run_keeps:
  "controller_run lm is c = (us, c') \<Longrightarrow>
   motor_accel_max c' = motor_accel_max c \<and> catch_angle c' = catch_angle c \<and>
   fall_angle c' = fall_angle c \<and> catch_ramp_steps c' = catch_ramp_steps c"
proof (induction "is" arbitrary: c us c')
  case Nil
  then show ?case by simp
next
  case (Cons i "is")
  obtain r u c1 where u: "controller_update lm i c = (r, u, c1)" by (cases "controller_update lm i c")
  with Cons show ?case using controller_update_keeps [OF u] by (fastforce split: prod.splits)
qed

lemma activated_keeps [simp]:
  "motor_accel_max (snd (controller_on_activate c)) = motor_accel_max c"
  "catch_angle (snd (controller_on_activate c)) = catch_angle c"
  "fall_angle (snd (controller_on_activate c)) = fall_angle c"
  "catch_ramp_steps (snd (controller_on_activate c)) = catch_ramp_steps c"
  by (simp_all add: controller_on_activate_def)

lemma reachable_configured:
  assumes "controller_on_configure n c0 = Some (r, c)"
    "controller_run lm before (snd (controller_on_activate c)) = (us, d)"
  shows "configured d" "motor_accel_max d = motor_accel_max c" "catch_angle d = catch_angle c"
    "fall_angle d = fall_angle c"
  using on_configure_configured [OF assms(1)] controller_run_keeps [OF assms(2)]
  by (auto intro: configured_cong [of c])

lemma update_bounded:
  assumes "configured c" "\<not> isnan (motor_accel_max c)" "controller_update lm i c = (r, u, c')"
  shows "isnan u \<or> f64_le (f64_neg (motor_accel_max c)) u \<and> f64_le u (motor_accel_max c)"
proof -
  let ?M = "motor_accel_max c"
  have M: "f64_le (f64_neg ?M) ?M" using assms(1,2) f64_le_trans by (auto simp: configured_def)
  let ?d = "mode_transition i c"
  have "u = f64_clamp (if balancing ?d then fst (balance_command i ?d) else swing_command lm i ?d)
      (f64_neg ?M) ?M" using assms(3) by (simp add: controller_update_eq)
  then obtain v where "u = f64_clamp v (f64_neg ?M) ?M" by (rule that)
  then show ?thesis using f64_clamp_bounds [OF M, of v] f64_clamp_NaN [of v] by (cases "isnan v") auto
qed

lemma run_bounded:
  "configured c \<Longrightarrow> \<not> isnan (motor_accel_max c) \<Longrightarrow> controller_run lm is c = (us, c') \<Longrightarrow>
   \<forall>u \<in> set us. isnan u \<or> f64_le (f64_neg (motor_accel_max c)) u \<and> f64_le u (motor_accel_max c)"
proof (induction "is" arbitrary: c us c')
  case Nil
  then show ?case by simp
next
  case (Cons i "is")
  obtain r u c1 where u: "controller_update lm i c = (r, u, c1)" by (cases "controller_update lm i c")
  note k = controller_update_keeps [OF u]
  obtain vs c2 where v: "controller_run lm is c1 = (vs, c2)" by (cases "controller_run lm is c1")
  have "configured c1" using configured_cong [OF Cons.prems(1)] k by simp
  with Cons.IH [OF this _ v] update_bounded [OF Cons.prems(1,2) u] Cons.prems u v k
  show ?case by auto
qed

lemma enters_balance:
  "\<not> balancing c \<Longrightarrow> balancing (mode_transition i c) \<Longrightarrow>
   f64_lt (f64_abs (ctl_q2 i)) (catch_angle c) \<and> command_is_safe c i \<and>
   mode_transition i c = c\<lparr>balancing := True, catch_ramp_remaining := catch_ramp_steps c\<rparr>"
  unfolding mode_transition_def
  by (cases "f64_lt (f64_abs (ctl_q2 i)) (catch_angle c) \<and> command_is_safe c i") simp_all

lemma catch_turn:
  assumes c: "configured c" "\<not> isnan (motor_accel_max c)" "\<not> balancing c"
    and u: "controller_update lm i c = (r, u, c')" "balancing c'"
  shows "f64_eq u 0" "f64_lt (f64_abs (ctl_q2 i)) (catch_angle c)" "command_is_safe c i"
    "catch_ramp_remaining c' = catch_ramp_steps c - 1"
proof -
  let ?d = "c\<lparr>balancing := True, catch_ramp_remaining := catch_ramp_steps c\<rparr>"
  have "balancing (mode_transition i c)" using controller_update_keeps(5) [OF u(1)] u(2) by simp
  note e = enters_balance [OF c(3) this]
  show gate: "f64_lt (f64_abs (ctl_q2 i)) (catch_angle c)" "command_is_safe c i" using e by simp_all
  have d: "mode_transition i c = ?d" using e by simp
  have n: "0 < catch_ramp_steps c" "catch_ramp_steps c < 2 ^ 53" using c(1) by (simp_all add: configured_def)
  have cand: "u_lqr_candidate ?d i = u_lqr_candidate c i" by (simp add: u_lqr_candidate_def)
  have "isfinite (u_lqr_candidate c i)" using gate(2) less_is_finite by (auto simp: command_is_safe_def)
  then have z: "f64_eq (f64_mul (u_lqr_candidate c i) 0) 0" by (rule mul_zero)
  have b: "balance_command i ?d = (f64_mul (u_lqr_candidate c i) 0,
      ?d\<lparr>catch_ramp_remaining := catch_ramp_steps c - 1\<rparr>)"
    using n by (simp add: balance_command_def cand no_ramp_left Let_def)
  have M: "f64_le (f64_neg (motor_accel_max c)) 0" "f64_le 0 (motor_accel_max c)"
    using c(1,2) by (auto simp: configured_def)
  show "f64_eq u 0" "catch_ramp_remaining c' = catch_ramp_steps c - 1"
    using u(1) z by (auto simp: controller_update_eq d b clamp_of_zero [OF z M])
qed

lemma balanced_turn:
  assumes "balancing c" "\<not> f64_lt (fall_angle c) (f64_abs (ctl_q2 i))"
    and "controller_update lm i c = (r, u, c')"
  shows "balancing c'" "catch_ramp_remaining c' =
    (if 0 < catch_ramp_remaining c then catch_ramp_remaining c - 1 else catch_ramp_remaining c)"
proof -
  have "mode_transition i c = c" using assms(1,2) by (simp add: mode_transition_def)
  then show "balancing c'" "catch_ramp_remaining c' =
    (if 0 < catch_ramp_remaining c then catch_ramp_remaining c - 1 else catch_ramp_remaining c)"
    using assms(1,3) by (auto simp: controller_update_eq balance_command_def Let_def)
qed

lemma balanced_run:
  "balancing c \<Longrightarrow> 0 \<le> catch_ramp_remaining c \<Longrightarrow>
   \<forall>i \<in> set is. \<not> f64_lt (fall_angle c) (f64_abs (ctl_q2 i)) \<Longrightarrow> controller_run lm is c = (us, c') \<Longrightarrow>
   balancing c' \<and> catch_ramp_remaining c' = max 0 (catch_ramp_remaining c - int (length is))"
proof (induction "is" arbitrary: c us c')
  case Nil
  then show ?case by simp
next
  case (Cons i "is")
  obtain r u c1 where u: "controller_update lm i c = (r, u, c1)" by (cases "controller_update lm i c")
  obtain vs c2 where v: "controller_run lm is c1 = (vs, c2)" by (cases "controller_run lm is c1")
  have i: "\<not> f64_lt (fall_angle c) (f64_abs (ctl_q2 i))" using Cons.prems(3) by simp
  note t = balanced_turn [OF Cons.prems(1) i u]
  have f: "fall_angle c1 = fall_angle c" using controller_update_keeps [OF u] by simp
  have "0 \<le> catch_ramp_remaining c1" using t(2) Cons.prems(2) by simp
  with Cons.IH [OF t(1) this _ v] Cons.prems u v t(2) f show ?case by auto
qed

lemma band_run:
  "\<forall>i \<in> set is. f64_le (catch_angle c) (f64_abs (ctl_q2 i)) \<and> f64_le (f64_abs (ctl_q2 i)) (fall_angle c) \<Longrightarrow>
   controller_run lm is c = (us, c') \<Longrightarrow> balancing c' = balancing c"
proof (induction "is" arbitrary: c us c')
  case Nil
  then show ?case by simp
next
  case (Cons i "is")
  obtain r u c1 where u: "controller_update lm i c = (r, u, c1)" by (cases "controller_update lm i c")
  obtain vs c2 where v: "controller_run lm is c1 = (vs, c2)" by (cases "controller_run lm is c1")
  have i: "f64_le (catch_angle c) (f64_abs (ctl_q2 i))" "f64_le (f64_abs (ctl_q2 i)) (fall_angle c)"
    using Cons.prems(1) by auto
  then have "mode_transition i c = c" by (auto simp: mode_transition_def f64_lt_def f64_le_def)
  with Cons.IH [OF _ v] Cons.prems u v controller_update_keeps [OF u] show ?case by auto
qed

section \<open>Properties\<close>

text \<open>C18: from \<open>on_configure\<close> and \<open>on_activate\<close> on, whatever the state interfaces show, every value the
  controller offers to the command interface is a NaN or within \<open>motor_accel_max\<close> of zero, in both
  modes and whatever sign the parameter was given.\<close>

theorem controller_commands_bounded:
  assumes "controller_on_configure n c0 = Some (r, c)" and "as_double n ''motor_accel_max'' = Some a"
    and "\<not> isnan a" and "controller_run lm is (snd (controller_on_activate c)) = (us, c')"
  shows "\<forall>u \<in> set us. isnan u \<or> f64_le (f64_neg (f64_abs a)) u \<and> f64_le u (f64_abs a)"
proof -
  have M: "motor_accel_max c = f64_abs a"
    using assms(1,2) by (auto simp: controller_on_configure_def bind_Some_iff Let_def)
  have "configured (snd (controller_on_activate c))"
    using on_configure_configured [OF assms(1)] by (auto intro: configured_cong [of c])
  from run_bounded [OF this _ assms(4)] show ?thesis using M assms(3) by (simp add: isnan_abs)
qed

text \<open>C19: the modes cannot chatter. For a finite non-zero catch angle, configuration leaves the fall
  angle strictly above it, whatever was asked for; and from any state of a run, as long as the
  magnitude of the angle stays in the closed band between the two, both ends included, the mode does
  not change. At the catch angle itself the controller therefore does not catch: it compares with
  \<open><\<close>, where the comment at the top of its source says \<open><=\<close>.\<close>

theorem controller_mode_hysteresis:
  assumes conf: "controller_on_configure n c0 = Some (r, c)"
    and angles: "as_double n ''catch_angle'' = Some ca" "isfinite ca" "\<not> f64_eq ca 0"
      "as_double n ''fall_angle'' = Some fa" "\<not> isnan fa"
    and run: "controller_run lm before (snd (controller_on_activate c)) = (us, d)"
    and band: "\<forall>i \<in> set is. f64_le (catch_angle c) (f64_abs (ctl_q2 i)) \<and>
      f64_le (f64_abs (ctl_q2 i)) (fall_angle c)"
  shows "f64_lt (catch_angle c) (fall_angle c) \<and>
    balancing (snd (controller_run lm is d)) = balancing d"
proof -
  have a: "catch_angle c = f64_abs ca"
    "fall_angle c = (if f64_le (f64_abs fa) (f64_abs ca) then f64_mul (dec 2 0) (f64_abs ca) else f64_abs fa)"
    using conf angles by (auto simp: controller_on_configure_def bind_Some_iff Let_def)
  have nan: "\<not> isnan ca" using angles(2) isfinite_not_NaN by simp
  have k0: "f64_key 0 = 0" by (simp add: f64_key_def)
  have key: "f64_key (f64_abs ca) = \<bar>f64_key ca\<bar>" by (rule f64_key_abs_eq)
  have fin: "isfinite (catch_angle c)"
    using f64_key_bound [of ca] f64_key_bound [of "f64_abs ca"] angles(2) nan key by (simp add: a isnan_abs)
  have pos: "f64_lt 0 (catch_angle c)"
    using angles(3) nan key k0 by (simp add: a f64_lt_def f64_eq_def isnan_abs isnan_zero)
  have "f64_lt (catch_angle c) (fall_angle c)"
  proof (cases "f64_le (f64_abs fa) (f64_abs ca)")
    case True
    then show ?thesis using double_gt [OF fin pos] a by simp
  next
    case False
    then show ?thesis using a nan angles(5) by (simp add: f64_lt_iff isnan_abs)
  qed
  moreover have "balancing (snd (controller_run lm is d)) = balancing d"
    using band_run [of "is" d lm] band reachable_configured [OF conf run]
    by (cases "controller_run lm is d") auto
  ultimately show ?thesis ..
qed

text \<open>C20: a catch is smooth. The turn that enters balance mode was allowed by the angle and by the
  command gate, and commands exactly zero, whatever the gains; from then on, while the pendulum stays
  within the fall angle, the controller stays in balance mode and every turn takes one step off the
  ramp, until none is left.\<close>

theorem controller_catch_is_smooth:
  assumes conf: "controller_on_configure n c0 = Some (r, c)" "\<not> isnan (motor_accel_max c)"
    and run: "controller_run lm before (snd (controller_on_activate c)) = (us, d)" "\<not> balancing d"
    and catch: "controller_update lm i d = (r', u, d')" "balancing d'"
    and upright: "\<forall>j \<in> set is. \<not> f64_lt (fall_angle c) (f64_abs (ctl_q2 j))"
  shows "f64_eq u 0 \<and> f64_lt (f64_abs (ctl_q2 i)) (catch_angle c) \<and> command_is_safe d i \<and>
    balancing (snd (controller_run lm is d')) \<and>
    catch_ramp_remaining (snd (controller_run lm is d')) =
      max 0 (catch_ramp_steps d - 1 - int (length is))"
proof -
  note r = reachable_configured [OF conf(1) run(1)]
  have M: "\<not> isnan (motor_accel_max d)" using conf(2) r(2) by simp
  note t = catch_turn [OF r(1) M run(2) catch]
  have "1 \<le> catch_ramp_steps d" using r(1) by (simp add: configured_def)
  then have "0 \<le> catch_ramp_remaining d'" using t(4) by simp
  moreover have "fall_angle d' = fall_angle c" using controller_update_keeps [OF catch(1)] r(4) by simp
  ultimately show ?thesis
    using balanced_run [OF catch(2), of "is" lm] upright t r(3)
    by (cases "controller_run lm is d'") auto
qed

text \<open>the parameter \<open>k_e\<close>, declared, read, documented as the gain of the energy pump and reported
  in the configuration file, has no effect: with any other value every update gives the same result
  and the same command.\<close>

theorem controller_ignores_k_e:
  "controller_update lm i (c\<lparr>k_e := x\<rparr>) =
     (case controller_update lm i c of (r, u, c') \<Rightarrow> (r, u, c'\<lparr>k_e := x\<rparr>))"
proof -
  have "u_lqr_candidate (c\<lparr>k_e := x\<rparr>) i = u_lqr_candidate c i" for c
    by (simp add: u_lqr_candidate_def)
  note lqr = this
  have mode: "mode_transition i (c\<lparr>k_e := x\<rparr>) = (mode_transition i c)\<lparr>k_e := x\<rparr>" for c
    by (simp add: mode_transition_def command_is_safe_def lqr)
  have bal: "balance_command i (d\<lparr>k_e := x\<rparr>) = apsnd (\<lambda>c. c\<lparr>k_e := x\<rparr>) (balance_command i d)" for d
    by (simp add: balance_command_def lqr Let_def)
  have swing: "swing_command lm i (d\<lparr>k_e := x\<rparr>) = swing_command lm i d" for d
    by (simp add: swing_command_def Let_def)
  show ?thesis by (simp add: controller_update_eq mode bal swing)
qed

section \<open>The types of the parameters\<close>

text \<open>What the members hold once configured: a count of at least one turn, a remaining count within it,
  magnitudes that are not negative, a fraction between 0.05 and 1.\<close>

definition magnitudes :: "controller \<Rightarrow> f64 list" where
  "magnitudes c = [ctl_m2 c, ctl_l2 c, ctl_L1 c, ctl_J2 c, ctl_g c, k_arm c, k_arm_vel c,
     swing_accel_max c, arm_zone c, swing_start_vel c, catch_angle c, motor_accel_max c]"

definition not_negative :: "f64 \<Rightarrow> bool" where
  "not_negative x \<longleftrightarrow> isnan x \<or> f64_le 0 x"

definition well_typed :: "controller \<Rightarrow> bool" where
  "well_typed c \<longleftrightarrow> 1 \<le> catch_ramp_steps c \<and> catch_ramp_steps c < 2 ^ 31 \<and>
     0 \<le> catch_ramp_remaining c \<and> catch_ramp_remaining c \<le> catch_ramp_steps c \<and>
     list_all not_negative (magnitudes c) \<and>
     (isnan (catch_cmd_fraction c) \<or>
       f64_le (dec 5 2) (catch_cmd_fraction c) \<and> f64_le (catch_cmd_fraction c) (dec 1 0))"

lemma two_ifs: "(if P then x else if Q then y else z) \<in> {x, y, z}"
  by simp

lemma mode_changes:
  "\<exists>b n. mode_transition i c = c\<lparr>balancing := b, catch_ramp_remaining := n\<rparr> \<and>
     n \<in> {catch_ramp_remaining c, catch_ramp_steps c}"
proof -
  have same: "c = c\<lparr>balancing := balancing c, catch_ramp_remaining := catch_ramp_remaining c\<rparr>" by simp
  have off: "c\<lparr>balancing := False\<rparr> = c\<lparr>balancing := False, catch_ramp_remaining := catch_ramp_remaining c\<rparr>"
    by simp
  have "mode_transition i c \<in> {c\<lparr>balancing := True, catch_ramp_remaining := catch_ramp_steps c\<rparr>,
      c\<lparr>balancing := False\<rparr>, c}"
    unfolding mode_transition_def by (rule two_ifs)
  then show ?thesis using same off unfolding insert_iff empty_iff by metis
qed

lemma update_changes:
  assumes "0 \<le> catch_ramp_remaining c" "catch_ramp_remaining c \<le> catch_ramp_steps c"
  shows "\<exists>b k. snd (snd (controller_update lm i c)) = c\<lparr>balancing := b, catch_ramp_remaining := k\<rparr> \<and>
     0 \<le> k \<and> k \<le> catch_ramp_steps c"
proof -
  obtain b n where d: "mode_transition i c = c\<lparr>balancing := b, catch_ramp_remaining := n\<rparr>"
    and n: "0 \<le> n" "n \<le> catch_ramp_steps c"
    using mode_changes [of i c] assms by auto
  have "snd (balance_command i (c\<lparr>balancing := b, catch_ramp_remaining := n\<rparr>)) =
      c\<lparr>balancing := b, catch_ramp_remaining := if 0 < n then n - 1 else n\<rparr>"
    by (simp add: balance_command_def Let_def)
  then have "snd (snd (controller_update lm i c)) =
      c\<lparr>balancing := b, catch_ramp_remaining := if b \<and> 0 < n then n - 1 else n\<rparr>"
    by (cases b) (simp_all add: controller_update_eq d)
  then show ?thesis using n
    by (intro exI [of _ b] exI [of _ "if b \<and> 0 < n then n - 1 else n"]) simp
qed

lemma update_well_typed:
  assumes "well_typed c" "controller_update lm i c = (r, u, c')"
  shows "well_typed c'"
proof -
  have "0 \<le> catch_ramp_remaining c" "catch_ramp_remaining c \<le> catch_ramp_steps c"
    using assms(1) by (simp_all add: well_typed_def)
  from update_changes [OF this, of lm i] obtain b k
    where "c' = c\<lparr>balancing := b, catch_ramp_remaining := k\<rparr>" "0 \<le> k" "k \<le> catch_ramp_steps c"
    unfolding assms(2) snd_conv by (elim exE conjE) (rule that)
  then show ?thesis using assms(1) by (simp add: well_typed_def magnitudes_def)
qed

lemma run_well_typed: "well_typed c \<Longrightarrow> well_typed (snd (controller_run lm is c))"
proof (induction "is" arbitrary: c)
  case Nil
  then show ?case by simp
next
  case (Cons i "is")
  obtain r u c1 where u: "controller_update lm i c = (r, u, c1)" by (cases "controller_update lm i c")
  from Cons.IH [OF update_well_typed [OF Cons.prems u]] u show ?case
    by (cases "controller_run lm is c1") simp
qed

lemma on_activate_well_typed:
  assumes "controller_on_configure n c0 = Some (r, c)"
  shows "well_typed (snd (controller_on_activate c))"
proof -
  let ?d = "snd (controller_on_activate c)"
  have abs: "not_negative (f64_abs x)" for x
    using abs_bounds(2) [of x] by (cases "isnan x") (simp_all add: isnan_abs not_negative_def)
  have m: "list_all not_negative (magnitudes ?d)"
    using assms by (auto simp: controller_on_configure_def bind_Some_iff Let_def magnitudes_def
        controller_on_activate_def abs)
  have le: "f64_le (dec 5 2) (dec 1 0)"
  proof -
    have d: "dec 5 2 = 0x3FA999999999999A" "dec 1 0 = 0x3FF0000000000000"
      by (simp_all add: dec_def f64_eval)
    show ?thesis unfolding d by (simp add: f64_le_def f64_key_def isnan_def f64_eval)
  qed
  obtain v where v: "catch_cmd_fraction ?d = f64_clamp v (dec 5 2) (dec 1 0)"
    using assms by (auto simp: controller_on_configure_def bind_Some_iff Let_def controller_on_activate_def)
  have f: "isnan (catch_cmd_fraction ?d) \<or>
      f64_le (dec 5 2) (catch_cmd_fraction ?d) \<and> f64_le (catch_cmd_fraction ?d) (dec 1 0)"
    using f64_clamp_bounds [OF le, of v] f64_clamp_NaN [of v] v by (cases "isnan v") auto
  have s: "1 \<le> catch_ramp_steps ?d" "catch_ramp_steps ?d < 2 ^ 31" "catch_ramp_remaining ?d = 0"
    using on_configure_configured [OF assms] by (simp_all add: configured_def controller_on_activate_def)
  show ?thesis unfolding well_typed_def using m f s by simp
qed

text \<open>C21: the members keep the types the configuration gives them: from \<open>on_configure\<close> and \<open>on_activate\<close>
  on, in every state of a run, the ramp has at least one turn and what remains of it lies within it,
  no magnitude is negative whatever sign its parameter had, and the fraction of the catch gate lies
  between 0.05 and 1 (a NaN parameter stays a NaN).\<close>

theorem controller_run_well_typed:
  assumes "controller_on_configure n c0 = Some (r, c)"
  shows "well_typed (snd (controller_run lm is (snd (controller_on_activate c))))"
  by (rule run_well_typed) (rule on_activate_well_typed [OF assms])

section \<open>The contract of the controller\<close>

text \<open>What a loop around the controller relies on, for a limit \<open>a\<close> that is not a NaN.\<close>

definition ctl_bounded :: "f64 \<Rightarrow> controller \<Rightarrow> bool" where
  "ctl_bounded a c \<longleftrightarrow> \<not> isnan a \<and> configured c \<and> well_typed c \<and> motor_accel_max c = f64_abs a"

lemma ctl_bounded_update:
  assumes "ctl_bounded a c" "controller_update lm m c = (r, u, c')"
  shows "ctl_bounded a c' \<and> inside (f64_abs a) u"
proof -
  note k = controller_update_keeps [OF assms(2)]
  have c: "\<not> isnan a" "configured c" "well_typed c" "motor_accel_max c = f64_abs a"
    using assms(1) by (simp_all add: ctl_bounded_def)
  have "\<not> isnan (motor_accel_max c)" using c by (simp add: isnan_abs)
  from update_bounded [OF c(2) this assms(2)] c(4) have "inside (f64_abs a) u" by (simp add: inside_def)
  moreover have "configured c'" by (rule configured_cong [OF c(2)]) (simp_all add: k)
  moreover have "well_typed c'" by (rule update_well_typed [OF c(3) assms(2)])
  ultimately show ?thesis using c(1,4) k(1) by (simp add: ctl_bounded_def)
qed

lemma controller_activated_bounded:
  assumes "controller_on_configure n c0 = Some (r, c)" "as_double n ''motor_accel_max'' = Some a" "\<not> isnan a"
  shows "ctl_bounded a (snd (controller_on_activate c))"
proof -
  have "motor_accel_max c = f64_abs a"
    using assms(1,2) by (auto simp: controller_on_configure_def bind_Some_iff Let_def)
  moreover have "configured (snd (controller_on_activate c))"
    using on_configure_configured [OF assms(1)] by (auto intro: configured_cong [of c])
  ultimately show ?thesis
    using on_activate_well_typed [OF assms(1)] assms(3) by (simp add: ctl_bounded_def)
qed

section \<open>A sample node\<close>

definition sample_node :: node_parameters where
  "sample_node name =
     (if name = ''catch_ramp_steps'' then Some (P_Int 3)
      else if name \<in> {''motor_joint_state_name'', ''motor_joint_vel_name'', ''pendulum_joint_state_name'',
        ''pendulum_joint_vel_name'', ''motor_joint_command_name''} then Some (P_String name)
      else Some (P_Double (if name = ''catch_angle'' then 0x3FE0000000000000
        else if name = ''catch_cmd_fraction'' then 0x3FE8000000000000
        else if name = ''motor_accel_max'' then 0xC014000000000000 else 0)))"

abbreviation sample_configured :: "(CallbackReturn_t \<times> controller) option" where
  "sample_configured \<equiv> controller_on_configure sample_node initial_controller"

abbreviation sample_libm :: libm where
  "sample_libm \<equiv> \<lparr>lm_sin = \<lambda>x. x, lm_cos = \<lambda>x. x, lm_tanh = \<lambda>x. x\<rparr>"

definition at_rest :: "f64 \<Rightarrow> control_input" where
  "at_rest q2 = \<lparr>cin_q1 = None, cin_q1d = None, cin_q2 = Some q2, cin_q2d = None, cin_takes = True\<rparr>"

lemma sample_parameters:
  "as_double sample_node ''motor_accel_max'' = Some 0xC014000000000000"
  "as_double sample_node ''catch_angle'' = Some 0x3FE0000000000000"
  "as_double sample_node ''fall_angle'' = Some 0"
  by (simp_all add: as_double_def sample_node_def)

lemma sample_configures:
  "\<exists>c. sample_configured = Some (CB_SUCCESS, c) \<and> motor_accel_max c = 0x4014000000000000 \<and>
     catch_angle c = 0x3FE0000000000000 \<and> catch_cmd_fraction c = 0x3FE8000000000000 \<and>
     k_q1 c = 0 \<and> k_q1_vel c = 0 \<and> k_q2 c = 0 \<and> k_q2_vel c = 0 \<and>
     fall_angle c = 0x3FF0000000000000 \<and> catch_ramp_steps c = 3"
proof -
  have d: "dec 5 2 = 0x3FA999999999999A" "dec 1 0 = 0x3FF0000000000000" "dec 2 0 = 0x4000000000000000"
    by (simp_all add: dec_def f64_eval)
  have a: "f64_abs 0x3FE0000000000000 = 0x3FE0000000000000" "f64_abs 0xC014000000000000 = 0x4014000000000000"
    "f64_abs 0 = 0" by (simp_all add: f64_abs_def)
  have cl: "f64_clamp 0x3FE8000000000000 0x3FA999999999999A 0x3FF0000000000000 = 0x3FE8000000000000"
    by (simp add: f64_clamp_def f64_lt_def f64_key_def)
  have le: "f64_le 0 0x3FE0000000000000"
    by (simp add: f64_le_def f64_key_def isnan_def f64_eval)
  have m: "f64_mul 0x4000000000000000 0x3FE0000000000000 = 0x3FF0000000000000"
    by (simp add: f64_mul_def f64_eval)
  have r: "ramp_steps sample_node = Some 3" by (simp add: ramp_steps_def sample_node_def)
  show ?thesis
    by (simp add: controller_on_configure_def r as_string_def as_double_def sample_node_def a d cl le m Let_def)
qed

theorem controller_commands_bounded_witness:
  "\<exists>c us c'. sample_configured = Some (CB_SUCCESS, c) \<and>
     controller_run sample_libm [at_rest 0, at_rest 0x4000000000000000] (snd (controller_on_activate c)) = (us, c') \<and>
     length us = 2 \<and>
     (\<forall>u \<in> set us. isnan u \<or> f64_le (f64_neg (f64_abs 0xC014000000000000)) u \<and> f64_le u (f64_abs 0xC014000000000000))"
proof -
  obtain c where c: "sample_configured = Some (CB_SUCCESS, c)" using sample_configures by (elim exE conjE) (rule that)
  obtain us c' where r: "controller_run sample_libm [at_rest 0, at_rest 0x4000000000000000]
      (snd (controller_on_activate c)) = (us, c')" by (rule prod.exhaust)
  have "length us = 2" using r by (auto split: prod.splits)
  moreover have "\<not> isnan 0xC014000000000000" by (simp add: isnan_def f64_eval)
  ultimately show ?thesis
    using controller_commands_bounded [OF c sample_parameters(1) _ r] c r
    by (intro exI [of _ c] exI [of _ us] exI [of _ c'] conjI) simp_all
qed

theorem controller_mode_hysteresis_witness:
  "\<exists>c us d. sample_configured = Some (CB_SUCCESS, c) \<and>
     controller_run sample_libm [at_rest 0] (snd (controller_on_activate c)) = (us, d) \<and>
     f64_lt (catch_angle c) (fall_angle c) \<and>
     balancing (snd (controller_run sample_libm [at_rest 0x3FE8000000000000] d)) = balancing d"
proof -
  obtain c where c: "sample_configured = Some (CB_SUCCESS, c)"
    "catch_angle c = 0x3FE0000000000000" "fall_angle c = 0x3FF0000000000000"
    using sample_configures by (elim exE conjE) (rule that)
  obtain us d where r: "controller_run sample_libm [at_rest 0] (snd (controller_on_activate c)) = (us, d)"
    by (rule prod.exhaust)
  have d: "dec 2 0 = 0x4000000000000000" by (simp add: dec_def f64_eval)
  have m: "f64_mul 0x4000000000000000 M_PI = 0x401921FB54442D18" by (simp add: f64_mul_def M_PI_def f64_eval)
  have q: "f64_remainder 0x3FE8000000000000 0x401921FB54442D18 = 0x3FE8000000000000"
    by (simp add: f64_remainder_def f64_eval)
  have "f64_abs (ctl_q2 (at_rest 0x3FE8000000000000)) = 0x3FE8000000000000"
    by (simp add: ctl_q2_def at_rest_def value_or_def d m q f64_abs_def)
  then have band: "\<forall>i \<in> set [at_rest 0x3FE8000000000000]. f64_le (catch_angle c) (f64_abs (ctl_q2 i)) \<and>
      f64_le (f64_abs (ctl_q2 i)) (fall_angle c)"
    by (simp add: c f64_le_def isnan_def f64_eval f64_key_def)
  have n: "isfinite 0x3FE0000000000000" "\<not> f64_eq 0x3FE0000000000000 0" "\<not> isnan 0"
    by (simp_all add: isfinite_def isnan_def f64_eq_def f64_eval f64_key_def)
  from controller_mode_hysteresis [OF c(1) sample_parameters(2) n(1,2) sample_parameters(3) n(3) r band]
  show ?thesis using c(1) r by (intro exI [of _ c] exI [of _ us] exI [of _ d]) simp
qed

lemma at_rest_zero: "ctl_q2 (at_rest 0) = 0" "value_or (cin_q1 (at_rest 0)) = 0"
  "value_or (cin_q1d (at_rest 0)) = 0" "value_or (cin_q2d (at_rest 0)) = 0"
proof -
  have d: "dec 2 0 = 0x4000000000000000" by (simp add: dec_def f64_eval)
  have m: "f64_mul 0x4000000000000000 M_PI = 0x401921FB54442D18" by (simp add: f64_mul_def M_PI_def f64_eval)
  have "f64_remainder 0 0x401921FB54442D18 = 0" by (simp add: f64_remainder_def f64_eval)
  then show "ctl_q2 (at_rest 0) = 0" by (simp add: ctl_q2_def at_rest_def value_or_def d m)
qed (simp_all add: at_rest_def value_or_def)

theorem controller_catch_is_smooth_witness:
  "\<exists>c r' u d'. sample_configured = Some (CB_SUCCESS, c) \<and>
     controller_update sample_libm (at_rest 0) (snd (controller_on_activate c)) = (r', u, d') \<and>
     f64_eq u 0 \<and> balancing (snd (controller_run sample_libm [at_rest 0] d')) \<and>
     catch_ramp_remaining (snd (controller_run sample_libm [at_rest 0] d')) = 1"
proof -
  obtain c where c: "sample_configured = Some (CB_SUCCESS, c)" "motor_accel_max c = 0x4014000000000000"
    "catch_angle c = 0x3FE0000000000000" "catch_cmd_fraction c = 0x3FE8000000000000"
    "k_q1 c = 0" "k_q1_vel c = 0" "k_q2 c = 0" "k_q2_vel c = 0"
    "fall_angle c = 0x3FF0000000000000" "catch_ramp_steps c = 3"
    using sample_configures by (elim exE conjE) (rule that)
  define d where "d = snd (controller_on_activate c)"
  have keep: "motor_accel_max d = motor_accel_max c" "catch_angle d = catch_angle c"
    "catch_cmd_fraction d = catch_cmd_fraction c" "k_q1 d = k_q1 c" "k_q1_vel d = k_q1_vel c"
    "k_q2 d = k_q2 c" "k_q2_vel d = k_q2_vel c" "catch_ramp_steps d = catch_ramp_steps c" "\<not> balancing d"
    by (simp_all add: d_def controller_on_activate_def)
  have run: "controller_run sample_libm [] (snd (controller_on_activate c)) = ([], d)" by (simp add: d_def)
  have z: "f64_mul 0 0 = 0" "f64_add 0 0 = 0" "f64_neg 0 = 0x8000000000000000"
    "f64_mul 0x3FE8000000000000 0x4014000000000000 = 0x400E000000000000"
    by (simp_all add: f64_mul_def f64_add_def f64_neg_def f64_eval scaled_def)
  have a: "f64_abs 0x8000000000000000 = 0" "f64_abs 0 = 0" by (simp_all add: f64_abs_def)
  have lt: "f64_lt 0 0x400E000000000000" "f64_lt 0 0x3FE0000000000000" "\<not> f64_lt 0x3FF0000000000000 0"
    by (simp_all add: f64_lt_def isnan_def f64_eval f64_key_def)
  have safe: "command_is_safe d (at_rest 0)"
    by (simp add: command_is_safe_def u_lqr_candidate_def at_rest_zero keep c z a lt)
  have "balancing (mode_transition (at_rest 0) d)"
    using safe by (simp add: mode_transition_def keep at_rest_zero a c lt)
  moreover obtain r' u d' where u: "controller_update sample_libm (at_rest 0) d = (r', u, d')"
    by (rule prod_cases3)
  ultimately have b: "balancing d'" using controller_update_keeps(5) [OF u] by simp
  have up: "\<forall>j \<in> set [at_rest 0]. \<not> f64_lt (fall_angle c) (f64_abs (ctl_q2 j))"
    by (simp add: at_rest_zero a c lt)
  have M: "\<not> isnan (motor_accel_max c)" by (simp add: c isnan_def f64_eval)
  from controller_catch_is_smooth [OF c(1) M run keep(9) u b up]
  show ?thesis using c(1,10) u d_def keep(8)
    by (intro exI [of _ c] exI [of _ r'] exI [of _ u] exI [of _ d'] conjI) simp_all
qed

theorem controller_run_well_typed_witness:
  "\<exists>c. sample_configured = Some (CB_SUCCESS, c) \<and>
     well_typed (snd (controller_run sample_libm [at_rest 0, at_rest 0] (snd (controller_on_activate c))))"
proof -
  obtain c where c: "sample_configured = Some (CB_SUCCESS, c)"
    using sample_configures by (elim exE conjE) (rule that)
  from controller_run_well_typed [OF c, of sample_libm "[at_rest 0, at_rest 0]"] c show ?thesis
    by (intro exI [of _ c]) simp
qed

end
