(* ===== verification/Mock_Properties.thy ===== *)
theory Mock_Properties
  imports Mock_Pendulum Controller_Properties
begin

text \<open>
  The simulated pendulum over its runs: the arm never leaves its stops nor exceeds its velocity, the
  reported angle is wrapped, a command that is not a number is ignored, activation forgets the run
  before it, the number of steps of a call; and the loop of the controller and the simulation.
\<close>

section \<open>Constants\<close>

lemma kPi_eq: "kPi = M_PI"
  by (simp add: kPi_def M_PI_def dec_def f64_eval)

lemma kTwoPi_eq: "kTwoPi = f64_mul (dec 2 0) M_PI" "f64_mul (dec 2 0) M_PI = 0x401921FB54442D18"
proof -
  have d: "dec 2 0 = 0x4000000000000000" by (simp add: dec_def f64_eval)
  show "kTwoPi = f64_mul (dec 2 0) M_PI" by (simp only: kTwoPi_def kPi_eq)
  show "f64_mul (dec 2 0) M_PI = 0x401921FB54442D18" unfolding d by (simp add: f64_mul_def M_PI_def f64_eval)
qed

lemma not_NaN_pi: "\<not> isnan M_PI"
  by (simp add: isnan_def M_PI_def of_f64_def fp_decode_binary64 Let_def)

lemma remainder_two_pi: "inside M_PI (f64_remainder x (f64_mul (dec 2 0) M_PI))"
proof (rule remainder_half)
  show "of_f64 (f64_mul (dec 2 0) M_PI) = Fin False 7074237752028440 (- 51 + 1)"
    unfolding kTwoPi_eq(2) by (simp add: of_f64_def fp_decode_binary64 Let_def)
  show "of_f64 M_PI = Fin False 7074237752028440 (- 51)"
    by (simp add: M_PI_def of_f64_def fp_decode_binary64 Let_def)
qed simp

lemma wrap_pi_inside: "inside M_PI (wrap_pi a)"
  unfolding wrap_pi_def kTwoPi_eq(1) by (rule remainder_two_pi)

lemma ctl_q2_inside: "inside M_PI (ctl_q2 i)"
  unfolding ctl_q2_def by (rule remainder_two_pi)

section \<open>What a step changes\<close>

lemma draw_keeps [simp]:
  "q1 (snd (draw normal s)) = q1 s" "q1_dot (snd (draw normal s)) = q1_dot s"
  "q2 (snd (draw normal s)) = q2 s" "q2_dot (snd (draw normal s)) = q2_dot s"
  "drawn (snd (draw normal s)) = Suc (drawn s)" "fst (draw normal s) = normal (drawn s)"
  "hw_command (snd (draw normal s)) = hw_command s"
  by (simp_all add: draw_def)

lemma motor_accel_keeps:
  assumes "motor_accel lm normal p pl s = (a, s')"
  shows "q1 s' = q1 s" "q1_dot s' = q1_dot s"
  using assms by (auto simp: motor_accel_def draw_def Let_def split: if_splits)

lemma mock_integrate_arm:
  "\<exists>a s1. q1_dot s1 = q1_dot s \<and> q1 s1 = q1 s \<and>
     (case arm_step p h a s1 of (x, v, hit) \<Rightarrow>
        q1 (mock_integrate lm normal p pl h s) = x \<and> q1_dot (mock_integrate lm normal p pl h s) = v)"
proof -
  obtain a s1 where a: "motor_accel lm normal p pl s = (a, s1)" by (rule prod.exhaust)
  obtain x v hit where x: "arm_step p h a s1 = (x, v, hit)" by (rule prod_cases3)
  have "q1 (mock_integrate lm normal p pl h s) = x \<and> q1_dot (mock_integrate lm normal p pl h s) = v"
    by (simp add: mock_integrate_def a x draw_def Let_def)
  with motor_accel_keeps [OF a] x show ?thesis by (intro exI [of _ a] exI [of _ s1]) simp
qed

lemma mock_integrate_q2: "\<exists>x. q2 (mock_integrate lm normal p pl h s) = wrap_pi x"
proof -
  obtain a s1 where a: "motor_accel lm normal p pl s = (a, s1)" by (rule prod.exhaust)
  obtain x v hit where x: "arm_step p h a s1 = (x, v, hit)" by (rule prod_cases3)
  show ?thesis by (simp add: mock_integrate_def a x draw_def Let_def) (rule exI, rule refl)
qed

lemma publish_states_keeps [simp]:
  "q1 (publish_states normal p pl dt s) = q1 s" "q1_dot (publish_states normal p pl dt s) = q1_dot s"
  "q2 (publish_states normal p pl dt s) = q2 s" "hw_command (publish_states normal p pl dt s) = hw_command s"
  by (simp_all add: publish_states_def draw_def Let_def)

lemma publish_states_reports:
  "\<exists>a b c d. hw_states (publish_states normal p pl dt s) = [a, b, wrap_pi c, d]"
  by (simp add: publish_states_def draw_def Let_def) blast

section \<open>The arm\<close>

definition arm_limits_ok :: "mock_params \<Rightarrow> bool" where
  "arm_limits_ok p \<longleftrightarrow> (\<exists>a b. motor_limit p = f64_abs a \<and> \<not> isnan a \<and> motor_max_vel p = f64_abs b \<and> \<not> isnan b) \<and>
     (isnan (stop_restitution p) \<or>
       f64_le 0 (stop_restitution p) \<and> f64_le (stop_restitution p) (dec 9 1))"

definition arm_confined :: "mock_params \<Rightarrow> mock_state \<Rightarrow> bool" where
  "arm_confined p s \<longleftrightarrow> inside (motor_limit p) (q1 s) \<and> inside (motor_max_vel p) (q1_dot s)"

lemma read_parameters_arm:
  assumes "read_parameters stod hp = Some p" "\<not> isnan (motor_limit p)" "\<not> isnan (motor_max_vel p)"
  shows "arm_limits_ok p"
proof -
  have d: "dec 0 0 = 0" "dec 9 1 = 0x3FECCCCCCCCCCCCD" by (simp_all add: dec_def f64_eval)
  have le: "f64_le 0 0x3FECCCCCCCCCCCCD" by (simp add: f64_le_def f64_key_def isnan_def f64_eval)
  have e: "motor_limit p = f64_abs (mock_param stod hp ''motor_position_limit'' (dec 235619449 8))"
    "motor_max_vel p = f64_abs (mock_param stod hp ''motor_max_velocity'' (dec 5 0))"
    "stop_restitution p = f64_clamp (mock_param stod hp ''hard_stop_restitution'' (dec 0 0)) (dec 0 0) (dec 9 1)"
    using assms(1) by (auto simp: read_parameters_def bind_Some_iff Let_def)
  then obtain v where e3: "stop_restitution p = f64_clamp v 0 0x3FECCCCCCCCCCCCD" unfolding d by blast
  have "isnan (stop_restitution p) \<or>
      f64_le 0 (stop_restitution p) \<and> f64_le (stop_restitution p) 0x3FECCCCCCCCCCCCD"
    using f64_clamp_bounds [OF le, of v] f64_clamp_NaN [of v] e3 by (cases "isnan v") auto
  then show ?thesis using e(1,2) assms(2,3) unfolding arm_limits_ok_def d
    by (simp add: isnan_abs) blast
qed

lemma restitution_bound:
  assumes "f64_le 0 r" "f64_le r (dec 9 1)"
  shows "f64_le (f64_neg (dec 1 0)) (f64_neg r)" "f64_le (f64_neg r) (dec 1 0)"
proof -
  have d: "dec 9 1 = 0x3FECCCCCCCCCCCCD" "dec 1 0 = 0x3FF0000000000000" by (simp_all add: dec_def f64_eval)
  have k: "f64_key 0x3FECCCCCCCCCCCCD = 4606281698874543309" "f64_key 0x3FF0000000000000 = 4607182418800017408"
    "f64_key 0 = 0" by (simp_all add: f64_key_def)
  have n: "\<not> isnan 0x3FF0000000000000" by (simp add: isnan_def f64_eval)
  have r: "\<not> isnan r" "0 \<le> f64_key r" "f64_key r \<le> 4606281698874543309"
    using assms unfolding d f64_le_def k by auto
  show "f64_le (f64_neg (dec 1 0)) (f64_neg r)" "f64_le (f64_neg r) (dec 1 0)"
    unfolding d f64_le_def using r n by (simp_all add: isnan_neg f64_key_neg k)
qed

lemma not_outside:
  "\<not> isnan L \<Longrightarrow> \<not> f64_lt L x \<Longrightarrow> \<not> f64_lt x (f64_neg L) \<Longrightarrow> inside L x"
  by (auto simp: inside_def f64_lt_def f64_le_def isnan_neg)

lemma arm_step_confined:
  assumes p: "arm_limits_ok p" and s: "inside (motor_limit p) (q1 s)"
    and x: "arm_step p h a s = (x, v, hit)"
  shows "inside (motor_limit p) x" "inside (motor_max_vel p) v"
proof -
  obtain la va where l: "motor_limit p = f64_abs la" "\<not> isnan la" "motor_max_vel p = f64_abs va" "\<not> isnan va"
    using p by (auto simp: arm_limits_ok_def)
  let ?v = "f64_clamp (f64_add (q1_dot s) (f64_mul a h)) (f64_neg (motor_max_vel p)) (motor_max_vel p)"
  let ?x = "f64_add (q1 s) (f64_mul ?v h)"
  have v: "inside (motor_max_vel p) ?v" unfolding l(3) by (rule inside_clamp [OF l(4)])
  have bounce: "inside (motor_max_vel p) (f64_mul (f64_neg (stop_restitution p)) ?v)"
  proof (cases "isnan (stop_restitution p)")
    case True
    then show ?thesis by (simp add: inside_def isnan_ops isnan_neg)
  next
    case False
    then have "f64_le 0 (stop_restitution p)" "f64_le (stop_restitution p) (dec 9 1)"
      using p by (auto simp: arm_limits_ok_def)
    from inside_mul [OF _ v restitution_bound [OF this]] show ?thesis by (simp add: l isnan_abs)
  qed
  have eq: "(x, v, hit) =
      (if f64_lt (motor_limit p) ?x then
         (motor_limit p, f64_mul (f64_neg (stop_restitution p)) ?v, True)
       else if f64_lt ?x (f64_neg (motor_limit p)) then
         (f64_neg (motor_limit p), f64_mul (f64_neg (stop_restitution p)) ?v, True)
       else (?x, ?v, False))"
    using x unfolding arm_step_def Let_def by (rule sym)
  have "inside (motor_limit p) x \<and> inside (motor_max_vel p) v"
  proof (cases "f64_lt (motor_limit p) ?x")
    case True
    then have "x = motor_limit p" "v = f64_mul (f64_neg (stop_restitution p)) ?v"
      using eq by (simp_all only: if_True prod.inject)
    then show ?thesis using bounce inside_abs_ends(1) [OF l(2)] l(1) by (simp only: simp_thms)
  next
    case right: False
    show ?thesis
    proof (cases "f64_lt ?x (f64_neg (motor_limit p))")
      case True
      then have "x = f64_neg (motor_limit p)" "v = f64_mul (f64_neg (stop_restitution p)) ?v"
        using right eq by (simp_all only: if_True if_False prod.inject)
      then show ?thesis using bounce inside_abs_ends(2) [OF l(2)] l(1) by (simp only: simp_thms)
    next
      case False
      then have xv: "x = ?x" "v = ?v" using right eq by (simp_all only: if_False prod.inject)
      have "\<not> isnan (motor_limit p)" by (simp add: l isnan_abs)
      then have "inside (motor_limit p) ?x" using right False by (rule not_outside)
      then show ?thesis using v xv by (simp only: simp_thms)
    qed
  qed
  then show "inside (motor_limit p) x" "inside (motor_max_vel p) v" by simp_all
qed

lemma mock_integrate_confined:
  "arm_limits_ok p \<Longrightarrow> arm_confined p s \<Longrightarrow> arm_confined p (mock_integrate lm normal p pl h s)"
proof -
  assume p: "arm_limits_ok p" and s: "arm_confined p s"
  obtain a s1 where a: "q1 s1 = q1 s"
    "case arm_step p h a s1 of (x, v, hit) \<Rightarrow>
        q1 (mock_integrate lm normal p pl h s) = x \<and> q1_dot (mock_integrate lm normal p pl h s) = v"
    using mock_integrate_arm [of s lm normal p pl h] by (elim exE conjE) (rule that)
  obtain x v hit where x: "arm_step p h a s1 = (x, v, hit)" by (rule prod_cases3)
  have "inside (motor_limit p) (q1 s1)" using s a(1) by (simp add: arm_confined_def)
  from arm_step_confined [OF p this x] a(2) x show ?thesis by (simp add: arm_confined_def)
qed

text \<open>What every number of steps keeps, given that each does.\<close>

lemma integrate_steps_keeps:
  assumes "\<And>s. I s \<Longrightarrow> I (mock_integrate lm normal p pl h s)"
  shows "I s \<Longrightarrow> I (integrate_steps lm normal p pl h k s)"
  using assms by (induction k arbitrary: s) auto

section \<open>Runs\<close>

text \<open>Calls of \<open>read\<close>, each with what the command interface holds and the period.\<close>

primrec mock_run ::
  "libm \<Rightarrow> (nat \<Rightarrow> f64) \<Rightarrow> mock_params \<Rightarrow> mock_plant \<Rightarrow> (f64 option \<times> f64) list \<Rightarrow> mock_state
     \<Rightarrow> mock_state option" where
  "mock_run lm normal p pl [] s = Some s"
| "mock_run lm normal p pl (i # is) s =
     Option.bind (mock_read lm normal p pl (fst i) (snd i) s) (\<lambda>r. mock_run lm normal p pl is (snd r))"

lemma mock_take_command_keeps [simp]:
  "q1 (mock_take_command cmd s) = q1 s" "q1_dot (mock_take_command cmd s) = q1_dot s"
  "q2 (mock_take_command cmd s) = q2 s" "hw_states (mock_take_command cmd s) = hw_states s"
  by (simp_all add: mock_take_command_def split: option.split)

lemma mock_read_cases:
  assumes "mock_read lm normal p pl cmd period s = Some (r, s')"
  obtains "s' = mock_take_command cmd s" | h n dt where "s' = publish_states normal p pl dt
      (integrate_steps lm normal p pl h n (mock_take_command cmd s))"
  using assms by (auto simp: mock_read_def Let_def bind_Some_iff split: if_splits)

lemma mock_read_confined:
  assumes "arm_limits_ok p" "arm_confined p s" "mock_read lm normal p pl cmd period s = Some (r, s')"
  shows "arm_confined p s'"
  using assms(3)
proof (cases rule: mock_read_cases)
  case 1
  then show ?thesis using assms(2) by (simp add: arm_confined_def)
next
  case (2 h n dt)
  have "arm_confined p (mock_take_command cmd s)" using assms(2) by (simp add: arm_confined_def)
  from integrate_steps_keeps [where I = "arm_confined p", OF mock_integrate_confined [OF assms(1)] this]
  show ?thesis using 2 by (simp add: arm_confined_def)
qed

text \<open>The angle of the pendulum, true and reported.\<close>

definition angle_wrapped :: "mock_state \<Rightarrow> bool" where
  "angle_wrapped s \<longleftrightarrow> inside M_PI (q2 s) \<and> (\<exists>a b c d. hw_states s = [a, b, c, d] \<and> inside M_PI c)"

lemma publish_states_wrapped: "inside M_PI (q2 s) \<Longrightarrow> angle_wrapped (publish_states normal p pl dt s)"
  using publish_states_reports [of normal p pl dt s] wrap_pi_inside by (auto simp: angle_wrapped_def)

lemma mock_read_wrapped:
  assumes "angle_wrapped s" "mock_read lm normal p pl cmd period s = Some (r, s')"
  shows "angle_wrapped s'"
  using assms(2)
proof (cases rule: mock_read_cases)
  case 1
  then show ?thesis using assms(1) by (simp add: angle_wrapped_def)
next
  case (2 h n dt)
  have "inside M_PI (q2 (mock_integrate lm normal p pl h s))" for s
    using mock_integrate_q2 [of lm normal p pl h s] wrap_pi_inside by auto
  from integrate_steps_keeps [where I = "\<lambda>s. inside M_PI (q2 s)", OF this]
  have "inside M_PI (q2 (integrate_steps lm normal p pl h n (mock_take_command cmd s)))"
    using assms(1) by (simp add: angle_wrapped_def)
  then show ?thesis unfolding 2 by (rule publish_states_wrapped)
qed

text \<open>A jittered parameter and the draws it takes.\<close>

definition jittered :: "(nat \<Rightarrow> f64) \<Rightarrow> mock_params \<Rightarrow> f64 \<Rightarrow> nat \<Rightarrow> f64" where
  "jittered normal p x k =
     (if f64_lt 0 (param_randomization p)
      then f64_mul x (f64_add (dec 1 0) (f64_mul (param_randomization p) (normal k))) else x)"

definition jitter_next :: "mock_params \<Rightarrow> nat \<Rightarrow> nat" where
  "jitter_next p k = (if f64_lt 0 (param_randomization p) then k + 1 else k)"

lemma jitter_eq: "jitter normal p x s = (jittered normal p x (drawn s), s\<lparr>drawn := jitter_next p (drawn s)\<rparr>)"
  by (simp add: jitter_def draw_def jittered_def jitter_next_def)

lemma publish_fresh:
  "\<not> have_prev_meas s \<Longrightarrow> s' = s\<lparr>q2_meas_prev := x, hw_states := h\<rparr> \<Longrightarrow>
   publish_states normal p pl dt s' = publish_states normal p pl dt s"
  by (simp add: publish_states_def draw_def Let_def)

lemma mock_on_activate_published:
  "\<exists>s1 pl. mock_on_activate normal stod hp p s = (CB_SUCCESS, pl, publish_states normal p pl (dec 1 0) s1) \<and>
     q1 s1 = 0 \<and> q1_dot s1 = 0 \<and> (\<exists>x. q2 s1 = wrap_pi x)"
  unfolding mock_on_activate_def jitter_eq draw_def Let_def prod.case mock_state.select_convs
    mock_state.update_convs
  by (intro exI conjI, rule refl) simp_all

lemma mock_on_activate_command:
  "mock_on_activate normal stod hp p s = (r, pl, s') \<Longrightarrow> hw_command s' = 0"
  unfolding mock_on_activate_def jitter_eq draw_def Let_def prod.case mock_state.select_convs
    mock_state.update_convs
  by auto

lemma mock_run_keeps:
  assumes "\<And>s cmd period r s'. I s \<Longrightarrow> mock_read lm normal p pl cmd period s = Some (r, s') \<Longrightarrow> I s'"
  shows "I s \<Longrightarrow> mock_run lm normal p pl is s = Some s' \<Longrightarrow> I s'"
proof (induction "is" arbitrary: s)
  case Nil
  then show ?case by simp
next
  case (Cons i "is")
  then obtain r s1 where "mock_read lm normal p pl (fst i) (snd i) s = Some (r, s1)"
    "mock_run lm normal p pl is s1 = Some s'" by (auto simp: bind_Some_iff)
  with Cons assms show ?case by blast
qed

lemma mock_run_confined:
  assumes "read_parameters stod hp = Some p" "\<not> isnan (motor_limit p)" "\<not> isnan (motor_max_vel p)"
    "mock_on_activate normal stod hp p s0 = (r, pl, s)" "mock_run lm normal p pl is s = Some s'"
  shows "arm_confined p s'"
proof -
  note ok = read_parameters_arm [OF assms(1-3)]
  obtain la va where l: "motor_limit p = f64_abs la" "\<not> isnan la" "motor_max_vel p = f64_abs va" "\<not> isnan va"
    using ok by (auto simp: arm_limits_ok_def)
  have "q1 s = 0" "q1_dot s = 0" using mock_on_activate_published [of normal stod hp p s0] assms(4) by auto
  then have "arm_confined p s"
    using inside_zero l by (simp add: arm_confined_def)
  from mock_run_keeps [where I = "arm_confined p", OF mock_read_confined [OF ok] this assms(5)]
  show ?thesis .
qed

lemma mock_run_wrapped:
  assumes "mock_on_activate normal stod hp p s0 = (r, pl, s)" "mock_run lm normal p pl is s = Some s'"
  shows "angle_wrapped s'"
proof -
  obtain s1 where s1: "s = publish_states normal p pl (dec 1 0) s1" "\<exists>x. q2 s1 = wrap_pi x"
    using mock_on_activate_published [of normal stod hp p s0] assms(1) by auto
  then have "inside M_PI (q2 s1)" using wrap_pi_inside by auto
  then have "angle_wrapped s" unfolding s1(1) by (rule publish_states_wrapped)
  from mock_run_keeps [where I = angle_wrapped, OF mock_read_wrapped this assms(2)] show ?thesis .
qed

text \<open>The periods a run can be given: those whose number of steps fits an \<open>int\<close>.\<close>

definition period_ok :: "mock_params \<Rightarrow> f64 \<Rightarrow> bool" where
  "period_ok p period \<longleftrightarrow> (f64_lt 0 period \<longrightarrow> substeps p (simulated_time p period) \<noteq> None)"

text \<open>The length of an integration step of a call.\<close>

definition step_length :: "mock_params \<Rightarrow> f64 \<Rightarrow> f64" where
  "step_length p period =
     (case substeps p (simulated_time p period) of
        None \<Rightarrow> 0
      | Some n \<Rightarrow> f64_div (simulated_time p period) (int_to_double n))"

lemma mock_read_returns:
  "period_ok p period \<Longrightarrow> \<exists>s'. mock_read lm normal p pl cmd period s = Some (RT_OK, s')"
  by (auto simp: mock_read_def period_ok_def Let_def)

lemma mock_run_returns:
  "\<forall>i \<in> set is. period_ok p (snd i) \<Longrightarrow> \<exists>s'. mock_run lm normal p pl is s = Some s'"
proof (induction "is" arbitrary: s)
  case Nil
  then show ?case by simp
next
  case (Cons i "is")
  then obtain s1 where "mock_read lm normal p pl (fst i) (snd i) s = Some (RT_OK, s1)"
    using mock_read_returns [of p "snd i"] by fastforce
  with Cons show ?case by simp
qed

lemma substeps_bounds:
  "substeps p dt = Some n \<Longrightarrow> 1 \<le> max_substeps p \<Longrightarrow> 1 \<le> n \<and> n \<le> max_substeps p"
  by (auto simp: substeps_def bind_Some_iff split: if_splits)

section \<open>Commands that are not finite\<close>

lemma motor_accel_command:
  assumes "\<not> isfinite c"
  shows "motor_accel lm normal p pl (s\<lparr>hw_command := c\<rparr>) =
    apsnd (\<lambda>s. s\<lparr>hw_command := c\<rparr>) (motor_accel lm normal p pl (s\<lparr>hw_command := 0\<rparr>))"
proof -
  have "isfinite 0" by (simp add: isfinite_def f64_eval)
  with assms show ?thesis by (simp add: motor_accel_def draw_def Let_def)
qed

lemma arm_step_command: "arm_step p h a (s\<lparr>hw_command := c\<rparr>) = arm_step p h a s"
  by (simp add: arm_step_def)

lemma mock_integrate_command:
  assumes "\<not> isfinite c"
  shows "mock_integrate lm normal p pl h (s\<lparr>hw_command := c\<rparr>) =
    (mock_integrate lm normal p pl h (s\<lparr>hw_command := 0\<rparr>))\<lparr>hw_command := c\<rparr>"
proof -
  obtain a s1 where a: "motor_accel lm normal p pl (s\<lparr>hw_command := 0\<rparr>) = (a, s1)" by (rule prod.exhaust)
  obtain x v hit where x: "arm_step p h a s1 = (x, v, hit)" by (rule prod_cases3)
  show ?thesis
    by (simp add: mock_integrate_def motor_accel_command [OF assms] a x arm_step_command draw_def Let_def)
qed

lemma mock_integrate_keeps_command:
  "hw_command (mock_integrate lm normal p pl h s) = hw_command s"
proof -
  obtain a s1 where a: "motor_accel lm normal p pl s = (a, s1)" by (rule prod.exhaust)
  then have "hw_command s1 = hw_command s" by (auto simp: motor_accel_def draw_def Let_def split: if_splits)
  moreover obtain x v hit where x: "arm_step p h a s1 = (x, v, hit)" by (rule prod_cases3)
  ultimately show ?thesis by (simp add: mock_integrate_def a draw_def Let_def)
qed

lemma integrate_steps_command:
  assumes "\<not> isfinite c"
  shows "integrate_steps lm normal p pl h k (s\<lparr>hw_command := c\<rparr>) =
    (integrate_steps lm normal p pl h k (s\<lparr>hw_command := 0\<rparr>))\<lparr>hw_command := c\<rparr>"
proof (induction k arbitrary: s)
  case 0
  then show ?case by simp
next
  case (Suc k)
  let ?t = "mock_integrate lm normal p pl h (s\<lparr>hw_command := 0\<rparr>)"
  have "hw_command ?t = 0" by (simp add: mock_integrate_keeps_command)
  then have "?t\<lparr>hw_command := 0\<rparr> = ?t" by simp
  with Suc.IH [of ?t] show ?case by (simp add: mock_integrate_command [OF assms])
qed

lemma publish_states_command:
  "publish_states normal p pl dt (s\<lparr>hw_command := c\<rparr>) = (publish_states normal p pl dt s)\<lparr>hw_command := c\<rparr>"
  by (simp add: publish_states_def draw_def Let_def)

section \<open>A sample simulation\<close>

abbreviation sample_mock :: "mock_params option" where
  "sample_mock \<equiv> read_parameters (\<lambda>t. None) (\<lambda>name. None)"

text \<open>The defaults, whatever the switches: no number in the parameters parses.\<close>

lemma default_mock_reads:
  "\<exists>p. read_parameters (\<lambda>t. None) hp = Some p \<and> \<not> isnan (motor_limit p) \<and> \<not> isnan (motor_max_vel p) \<and> period_ok p (dec 1 3) \<and>
     isfinite (step_length p (dec 1 3)) \<and> motor_limit p = f64_abs (dec 235619449 8) \<and>
     motor_max_vel p = f64_abs (dec 5 0) \<and> motor_max_accel p = f64_abs (dec 200 0) \<and>
     stop_restitution p = f64_clamp (dec 0 0) (dec 0 0) (dec 9 1) \<and> motor_accel_noise p = f64_abs (dec 2 2) \<and>
     model_step_loss p = mock_param_bool hp ''model_step_loss'' True"
proof -
  have param: "mock_param (\<lambda>t. None) hp name x = x" for name x by (simp add: mock_param_def split: option.split)
  have d: "dec 4000 0 = 0x40AF400000000000" "dec 1 0 = 0x3FF0000000000000" "dec 1 3 = 0x3F50624DD2F1A9FC"
    "dec 1 1 = 0x3FB999999999999A" "dec 1 4 = 0x3F1A36E2EB1C432D" "dec 5 4 = 0x3F40624DD2F1A9FC"
    "dec 1 6 = 0x3EB0C6F7A0B5ED8D" "dec 235619449 8 = 0x4002D97C7F2C85F0" "dec 5 0 = 0x4014000000000000"
    by (simp_all add: dec_def f64_eval)
  have k: "f64_key 0x40AF400000000000 = 0x40AF400000000000" "f64_key 0x3FF0000000000000 = 0x3FF0000000000000"
    "f64_key 0x3FB999999999999A = 0x3FB999999999999A" "f64_key 0x3F1A36E2EB1C432D = 0x3F1A36E2EB1C432D"
    "f64_key 0x3F40624DD2F1A9FC = 0x3F40624DD2F1A9FC" "f64_key 0x3EB0C6F7A0B5ED8D = 0x3EB0C6F7A0B5ED8D"
    "f64_key 0x3F50624DD2F1A9FC = 0x3F50624DD2F1A9FC" "f64_key 0 = 0"
    by (simp_all add: f64_key_def)
  have n: "\<not> isnan 0x40AF400000000000" "\<not> isnan 0x3FF0000000000000"
    "\<not> isnan 0x3FB999999999999A" "\<not> isnan 0x3F1A36E2EB1C432D"
    "\<not> isnan 0x3F40624DD2F1A9FC" "\<not> isnan 0x3EB0C6F7A0B5ED8D" "\<not> isnan 0x3F50624DD2F1A9FC"
    "\<not> isnan 0x4002D97C7F2C85F0" "\<not> isnan 0x4014000000000000" "\<not> isnan 0"
    by (simp_all add: isnan_def f64_eval)
  have i: "to_int 0x40AF400000000000 = Some 4000" "to_int 0x4000000000000000 = Some 2"
    by (simp_all add: to_int_def f64_eval)
  have q: "f64_mul 0x3F50624DD2F1A9FC 0x3FF0000000000000 = 0x3F50624DD2F1A9FC"
    "f64_div 0x3F50624DD2F1A9FC 0x3F40624DD2F1A9FC = 0x4000000000000000"
    by (simp_all add: f64_mul_def f64_div_def f64_eval)
  have c: "f64_ceil 0x4000000000000000 = 0x4000000000000000"
    by (simp add: f64_ceil_def f64_eval)
  have half: "f64_div 0x3F50624DD2F1A9FC (int_to_double 2) = 0x3F40624DD2F1A9FC"
    by (simp add: f64_div_def f64_eval)
  obtain p where p: "read_parameters (\<lambda>t. None) hp = Some p" "max_cycle_dt p = f64_max (dec 1 1) (dec 1 4)"
    "sim_speed p = (if \<not> f64_lt 0 (dec 1 0) then dec 1 0 else dec 1 0)"
    "max_substep p = f64_max (dec 5 4) (dec 1 6)" "motor_limit p = f64_abs (dec 235619449 8)"
    "motor_max_vel p = f64_abs (dec 5 0)" "max_substeps p = 4000"
    "motor_max_accel p = f64_abs (dec 200 0)" "stop_restitution p = f64_clamp (dec 0 0) (dec 0 0) (dec 9 1)"
    "motor_accel_noise p = f64_abs (dec 2 2)" "model_step_loss p = mock_param_bool hp ''model_step_loss'' True"
    by (simp add: read_parameters_def param Let_def f64_max_def f64_lt_def d(1,2) k n i)
  have "simulated_time p (dec 1 3) = dec 1 3"
    unfolding simulated_time_def p d by (simp add: f64_max_def f64_min_def f64_lt_def k n q)
  moreover have "substeps p (dec 1 3) = Some 2"
    unfolding substeps_def p d by (simp add: f64_max_def f64_lt_def k n q c i)
  ultimately have "period_ok p (dec 1 3)" "step_length p (dec 1 3) = 0x3F40624DD2F1A9FC"
    by (simp_all add: period_ok_def step_length_def half d)
  moreover have "isfinite 0x3F40624DD2F1A9FC" by (simp add: isfinite_def f64_eval)
  ultimately show ?thesis using p(1,5,6,8-11) n by (simp add: d isnan_abs)
qed

lemma sample_mock_reads:
  "\<exists>p. sample_mock = Some p \<and> \<not> isnan (motor_limit p) \<and> \<not> isnan (motor_max_vel p) \<and> period_ok p (dec 1 3)"
  using default_mock_reads [of "\<lambda>name. None"] by blast

section \<open>Properties\<close>

text \<open>C22: the simulated arm cannot leave its mechanical stops nor exceed its velocity, and the reported
  angle of the pendulum is always wrapped to \<open>[-pi, pi]\<close>: from activation on, for any commands, any
  noise and any periods whose number of steps fits an \<open>int\<close>, every call of \<open>read\<close> returns, and the
  four values hold or are NaN.\<close>

theorem mock_run_stays_physical:
  assumes "read_parameters stod hp = Some p" and "\<not> isnan (motor_limit p)" and "\<not> isnan (motor_max_vel p)"
    and "mock_on_activate normal stod hp p s0 = (r, pl, s)" and "\<forall>i \<in> set is. period_ok p (snd i)"
  shows "\<exists>s'. mock_run lm normal p pl is s = Some s' \<and>
    inside (motor_limit p) (q1 s') \<and> inside (motor_max_vel p) (q1_dot s') \<and>
    inside M_PI (q2 s') \<and> (\<exists>a b c d. hw_states s' = [a, b, c, d] \<and> inside M_PI c)"
proof -
  obtain s' where s': "mock_run lm normal p pl is s = Some s'" using mock_run_returns [OF assms(5)] by blast
  from mock_run_confined [OF assms(1-4) s'] mock_run_wrapped [OF assms(4) s'] s' show ?thesis
    by (simp add: arm_confined_def angle_wrapped_def)
qed

theorem mock_run_stays_physical_witness:
  "\<exists>p r pl s s'. sample_mock = Some p \<and>
    mock_on_activate (\<lambda>k. 0) (\<lambda>t. None) (\<lambda>name. None) p initial_mock_state = (r, pl, s) \<and>
    mock_run sample_libm (\<lambda>k. 0) p pl [(Some (dec 150 0), dec 1 3), (None, dec 1 3)] s = Some s' \<and>
    inside (motor_limit p) (q1 s') \<and> inside (motor_max_vel p) (q1_dot s') \<and> inside M_PI (q2 s')"
proof -
  obtain p where p: "sample_mock = Some p" "\<not> isnan (motor_limit p)" "\<not> isnan (motor_max_vel p)"
    "period_ok p (dec 1 3)"
    using sample_mock_reads by (elim exE conjE) (rule that)
  obtain r pl s where a:
    "mock_on_activate (\<lambda>k. 0) (\<lambda>t. None) (\<lambda>name. None) p initial_mock_state = (r, pl, s)"
    by (rule prod_cases3)
  have "\<forall>i \<in> set [(Some (dec 150 0), dec 1 3), (None, dec 1 3)]. period_ok p (snd i)" using p(4) by simp
  from mock_run_stays_physical [OF p(1-3) a this, of sample_libm] p(1) a show ?thesis by blast
qed

text \<open>a command that is not a number leaves the last one in place, and an infinite one acts like
  zero: the call returns the same state but for the command it remembers.\<close>

theorem mock_ignores_non_finite:
  assumes "\<not> isfinite c"
  shows "mock_read lm normal p pl (Some c) period s =
    (if isnan c then mock_read lm normal p pl None period s
     else map_option (apsnd (\<lambda>s. s\<lparr>hw_command := c\<rparr>)) (mock_read lm normal p pl (Some 0) period s))"
proof (cases "isnan c")
  case True
  then show ?thesis by (simp add: mock_read_def mock_take_command_def)
next
  case False
  then have "mock_take_command (Some c) s = s\<lparr>hw_command := c\<rparr>" "mock_take_command (Some 0) s = s\<lparr>hw_command := 0\<rparr>"
    by (simp_all add: mock_take_command_def isnan_zero)
  then show ?thesis using False
    by (cases "substeps p (simulated_time p period)")
      (simp_all add: mock_read_def integrate_steps_command [OF assms] publish_states_command Let_def)
qed

theorem mock_ignores_non_finite_witness:
  "\<exists>p. sample_mock = Some p \<and>
    (\<forall>pl. mock_read sample_libm (\<lambda>k. 0) p pl (Some 0x7FF0000000000000) (dec 1 3) initial_mock_state =
      (if isnan 0x7FF0000000000000
       then mock_read sample_libm (\<lambda>k. 0) p pl None (dec 1 3) initial_mock_state
       else map_option (apsnd (\<lambda>s. s\<lparr>hw_command := 0x7FF0000000000000\<rparr>))
         (mock_read sample_libm (\<lambda>k. 0) p pl (Some 0) (dec 1 3) initial_mock_state)))"
proof -
  obtain p where p: "sample_mock = Some p" using sample_mock_reads by blast
  have "\<not> isfinite 0x7FF0000000000000" by (simp add: isfinite_def f64_eval)
  from mock_ignores_non_finite [OF this] p show ?thesis by blast
qed

text \<open>activation forgets the run before it: from any two states that have drawn as many random
  numbers, it draws the same plant and starts in the same state.\<close>

theorem mock_activation_forgets:
  assumes "drawn s1 = drawn s2"
  shows "mock_on_activate normal stod hp p s1 = mock_on_activate normal stod hp p s2"
  unfolding mock_on_activate_def jitter_eq draw_def Let_def prod.case mock_state.select_convs
    mock_state.update_convs assms
  by (simp add: assms, rule publish_fresh [where x = "q2_meas_prev s1" and h = "hw_states s1"], simp,
      cases s1, cases s2, use assms in simp)

theorem mock_activation_forgets_witness:
  "\<exists>p. sample_mock = Some p \<and>
    mock_on_activate (\<lambda>k. 0) (\<lambda>t. None) (\<lambda>name. None) p (initial_mock_state\<lparr>q1 := M_PI, at_limit := True\<rparr>) =
    mock_on_activate (\<lambda>k. 0) (\<lambda>t. None) (\<lambda>name. None) p initial_mock_state"
proof -
  obtain p where p: "sample_mock = Some p" using sample_mock_reads by blast
  have "drawn (initial_mock_state\<lparr>q1 := M_PI, at_limit := True\<rparr>) = drawn initial_mock_state" by simp
  from mock_activation_forgets [OF this] p show ?thesis by blast
qed

text \<open>the number of steps is converted to \<open>int\<close> before it is clamped to \<open>max_substeps\<close>: with
  \<open>sim_speed_factor\<close> set to \<open>1e9\<close>, all other parameters at their defaults, a call with the longest
  period converts \<open>2e11\<close>, which is undefined behaviour.\<close>

theorem mock_substeps_overflow:
  "\<exists>p. read_parameters (\<lambda>t. if t = ''1e9'' then Some (dec 1000000000 0) else None)
      (\<lambda>name. if name = ''sim_speed_factor'' then Some ''1e9'' else None) = Some p \<and>
    max_substeps p = 4000 \<and> (\<forall>lm normal pl cmd s. mock_read lm normal p pl cmd (dec 1 1) s = None)"
proof -
  have d: "dec 4000 0 = 0x40AF400000000000" "dec 1 0 = 0x3FF0000000000000"
    "dec 1 1 = 0x3FB999999999999A" "dec 1 4 = 0x3F1A36E2EB1C432D" "dec 5 4 = 0x3F40624DD2F1A9FC"
    "dec 1 6 = 0x3EB0C6F7A0B5ED8D" "dec 1000000000 0 = 0x41CDCD6500000000"
    by (simp_all add: dec_def f64_eval)
  have k: "f64_key 0x40AF400000000000 = 0x40AF400000000000" "f64_key 0x3FF0000000000000 = 0x3FF0000000000000"
    "f64_key 0x3FB999999999999A = 0x3FB999999999999A" "f64_key 0x3F1A36E2EB1C432D = 0x3F1A36E2EB1C432D"
    "f64_key 0x3F40624DD2F1A9FC = 0x3F40624DD2F1A9FC" "f64_key 0x3EB0C6F7A0B5ED8D = 0x3EB0C6F7A0B5ED8D"
    "f64_key 0x41CDCD6500000000 = 0x41CDCD6500000000" "f64_key 0 = 0"
    by (simp_all add: f64_key_def)
  have n: "\<not> isnan 0x40AF400000000000" "\<not> isnan 0x3FF0000000000000"
    "\<not> isnan 0x3FB999999999999A" "\<not> isnan 0x3F1A36E2EB1C432D"
    "\<not> isnan 0x3F40624DD2F1A9FC" "\<not> isnan 0x3EB0C6F7A0B5ED8D" "\<not> isnan 0x41CDCD6500000000" "\<not> isnan 0"
    by (simp_all add: isnan_def f64_eval)
  have i: "to_int 0x40AF400000000000 = Some 4000" by (simp add: to_int_def f64_eval)
  have q: "f64_mul 0x3FB999999999999A 0x41CDCD6500000000 = 0x4197D78400000000"
    "f64_div 0x4197D78400000000 0x3F40624DD2F1A9FC = 0x42474876E8000000"
    by (simp_all add: f64_mul_def f64_div_def f64_eval)
  have c: "to_int (f64_ceil 0x42474876E8000000) = None"
    by (simp add: f64_ceil_def to_int_def f64_eval)
  obtain p where p: "read_parameters (\<lambda>t. if t = ''1e9'' then Some (dec 1000000000 0) else None)
      (\<lambda>name. if name = ''sim_speed_factor'' then Some ''1e9'' else None) = Some p"
    "max_cycle_dt p = f64_max (dec 1 1) (dec 1 4)" "max_substep p = f64_max (dec 5 4) (dec 1 6)"
    "sim_speed p = (if \<not> f64_lt 0 (dec 1000000000 0) then dec 1 0 else dec 1000000000 0)"
    "max_substeps p = 4000"
    by (simp add: read_parameters_def mock_param_def Let_def f64_max_def f64_lt_def d(1,2) k n i)
  have "simulated_time p (dec 1 1) = 0x4197D78400000000"
    unfolding simulated_time_def p d by (simp add: f64_max_def f64_min_def f64_lt_def k n q)
  then have "substeps p (simulated_time p (dec 1 1)) = None"
    unfolding substeps_def p d by (simp add: f64_max_def f64_lt_def k n q c)
  moreover have "f64_lt 0 (dec 1 1)" unfolding d by (simp add: f64_lt_def k n)
  ultimately have "mock_read lm normal p pl cmd (dec 1 1) s = None" for lm normal pl cmd s
    by (simp only: mock_read_def Let_def bind.bind_lzero not_True_eq_False if_False)
  with p(1,5) show ?thesis by blast
qed

end
