(* ===== verification/Closed_Loop.thy ===== *)
theory Closed_Loop
  imports Mock_Properties
begin

text \<open>
  The pendulum controller and the simulated hardware together: a cycle of the controller manager
  calls \<open>read\<close> of the hardware and then \<open>update\<close> of the controller, whose command the next \<open>read\<close>
  finds in the command interface. What such a loop keeps is proved once, for any hardware and any
  controller with an invariant of their own, and instantiated with the two models.
\<close>

section \<open>The loop\<close>

text \<open>\<open>accepted i\<close>: whether the command interface takes the value the controller offers.\<close>

definition control_cycle ::
  "('u \<Rightarrow> 'i \<Rightarrow> 'h \<Rightarrow> 'h option) \<Rightarrow> ('i \<Rightarrow> 'h \<Rightarrow> 'm) \<Rightarrow> ('m \<Rightarrow> 'c \<Rightarrow> 'u \<times> 'c) \<Rightarrow> ('i \<Rightarrow> bool)
     \<Rightarrow> 'i \<Rightarrow> 'c \<times> 'h \<times> 'u \<Rightarrow> ('c \<times> 'h \<times> 'u) option" where
  "control_cycle hw_read sensed update accepted i x =
     (case x of (c, h, u) \<Rightarrow> do {
        h \<leftarrow> hw_read u i h;
        let (v, c) = update (sensed i h) c;
        Some (c, h, if accepted i then v else u)
      })"

locale feedback_loop =
  fixes hw_read :: "'u \<Rightarrow> 'i \<Rightarrow> 'h \<Rightarrow> 'h option"
    and sensed :: "'i \<Rightarrow> 'h \<Rightarrow> 'm"
    and update :: "'m \<Rightarrow> 'c \<Rightarrow> 'u \<times> 'c"
    and accepted :: "'i \<Rightarrow> bool"
    and input_ok :: "'i \<Rightarrow> bool"
    and hw_ok :: "'h \<Rightarrow> bool"
    and ctl_ok :: "'c \<Rightarrow> bool"
    and cmd_ok :: "'u \<Rightarrow> bool"
  assumes hw_keeps: "input_ok i \<Longrightarrow> cmd_ok u \<Longrightarrow> hw_ok h \<Longrightarrow> \<exists>h'. hw_read u i h = Some h' \<and> hw_ok h'"
    and ctl_keeps: "ctl_ok c \<Longrightarrow> update m c = (v, c') \<Longrightarrow> ctl_ok c' \<and> cmd_ok v"
begin

lemma cycle_keeps:
  assumes "input_ok i" "ctl_ok c" "hw_ok h" "cmd_ok u"
  shows "\<exists>c' h' u'. control_cycle hw_read sensed update accepted i (c, h, u) = Some (c', h', u') \<and>
    ctl_ok c' \<and> hw_ok h' \<and> cmd_ok u'"
proof -
  obtain h' where h: "hw_read u i h = Some h'" "hw_ok h'" using hw_keeps assms(1,3,4) by blast
  obtain v c' where v: "update (sensed i h') c = (v, c')" by (rule prod.exhaust)
  from ctl_keeps [OF assms(2) v] h v assms(4) show ?thesis by (simp add: control_cycle_def)
qed

lemma run_keeps:
  "\<forall>i \<in> set is. input_ok i \<Longrightarrow> ctl_ok c \<Longrightarrow> hw_ok h \<Longrightarrow> cmd_ok u \<Longrightarrow>
   \<exists>c' h' u'. run_cycles (control_cycle hw_read sensed update accepted) is (c, h, u) = Some (c', h', u') \<and>
     ctl_ok c' \<and> hw_ok h' \<and> cmd_ok u'"
proof (induction "is" arbitrary: c h u)
  case Nil
  then show ?case by simp
next
  case (Cons i "is")
  obtain c1 h1 u1 where
    "control_cycle hw_read sensed update accepted i (c, h, u) = Some (c1, h1, u1)"
    "ctl_ok c1" "hw_ok h1" "cmd_ok u1"
    using cycle_keeps [of i c h u] Cons.prems by auto
  with Cons.IH [of c1 h1 u1] Cons.prems(1) show ?case by simp
qed

end

section \<open>The two models in it\<close>

record cycle_input =
  cyc_period :: f64
  cyc_takes :: bool

definition mock_cycle_read ::
  "libm \<Rightarrow> (nat \<Rightarrow> f64) \<Rightarrow> mock_params \<Rightarrow> mock_plant \<Rightarrow> f64 \<Rightarrow> cycle_input \<Rightarrow> mock_state \<Rightarrow> mock_state option" where
  "mock_cycle_read lm normal p pl u i s = map_option snd (mock_read lm normal p pl (Some u) (cyc_period i) s)"

text \<open>The four state interfaces, in the order the controller asks for them.\<close>

definition state_readings :: "cycle_input \<Rightarrow> mock_state \<Rightarrow> control_input" where
  "state_readings i s =
     (let at = (\<lambda>k. if k < length (hw_states s) then Some (hw_states s ! k) else None)
      in \<lparr>cin_q1 = at 0, cin_q1d = at 1, cin_q2 = at 2, cin_q2d = at 3, cin_takes = cyc_takes i\<rparr>)"

definition controller_command :: "libm \<Rightarrow> control_input \<Rightarrow> controller \<Rightarrow> f64 \<times> controller" where
  "controller_command lm m c = snd (controller_update lm m c)"

definition pendulum_cycle ::
  "libm \<Rightarrow> (nat \<Rightarrow> f64) \<Rightarrow> mock_params \<Rightarrow> mock_plant \<Rightarrow> cycle_input
     \<Rightarrow> controller \<times> mock_state \<times> f64 \<Rightarrow> (controller \<times> mock_state \<times> f64) option" where
  "pendulum_cycle lm normal p pl =
     control_cycle (mock_cycle_read lm normal p pl) state_readings (controller_command lm) cyc_takes"

section \<open>The command in the plant\<close>

text \<open>A number within \<open>[-L, L]\<close>; a NaN is not.\<close>

definition number_within :: "f64 \<Rightarrow> f64 \<Rightarrow> bool" where
  "number_within L x \<longleftrightarrow> f64_le (f64_neg L) x \<and> f64_le x L"

lemma inside_number: "inside L x \<Longrightarrow> \<not> isnan x \<Longrightarrow> number_within L x"
  by (simp add: inside_def number_within_def)

lemma mock_take_command_within:
  "number_within L (hw_command s) \<Longrightarrow> inside L u \<Longrightarrow> number_within L (hw_command (mock_take_command (Some u) s))"
  by (simp add: mock_take_command_def inside_number)

lemma mock_read_within:
  assumes "number_within L (hw_command s)" "inside L u"
    "mock_read lm normal p pl (Some u) period s = Some (r, s')"
  shows "number_within L (hw_command s')"
proof -
  have "hw_command (integrate_steps lm normal p pl h n (mock_take_command (Some u) s)) =
      hw_command (mock_take_command (Some u) s)" for h n
    by (rule integrate_steps_keeps [where I = "\<lambda>s'. hw_command s' = hw_command (mock_take_command (Some u) s)"])
      (simp_all add: mock_integrate_keeps_command)
  then have "hw_command s' = hw_command (mock_take_command (Some u) s)"
    by (cases rule: mock_read_cases [OF assms(3)]) simp_all
  then show ?thesis using mock_take_command_within [OF assms(1,2)] by simp
qed

section \<open>A stepper that follows its command\<close>

text \<open>The motor realises the acceleration it is told, with the noise: the holding torque does not limit
  it, its limits are finite, and no draw of the noise leaves the finite range with it.\<close>

definition stepper_follows :: "(nat \<Rightarrow> f64) \<Rightarrow> mock_params \<Rightarrow> bool" where
  "stepper_follows normal p \<longleftrightarrow> \<not> (model_step_loss p \<and> f64_lt 0 (motor_max_torque p)) \<and>
     isfinite (motor_limit p) \<and> isfinite (motor_max_vel p) \<and> isfinite (motor_max_accel p) \<and>
     isfinite (stop_restitution p) \<and>
     (\<forall>k. let n = f64_mul (motor_accel_noise p) (normal k)
          in isfinite n \<and> isfinite (f64_add (motor_max_accel p) n) \<and>
             isfinite (f64_add (f64_neg (motor_max_accel p)) n))"

definition arm_numbers :: "mock_state \<Rightarrow> bool" where
  "arm_numbers s \<longleftrightarrow> isfinite (q1 s) \<and> isfinite (q1_dot s)"

lemma inside_finite: "inside L x \<Longrightarrow> \<not> isnan x \<Longrightarrow> isfinite L \<Longrightarrow> isfinite x"
  using f64_le_finite [of "f64_neg L" x L] by (simp add: inside_def isfinite_neg)

lemma follows_accel:
  assumes f: "stepper_follows normal p" "motor_max_accel p = f64_abs A" "\<not> isnan A"
    and a: "motor_accel lm normal p pl s = (a, s')"
  shows "isfinite a"
proof -
  define n where "n = f64_mul (motor_accel_noise p) (normal (drawn s))"
  define v where "v = (if \<not> isfinite (hw_command s) then 0 else hw_command s)"
  define c where "c = f64_clamp v (f64_neg (motor_max_accel p)) (motor_max_accel p)"
  have eq: "a = f64_add c n"
    using a f(1) by (auto simp: motor_accel_def draw_def stepper_follows_def n_def c_def v_def Let_def)
  have "\<not> isnan v" by (auto simp: v_def isnan_zero dest: isfinite_not_NaN)
  then have c: "f64_le (f64_neg (motor_max_accel p)) c" "f64_le c (motor_max_accel p)"
    using f64_clamp_bounds [OF abs_bounds(3) [OF f(3)]] by (simp_all add: c_def f(2))
  have fin: "isfinite (motor_max_accel p)" "isfinite (f64_neg (motor_max_accel p))" "isfinite n"
    "isfinite (f64_add (motor_max_accel p) n)" "isfinite (f64_add (f64_neg (motor_max_accel p)) n)"
    using f(1) by (auto simp: stepper_follows_def n_def isfinite_neg Let_def)
  have cf: "isfinite c" by (rule f64_le_finite [OF c fin(2,1)])
  from f64_le_finite [OF f64_add_mono [OF c(1) fin(2) cf fin(3)] f64_add_mono [OF c(2) cf fin(1,3)] fin(5,4)]
  show ?thesis unfolding eq .
qed

lemma follows_arm_step:
  assumes f: "stepper_follows normal p" "arm_limits_ok p" and s: "arm_numbers s" "arm_confined p s"
    and fin: "isfinite a" "isfinite h" and x: "arm_step p h a s = (x, v, hit)"
  shows "isfinite x \<and> isfinite v"
proof -
  obtain va where l: "motor_max_vel p = f64_abs va" "\<not> isnan va" using f(2) by (auto simp: arm_limits_ok_def)
  have lim: "isfinite (motor_limit p)" "isfinite (motor_max_vel p)" "isfinite (stop_restitution p)"
    using f(1) by (simp_all add: stepper_follows_def)
  define w where "w = f64_clamp (f64_add (q1_dot s) (f64_mul a h)) (f64_neg (motor_max_vel p)) (motor_max_vel p)"
  define y where "y = f64_add (q1 s) (f64_mul w h)"
  have q: "isfinite (q1 s)" "isfinite (q1_dot s)" using s(1) by (simp_all add: arm_numbers_def)
  have "\<not> isnan (f64_add (q1_dot s) (f64_mul a h))"
    by (rule add_finite_not_NaN [OF q(2) mul_finite_not_NaN [OF fin]])
  then have wn: "\<not> isnan w" unfolding w_def l(1) by (rule f64_clamp_not_NaN [OF abs_bounds(3) [OF l(2)]])
  have "inside (motor_max_vel p) w" unfolding w_def l(1) by (rule inside_clamp [OF l(2)])
  then have w: "isfinite w" using wn lim(2) by (rule inside_finite)
  have y: "\<not> isnan y" unfolding y_def by (rule add_finite_not_NaN [OF q(1) mul_finite_not_NaN [OF w fin(2)]])
  have b: "\<not> isnan (f64_mul (f64_neg (stop_restitution p)) w)"
    by (rule mul_finite_not_NaN [OF _ w]) (simp add: isfinite_neg lim(3))
  have "x \<in> {motor_limit p, f64_neg (motor_limit p), y} \<and> v \<in> {f64_mul (f64_neg (stop_restitution p)) w, w}"
    using x unfolding arm_step_def Let_def w_def [symmetric] y_def [symmetric] by (auto split: if_splits)
  then have "\<not> isnan x" "\<not> isnan v"
    using y b wn isfinite_not_NaN [OF lim(1)] by (auto simp: isnan_neg)
  moreover have "inside (motor_limit p) x" "inside (motor_max_vel p) v"
    using arm_step_confined [OF f(2) _ x] s(2) by (simp_all add: arm_confined_def)
  ultimately show ?thesis using inside_finite lim by blast
qed

lemma follows_integrate:
  assumes f: "stepper_follows normal p" "arm_limits_ok p" "motor_max_accel p = f64_abs A" "\<not> isnan A"
    and "isfinite h" and s: "arm_numbers s \<and> arm_confined p s"
  shows "arm_numbers (mock_integrate lm normal p pl h s) \<and> arm_confined p (mock_integrate lm normal p pl h s)"
proof -
  obtain a s1 where a: "motor_accel lm normal p pl s = (a, s1)" by (rule prod.exhaust)
  obtain x v hit where x: "arm_step p h a s1 = (x, v, hit)" by (rule prod_cases3)
  have s1: "arm_numbers s1" "arm_confined p s1"
    using s motor_accel_keeps [OF a] by (simp_all add: arm_numbers_def arm_confined_def)
  have "isfinite x \<and> isfinite v"
    by (rule follows_arm_step [OF f(1,2) s1 follows_accel [OF f(1,3,4) a] assms(5) x])
  then have "arm_numbers (mock_integrate lm normal p pl h s)"
    by (simp add: mock_integrate_def a x draw_def Let_def arm_numbers_def)
  then show ?thesis using mock_integrate_confined [OF f(2)] s by blast
qed

lemma mock_read_numbers:
  assumes f: "stepper_follows normal p" "arm_limits_ok p" "motor_max_accel p = f64_abs A" "\<not> isnan A"
    and step: "isfinite (step_length p period)" and s: "arm_numbers s" "arm_confined p s"
    and r: "mock_read lm normal p pl cmd period s = Some (r, s')"
  shows "arm_numbers s'"
proof (cases "f64_lt 0 period")
  case False
  then show ?thesis using r s(1) by (auto simp: mock_read_def arm_numbers_def)
next
  case True
  then obtain n where n: "substeps p (simulated_time p period) = Some n"
    "s' = publish_states normal p pl (simulated_time p period) (integrate_steps lm normal p pl
      (f64_div (simulated_time p period) (int_to_double n)) (nat n) (mock_take_command cmd s))"
    using r by (auto simp: mock_read_def Let_def bind_Some_iff)
  have h: "isfinite (f64_div (simulated_time p period) (int_to_double n))"
    using step by (simp add: step_length_def n(1))
  have "arm_numbers (mock_take_command cmd s) \<and> arm_confined p (mock_take_command cmd s)"
    using s by (simp add: arm_numbers_def arm_confined_def)
  from integrate_steps_keeps [where I = "\<lambda>s. arm_numbers s \<and> arm_confined p s", OF follows_integrate [OF f h] this]
  show ?thesis unfolding n(2) by (simp add: arm_numbers_def)
qed

definition hw_confined :: "mock_params \<Rightarrow> mock_state \<Rightarrow> bool" where
  "hw_confined p s \<longleftrightarrow> arm_limits_ok p \<and> arm_confined p s \<and> angle_wrapped s"

text \<open>\<open>follows\<close>: the stepper follows its commands, and the steps of the run are finite.\<close>

definition cycle_ok :: "bool \<Rightarrow> (nat \<Rightarrow> f64) \<Rightarrow> mock_params \<Rightarrow> cycle_input \<Rightarrow> bool" where
  "cycle_ok follows normal p i \<longleftrightarrow> period_ok p (cyc_period i) \<and>
     (follows \<longrightarrow> stepper_follows normal p \<and> isfinite (step_length p (cyc_period i)))"

definition plant_ok :: "bool \<Rightarrow> f64 \<Rightarrow> mock_params \<Rightarrow> mock_state \<Rightarrow> bool" where
  "plant_ok follows a p s \<longleftrightarrow> hw_confined p s \<and> number_within (f64_abs a) (hw_command s) \<and>
     (\<exists>A. motor_max_accel p = f64_abs A \<and> (follows \<longrightarrow> \<not> isnan A)) \<and> (follows \<longrightarrow> arm_numbers s)"

interpretation pendulum_loop: feedback_loop "mock_cycle_read lm normal p pl" state_readings
  "controller_command lm" cyc_takes "cycle_ok follows normal p" "plant_ok follows a p" "ctl_bounded a"
  "inside (f64_abs a)" for lm normal p pl a follows
proof
  show "\<exists>h'. mock_cycle_read lm normal p pl u i h = Some h' \<and> plant_ok follows a p h'"
    if i: "cycle_ok follows normal p i" and u: "inside (f64_abs a) u" and h: "plant_ok follows a p h" for i h u
  proof -
    have "period_ok p (cyc_period i)" using i by (simp add: cycle_ok_def)
    then obtain s' where s': "mock_read lm normal p pl (Some u) (cyc_period i) h = Some (RT_OK, s')"
      using mock_read_returns by blast
    have k: "hw_confined p s'" "number_within (f64_abs a) (hw_command s')"
      using h mock_read_confined [OF _ _ s'] mock_read_wrapped [OF _ s'] mock_read_within [OF _ u s']
      by (simp_all add: plant_ok_def hw_confined_def)
    have "follows \<longrightarrow> arm_numbers s'"
      using h i mock_read_numbers [OF _ _ _ _ _ _ _ s']
      by (auto simp: plant_ok_def cycle_ok_def hw_confined_def)
    then show ?thesis using k h s' by (simp add: mock_cycle_read_def plant_ok_def)
  qed
  show "ctl_bounded a c' \<and> inside (f64_abs a) v"
    if "ctl_bounded a c" "controller_command lm m c = (v, c')" for c m v c'
    using that ctl_bounded_update [of a c lm m]
    by (cases "controller_update lm m c") (simp add: controller_command_def)
qed

lemma mock_activated_ok:
  assumes "read_parameters stod hp = Some p" "\<not> isnan (motor_limit p)" "\<not> isnan (motor_max_vel p)"
    "mock_on_activate normal stod hp p s0 = (r, pl, s)" "\<not> isnan a" "follows \<longrightarrow> stepper_follows normal p"
  shows "plant_ok follows a p s"
proof -
  have "hw_confined p s"
    using mock_run_confined [OF assms(1-4) mock_run.simps(1)] mock_run_wrapped [OF assms(4) mock_run.simps(1)]
      read_parameters_arm [OF assms(1-3)]
    by (simp add: hw_confined_def)
  moreover have "number_within (f64_abs a) (hw_command s)"
    unfolding mock_on_activate_command [OF assms(4)]
    by (rule inside_number [OF inside_zero [OF assms(5)] isnan_zero])
  moreover obtain A where "motor_max_accel p = f64_abs A"
    using assms(1) by (auto simp: read_parameters_def bind_Some_iff Let_def)
  moreover have "follows \<longrightarrow> \<not> isnan (motor_max_accel p)"
    using assms(6) isfinite_not_NaN by (auto simp: stepper_follows_def)
  moreover have "arm_numbers s"
  proof -
    have "q1 s = 0" "q1_dot s = 0" using mock_on_activate_published [of normal stod hp p s0] assms(4) by auto
    then show ?thesis by (simp add: arm_numbers_def isfinite_zero)
  qed
  ultimately show ?thesis by (auto simp: plant_ok_def isnan_abs)
qed

text \<open>C7: the closed loop of the controller and the simulated pendulum. From configuration and
  activation of both, for any noise, any refused commands and any periods whose number of steps fits
  an \<open>int\<close>: every cycle returns, and the command that acts on the motor is always a number within the
  controller's bound, although the controller may compute NaN (its clamp bounds numbers only) and the
  hardware takes any number (it drops NaN only). Where moreover the stepper follows its commands and
  the steps are finite, the position and the velocity of the arm are numbers within the stops and the
  maximal velocity; with step loss they may become NaN. The controller keeps the types of its members.\<close>

theorem closed_loop_stays_safe:
  assumes ctl: "controller_on_configure n c0 = Some (r, c)" "as_double n ''motor_accel_max'' = Some a"
      "\<not> isnan a"
    and hw: "read_parameters stod hp = Some p" "\<not> isnan (motor_limit p)" "\<not> isnan (motor_max_vel p)"
      "mock_on_activate normal stod hp p s0 = (r', pl, s)"
    and "is": "\<forall>i \<in> set is. period_ok p (cyc_period i)"
  shows "\<exists>c' s' u. run_cycles (pendulum_cycle lm normal p pl) is (snd (controller_on_activate c), s, 0) =
      Some (c', s', u) \<and>
      f64_le (f64_neg (f64_abs a)) (hw_command s') \<and> f64_le (hw_command s') (f64_abs a) \<and>
      (stepper_follows normal p \<and> (\<forall>i \<in> set is. isfinite (step_length p (cyc_period i))) \<longrightarrow>
         f64_le (f64_neg (motor_limit p)) (q1 s') \<and> f64_le (q1 s') (motor_limit p) \<and>
         f64_le (f64_neg (motor_max_vel p)) (q1_dot s') \<and> f64_le (q1_dot s') (motor_max_vel p)) \<and>
      well_typed c'"
proof -
  define follows where
    "follows \<longleftrightarrow> stepper_follows normal p \<and> (\<forall>i \<in> set is. isfinite (step_length p (cyc_period i)))"
  have i: "\<forall>i \<in> set is. cycle_ok follows normal p i" using "is" by (auto simp: cycle_ok_def follows_def)
  have s: "plant_ok follows a p s" by (rule mock_activated_ok [OF hw ctl(3)]) (simp add: follows_def)
  obtain c' s' u where r:
    "run_cycles (pendulum_cycle lm normal p pl) is (snd (controller_on_activate c), s, 0) = Some (c', s', u)"
    "ctl_bounded a c'" "plant_ok follows a p s'"
    using pendulum_loop.run_keeps [OF i controller_activated_bounded [OF ctl] s inside_zero [OF ctl(3)],
        of lm pl]
    unfolding pendulum_cycle_def by blast
  have "follows \<longrightarrow> number_within (motor_limit p) (q1 s') \<and> number_within (motor_max_vel p) (q1_dot s')"
    using r(3) inside_number isfinite_not_NaN
    by (auto simp: plant_ok_def hw_confined_def arm_confined_def arm_numbers_def)
  then show ?thesis
    using r unfolding follows_def [symmetric]
    by (auto simp: number_within_def ctl_bounded_def plant_ok_def)
qed

text \<open>The default parameters without step loss, and two cycles, of which the second refuses the command.\<close>

abbreviation follower :: hardware_parameters where
  "follower \<equiv> (\<lambda>name. if name = ''model_step_loss'' then Some ''false'' else None)"

lemma follower_follows:
  assumes "motor_limit p = f64_abs (dec 235619449 8)" "motor_max_vel p = f64_abs (dec 5 0)"
    "motor_max_accel p = f64_abs (dec 200 0)" "stop_restitution p = f64_clamp (dec 0 0) (dec 0 0) (dec 9 1)"
    "motor_accel_noise p = f64_abs (dec 2 2)"
    "model_step_loss p = mock_param_bool follower ''model_step_loss'' True"
  shows "stepper_follows (\<lambda>k. 0) p"
proof -
  have d: "dec 0 0 = 0" "dec 9 1 = 0x3FECCCCCCCCCCCCD" "dec 235619449 8 = 0x4002D97C7F2C85F0"
    "dec 5 0 = 0x4014000000000000" "dec 200 0 = 0x4069000000000000" "dec 2 2 = 0x3F947AE147AE147B"
    by (simp_all add: dec_def f64_eval)
  have abs: "f64_abs 0x4002D97C7F2C85F0 = 0x4002D97C7F2C85F0" "f64_abs 0x4014000000000000 = 0x4014000000000000"
    "f64_abs 0x4069000000000000 = 0x4069000000000000" "f64_abs 0x3F947AE147AE147B = 0x3F947AE147AE147B"
    by (simp_all add: f64_abs_def)
  have c: "f64_clamp 0 0 0x3FECCCCCCCCCCCCD = 0"
    by (simp add: f64_clamp_def f64_lt_def f64_key_def)
  have n: "f64_mul 0x3F947AE147AE147B 0 = 0" "f64_neg 0x4069000000000000 = 0xC069000000000000"
    "f64_add 0x4069000000000000 0 = 0x4069000000000000" "f64_add 0xC069000000000000 0 = 0xC069000000000000"
    by (simp_all add: f64_mul_def f64_neg_def f64_add_def f64_eval scaled_def)
  have fin: "isfinite 0" "isfinite 0x4002D97C7F2C85F0" "isfinite 0x4014000000000000"
    "isfinite 0x4069000000000000" "isfinite 0xC069000000000000"
    by (simp_all add: isfinite_def f64_eval)
  have "\<not> model_step_loss p" unfolding assms(6) by (simp add: mock_param_bool_def to_lower_def)
  moreover have "stop_restitution p = 0" unfolding assms(4) d c ..
  ultimately show ?thesis by (simp add: stepper_follows_def assms(1-3,5) d abs n fin Let_def)
qed

theorem closed_loop_stays_safe_witness:
  "\<exists>c p r pl s c' s' u. sample_configured = Some (CB_SUCCESS, c) \<and>
    read_parameters (\<lambda>t. None) follower = Some p \<and>
    mock_on_activate (\<lambda>k. 0) (\<lambda>t. None) follower p initial_mock_state = (r, pl, s) \<and>
    run_cycles (pendulum_cycle sample_libm (\<lambda>k. 0) p pl)
      [\<lparr>cyc_period = dec 1 3, cyc_takes = True\<rparr>, \<lparr>cyc_period = dec 1 3, cyc_takes = False\<rparr>]
      (snd (controller_on_activate c), s, 0) = Some (c', s', u) \<and>
    f64_le (hw_command s') 0x4014000000000000 \<and> f64_le (q1 s') (motor_limit p)"
proof -
  obtain c where c: "sample_configured = Some (CB_SUCCESS, c)"
    using sample_configures by (elim exE conjE) (rule that)
  obtain p where p: "read_parameters (\<lambda>t. None) follower = Some p" "\<not> isnan (motor_limit p)"
    "\<not> isnan (motor_max_vel p)" "period_ok p (dec 1 3)" "isfinite (step_length p (dec 1 3))"
    "motor_limit p = f64_abs (dec 235619449 8)" "motor_max_vel p = f64_abs (dec 5 0)"
    "motor_max_accel p = f64_abs (dec 200 0)" "stop_restitution p = f64_clamp (dec 0 0) (dec 0 0) (dec 9 1)"
    "motor_accel_noise p = f64_abs (dec 2 2)"
    "model_step_loss p = mock_param_bool follower ''model_step_loss'' True"
    using default_mock_reads [of follower] by (elim exE conjE) (rule that)
  obtain r pl s where a: "mock_on_activate (\<lambda>k. 0) (\<lambda>t. None) follower p initial_mock_state = (r, pl, s)"
    by (rule prod_cases3)
  have n: "\<not> isnan 0xC014000000000000" by (simp add: isnan_def f64_eval)
  let ?is = "[\<lparr>cyc_period = dec 1 3, cyc_takes = True\<rparr>, \<lparr>cyc_period = dec 1 3, cyc_takes = False\<rparr>]"
  have i: "\<forall>i \<in> set ?is. period_ok p (cyc_period i)" "\<forall>i \<in> set ?is. isfinite (step_length p (cyc_period i))"
    using p(4,5) by simp_all
  have "stepper_follows (\<lambda>k. 0) p" by (rule follower_follows [OF p(6-11)])
  moreover have "f64_abs 0xC014000000000000 = 0x4014000000000000" by (simp add: f64_abs_def)
  ultimately show ?thesis
    using closed_loop_stays_safe [OF c sample_parameters(1) n p(1-3) a i(1), of sample_libm] c p(1) a i(2)
    by metis
qed

end
