(* ===== verification/Schema_Header.thy ===== *)
theory Schema_Header
  imports Schema_Properties
begin

text \<open>
  The C header that the host generates for the firmware, read back as a C compiler reads it: a reader
  of its text, independent of the writer, collects the macros and the struct definitions with the
  packing in force, and lays the members out by the sizes and alignments of their types.
\<close>

section \<open>Reading a C header\<close>

primrec split_on :: "char \<Rightarrow> string \<Rightarrow> string list" where
  "split_on c [] = [[]]"
| "split_on c (x # xs) =
     (if x = c then [] # split_on c xs
      else (case split_on c xs of [] \<Rightarrow> [[x]] | l # ls \<Rightarrow> (x # l) # ls))"

definition c_words :: "string \<Rightarrow> string list" where
  "c_words line = filter (\<lambda>w. w \<noteq> []) (split_on CHR 0x20 line)"

text \<open>A struct of the header: its name, the packing at its definition, the types and names of its
  members in order. \<open>place\<close> is where in a struct definition the reader stands.\<close>

record c_struct =
  struct_name :: string
  struct_pack :: "nat option"
  struct_members :: "(string \<times> string) list"

datatype c_place = Outside | Opening | Inside "(string \<times> string) list"

record c_unit =
  macros :: "(string \<times> string list) list"
  packs :: "nat list"
  place :: c_place
  structs :: "c_struct list"

definition c_unit_start :: c_unit where
  "c_unit_start = \<lparr>macros = [], packs = [], place = Outside, structs = []\<rparr>"

text \<open>One line, \<open>None\<close> when it is not understood.\<close>

definition c_outside :: "string list \<Rightarrow> c_unit \<Rightarrow> c_unit option" where
  "c_outside ws u =
     (if ws = [] \<or> hd ws \<in> {''#ifndef'', ''#include'', ''#endif''} then Some u
      else if hd ws = ''#define'' \<and> tl ws \<noteq> [] then Some (u\<lparr>macros := macros u @ [(ws ! 1, drop 2 ws)]\<rparr>)
      else if ws = [''#pragma'', ''pack(push,'', ''1)''] then Some (u\<lparr>packs := 1 # packs u\<rparr>)
      else if ws = [''#pragma'', ''pack(pop)''] \<and> packs u \<noteq> [] then Some (u\<lparr>packs := tl (packs u)\<rparr>)
      else if ws = [''typedef'', ''struct''] then Some (u\<lparr>place := Opening\<rparr>)
      else None)"

definition c_line :: "string list \<Rightarrow> c_unit \<Rightarrow> c_unit option" where
  "c_line ws u =
     (case place u of
        Outside \<Rightarrow> c_outside ws u
      | Opening \<Rightarrow> if ws = [''{''] then Some (u\<lparr>place := Inside []\<rparr>) else None
      | Inside ms \<Rightarrow>
          if length ws \<noteq> 2 \<or> last (ws ! 1) \<noteq> CHR 0x3B then None
          else if ws ! 0 = ''}'' then
            Some (u\<lparr>place := Outside,
                    structs := structs u @
                      [\<lparr>struct_name = butlast (ws ! 1),
                        struct_pack = (case packs u of [] \<Rightarrow> None | n # _ \<Rightarrow> Some n),
                        struct_members = ms\<rparr>]\<rparr>)
          else Some (u\<lparr>place := Inside (ms @ [(ws ! 0, butlast (ws ! 1))])\<rparr>))"

primrec c_lines :: "string list \<Rightarrow> c_unit \<Rightarrow> c_unit option" where
  "c_lines [] u = Some u"
| "c_lines (l # ls) u = Option.bind (c_line (c_words l) u) (c_lines ls)"

definition c_read :: "string \<Rightarrow> c_unit option" where
  "c_read text = c_lines (split_on CHR 0x0A text) c_unit_start"

section \<open>Laying a struct out\<close>

text \<open>The scalar types of C the headers use, with their sizes, which are also their alignments.\<close>

definition c_type :: "string \<Rightarrow> (FieldType \<times> nat) option" where
  "c_type t = map_of
     [(''float'', (FLOAT32, 4)), (''double'', (FLOAT64, 8)), (''int32_t'', (INT32, 4)),
      (''uint64_t'', (UINT64, 8)), (''int16_t'', (INT16, 2)), (''uint8_t'', (UINT8, 1))] t"

definition c_sizeof :: "string \<Rightarrow> nat" where
  "c_sizeof t = (case c_type t of None \<Rightarrow> 0 | Some (_, n) \<Rightarrow> n)"

definition c_align :: "nat option \<Rightarrow> string \<Rightarrow> nat" where
  "c_align pack t = (case pack of None \<Rightarrow> c_sizeof t | Some n \<Rightarrow> min n (c_sizeof t))"

definition align_to :: "nat \<Rightarrow> nat \<Rightarrow> nat" where
  "align_to a n = (if n mod a = 0 then n else n + (a - n mod a))"

fun member_offsets :: "nat option \<Rightarrow> nat \<Rightarrow> (string \<times> string) list \<Rightarrow> nat list \<times> nat" where
  "member_offsets pack off [] = ([], off)"
| "member_offsets pack off ((t, name) # ms) =
     (let start = align_to (c_align pack t) off;
          (offs, n) = member_offsets pack (start + c_sizeof t) ms
      in (start # offs, n))"

text \<open>The members with their types and offsets, and \<open>sizeof\<close> the struct, a multiple of the largest
  alignment.\<close>

definition struct_layout :: "c_struct \<Rightarrow> (string \<times> FieldType option \<times> nat) list" where
  "struct_layout c = map2 (\<lambda>(t, n) off. (n, map_option fst (c_type t), off))
     (struct_members c) (fst (member_offsets (struct_pack c) 0 (struct_members c)))"

definition struct_size :: "c_struct \<Rightarrow> nat" where
  "struct_size c = align_to (fold max (map (\<lambda>(t, n). c_align (struct_pack c) t) (struct_members c)) 1)
     (snd (member_offsets (struct_pack c) 0 (struct_members c)))"

section \<open>The generated text\<close>

lemma split_on_cut: "c \<notin> set l \<Longrightarrow> split_on c (l @ c # rest) = l # split_on c rest"
  by (induction l) auto

lemma split_on_last: "c \<notin> set l \<Longrightarrow> split_on c l = [l]"
  by (induction l) auto

lemma split_lines:
  "\<forall>l \<in> set ls. CHR 0x0A \<notin> set l \<Longrightarrow> split_on CHR 0x0A (concat (map (\<lambda>l. l @ nl) ls)) = ls @ [[]]"
  by (induction ls) (simp_all add: nl_def split_on_cut)

lemma c_lines_append: "c_lines (as @ bs) u = Option.bind (c_lines as u) (c_lines bs)"
  by (induction as arbitrary: u) (auto split: bind_splits)

definition digits :: string where "digits = ''0123456789abcdef''"

lemma fmt_u_chars: "set (fmt_u n) \<subseteq> set digits"
proof (induction n rule: fmt_u.induct)
  case (1 n)
  have d: "digit d \<in> set digits" for d unfolding digit_def digits_def by (intro nth_mem) simp
  show ?case
  proof (cases "n < 10")
    case True
    then show ?thesis using d by (simp add: fmt_u.simps [of n])
  next
    case False
    then show ?thesis using 1 [OF False] d by (simp add: fmt_u.simps [of n])
  qed
qed

lemma fmt_u_plain [simp]: "CHR 0x20 \<notin> set (fmt_u n)" "CHR 0x0A \<notin> set (fmt_u n)" "fmt_u n \<noteq> []"
proof -
  have "CHR 0x20 \<notin> set digits" "CHR 0x0A \<notin> set digits" by (simp_all add: digits_def)
  then show "CHR 0x20 \<notin> set (fmt_u n)" "CHR 0x0A \<notin> set (fmt_u n)" using fmt_u_chars [of n] by blast+
  show "fmt_u n \<noteq> []" by (simp add: fmt_u.simps [of n])
qed

lemma c_type_plain [simp]:
  "CHR 0x20 \<notin> set (field_type_to_c_type ty)" "CHR 0x0A \<notin> set (field_type_to_c_type ty)"
  "field_type_to_c_type ty \<noteq> []" "field_type_to_c_type ty \<noteq> ''}''"
  by (cases ty; simp add: field_type_to_c_type_def)+

text \<open>The names a schema gives a member, when they are identifiers of C.\<close>

definition c_identifier_chars :: string where
  "c_identifier_chars = ''ABCDEFGHIJKLMNOPQRSTUVWXYZabcdefghijklmnopqrstuvwxyz0123456789_''"

definition c_identifier :: "string \<Rightarrow> bool" where
  "c_identifier s \<longleftrightarrow> list_all (\<lambda>c. c \<in> set c_identifier_chars) s"

definition member_name :: "FlatField \<Rightarrow> string" where
  "member_name f = component f @ ''_'' @ field_name f"

lemma identifier_plain:
  assumes "c_identifier s"
  shows "CHR 0x20 \<notin> set s" "CHR 0x0A \<notin> set s"
proof -
  have "CHR 0x20 \<notin> set c_identifier_chars" "CHR 0x0A \<notin> set c_identifier_chars"
    by (simp_all add: c_identifier_chars_def)
  then show "CHR 0x20 \<notin> set s" "CHR 0x0A \<notin> set s" using assms by (auto simp: c_identifier_def list_all_iff)
qed

definition member_line :: "FlatField \<Rightarrow> string" where
  "member_line f = ''  '' @ field_type_to_c_type (field_type f) @ '' '' @ member_name f @ '';''"

definition header_lines :: "InterfaceSchema \<Rightarrow> string list" where
  "header_lines s =
     [''#ifndef '' @ c_guard, ''#define '' @ c_guard, [], ''#include <stdint.h>'', [],
      ''#define ZENBEDDED_STATE_BYTE_SIZE '' @ fmt_u (state_buffer_size s),
      ''#define ZENBEDDED_COMMAND_BYTE_SIZE '' @ fmt_u (command_buffer_size s), [],
      ''#pragma pack(push, 1)'', ''typedef struct'', ''{''] @
     map member_line (state_flat_fields s) @
     [''} zenbedded_state_t;'', [], ''typedef struct'', ''{''] @
     map member_line (command_flat_fields s) @
     [''} zenbedded_command_t;'', ''#pragma pack(pop)'', [], ''#endif  // '' @ c_guard]"

lemma c_header_lines: "c_header s = concat (map (\<lambda>l. l @ nl) (header_lines s))"
proof -
  have "c_member = (\<lambda>f. member_line f @ nl)"
    by (rule ext) (simp add: c_member_def member_line_def member_name_def)
  then show ?thesis by (simp add: c_header_def header_lines_def o_def)
qed

lemma member_words:
  "c_identifier (member_name f) \<Longrightarrow>
   c_words (member_line f) = [field_type_to_c_type (field_type f), member_name f @ '';'']"
  using split_on_cut [of "CHR 0x20" "field_type_to_c_type (field_type f)" "member_name f @ '';''"]
  by (simp add: c_words_def member_line_def identifier_plain split_on_last)

definition c_members :: "FlatField list \<Rightarrow> (string \<times> string) list" where
  "c_members fs = map (\<lambda>f. (field_type_to_c_type (field_type f), member_name f)) fs"

lemma c_lines_members:
  "list_all (\<lambda>f. c_identifier (member_name f)) fs \<Longrightarrow> place u = Inside ms \<Longrightarrow>
   c_lines (map member_line fs) u = Some (u\<lparr>place := Inside (ms @ c_members fs)\<rparr>)"
  by (induction fs arbitrary: u ms) (simp_all add: c_members_def member_words c_line_def)

lemma header_words:
  "c_words [] = []" "c_words (''#ifndef '' @ c_guard) = [''#ifndef'', c_guard]"
  "c_words (''#define '' @ c_guard) = [''#define'', c_guard]"
  "c_words ''#include <stdint.h>'' = [''#include'', ''<stdint.h>'']"
  "c_words (''#define ZENBEDDED_STATE_BYTE_SIZE '' @ fmt_u n) = [''#define'', ''ZENBEDDED_STATE_BYTE_SIZE'', fmt_u n]"
  "c_words (''#define ZENBEDDED_COMMAND_BYTE_SIZE '' @ fmt_u n) = [''#define'', ''ZENBEDDED_COMMAND_BYTE_SIZE'', fmt_u n]"
  "c_words ''#pragma pack(push, 1)'' = [''#pragma'', ''pack(push,'', ''1)'']"
  "c_words ''#pragma pack(pop)'' = [''#pragma'', ''pack(pop)'']"
  "c_words ''typedef struct'' = [''typedef'', ''struct'']" "c_words ''{'' = [''{'']"
  "c_words ''} zenbedded_state_t;'' = [''}'', ''zenbedded_state_t;'']"
  "c_words ''} zenbedded_command_t;'' = [''}'', ''zenbedded_command_t;'']"
  "c_words (''#endif  // '' @ c_guard) = [''#endif'', ''//'', c_guard]"
  by (simp_all add: c_words_def c_guard_def split_on_last)

lemmas header_words_literal =
  header_words header_words(2,3,5,6,13) [unfolded append_Cons append_Nil]

lemma header_steps:
  "c_outside [] u = Some u" "c_outside [''#ifndef'', g] u = Some u" "c_outside [''#include'', g] u = Some u"
  "c_outside [''#endif'', x, g] u = Some u"
  "c_outside [''#define'', g] u = Some (u\<lparr>macros := macros u @ [(g, [])]\<rparr>)"
  "c_outside [''#define'', g, x] u = Some (u\<lparr>macros := macros u @ [(g, [x])]\<rparr>)"
  "c_outside [''#pragma'', ''pack(push,'', ''1)''] u = Some (u\<lparr>packs := 1 # packs u\<rparr>)"
  "packs u \<noteq> [] \<Longrightarrow> c_outside [''#pragma'', ''pack(pop)''] u = Some (u\<lparr>packs := tl (packs u)\<rparr>)"
  "c_outside [''typedef'', ''struct''] u = Some (u\<lparr>place := Opening\<rparr>)"
  by (simp_all add: c_outside_def)

text \<open>A struct definition, read inside a packing of 1.\<close>

lemma c_lines_struct:
  assumes "list_all (\<lambda>f. c_identifier (member_name f)) fs" "place u = Outside" "packs u = [1]"
    and "c_words closing = [''}'', name @ '';'']"
  shows "c_lines (''typedef struct'' # ''{'' # map member_line fs @ closing # ls) u =
     c_lines ls (u\<lparr>structs := structs u @
       [\<lparr>struct_name = name, struct_pack = Some 1, struct_members = c_members fs\<rparr>]\<rparr>)"
proof -
  let ?u = "u\<lparr>place := Inside []\<rparr>"
  have m: "c_lines (map member_line fs) ?u = Some (?u\<lparr>place := Inside (c_members fs)\<rparr>)"
    using c_lines_members [OF assms(1), of ?u "[]"] by simp
  have same: "u\<lparr>place := Outside, structs := x\<rparr> = u\<lparr>structs := x\<rparr>" for x using assms(2) by (cases u) simp
  then show ?thesis
    using assms(2-4)
    by (simp add: header_words c_line_def header_steps c_lines_append m same)
qed

lemma c_read_header:
  assumes "list_all (\<lambda>f. c_identifier (member_name f)) (state_flat_fields s @ command_flat_fields s)"
  shows "c_read (c_header s) = Some
    \<lparr>macros = [(c_guard, []), (''ZENBEDDED_STATE_BYTE_SIZE'', [fmt_u (state_buffer_size s)]),
               (''ZENBEDDED_COMMAND_BYTE_SIZE'', [fmt_u (command_buffer_size s)])],
     packs = [], place = Outside,
     structs =
       [\<lparr>struct_name = ''zenbedded_state_t'', struct_pack = Some 1,
         struct_members = c_members (state_flat_fields s)\<rparr>,
        \<lparr>struct_name = ''zenbedded_command_t'', struct_pack = Some 1,
         struct_members = c_members (command_flat_fields s)\<rparr>]\<rparr>"
proof -
  have ok: "list_all (\<lambda>f. c_identifier (member_name f)) (state_flat_fields s)"
    "list_all (\<lambda>f. c_identifier (member_name f)) (command_flat_fields s)"
    using assms by simp_all
  have "\<forall>l \<in> set (header_lines s). CHR 0x0A \<notin> set l"
    using ok identifier_plain(2) by (auto simp: header_lines_def member_line_def c_guard_def list_all_iff)
  then have lines: "c_read (c_header s) = c_lines (header_lines s @ [[]]) c_unit_start"
    by (simp add: c_read_def c_header_lines split_lines)
  let ?h = "[''#ifndef '' @ c_guard, ''#define '' @ c_guard, [], ''#include <stdint.h>'', [],
      ''#define ZENBEDDED_STATE_BYTE_SIZE '' @ fmt_u (state_buffer_size s),
      ''#define ZENBEDDED_COMMAND_BYTE_SIZE '' @ fmt_u (command_buffer_size s), [], ''#pragma pack(push, 1)'']"
    and ?e = "[''#pragma pack(pop)'', [], ''#endif  // '' @ c_guard, []]"
  have split: "header_lines s @ [[]] = ?h @ ''typedef struct'' # ''{'' # map member_line (state_flat_fields s) @
      ''} zenbedded_state_t;'' # [] # ''typedef struct'' # ''{'' # map member_line (command_flat_fields s) @
      ''} zenbedded_command_t;'' # ?e"
    by (simp add: header_lines_def)
  have start: "c_lines ?h c_unit_start = Some
    \<lparr>macros = [(c_guard, []), (''ZENBEDDED_STATE_BYTE_SIZE'', [fmt_u (state_buffer_size s)]),
               (''ZENBEDDED_COMMAND_BYTE_SIZE'', [fmt_u (command_buffer_size s)])],
     packs = [1], place = Outside, structs = []\<rparr>"
    by (simp add: header_words_literal header_steps c_line_def c_unit_start_def)
  have words: "c_words ''} zenbedded_state_t;'' = [''}'', ''zenbedded_state_t'' @ '';'']"
    "c_words ''} zenbedded_command_t;'' = [''}'', ''zenbedded_command_t'' @ '';'']"
    by (simp_all add: header_words)
  have blank: "c_lines ([] # ls) u = c_lines ls u" if "place u = Outside" for ls u
    using that by (simp add: header_words_literal header_steps c_line_def)
  have finish: "c_lines ?e u = Some (u\<lparr>packs := []\<rparr>)" if "place u = Outside" "packs u = [1]" for u
    using that by (simp add: header_words_literal header_steps c_line_def)
  show ?thesis
    unfolding lines split c_lines_append start Option.bind.bind_lunit
    by (simp add: c_lines_struct [OF ok(1) _ _ words(1)] c_lines_struct [OF ok(2) _ _ words(2)] blank
        finish [unfolded append_Cons append_Nil]
        del: c_lines.simps)
qed

section \<open>The layout of the structs\<close>

lemma c_type_field: "c_type (field_type_to_c_type ty) = Some (ty, field_byte_size ty)"
  by (cases ty) (simp_all add: c_type_def field_type_to_c_type_def field_byte_size_def)

lemma packed_align: "c_align (Some (Suc 0)) (field_type_to_c_type ty) = Suc 0"
  by (cases ty) (simp_all add: c_align_def c_sizeof_def c_type_field field_byte_size_def)

lemma align_to_1 [simp]: "align_to (Suc 0) n = n"
  by (simp add: align_to_def)

lemma packed_member_offsets:
  "member_offsets (Some (Suc 0)) off (c_members fs) =
     (map (\<lambda>i. off + sum_list (field_sizes (take i fs))) [0..<length fs], off + sum_list (field_sizes fs))"
proof (induction fs arbitrary: off)
  case (Cons f fs)
  have upt: "[0..<length (f # fs)] = 0 # map Suc [0..<length fs]"
    by (simp add: upt_conv_Cons map_Suc_upt del: upt_Suc)
  have "c_members (f # fs) = (field_type_to_c_type (field_type f), member_name f) # c_members fs"
    by (simp add: c_members_def)
  then show ?case
    unfolding upt using Cons.IH [of "off + field_byte_size (field_type f)"]
    by (simp add: packed_align c_sizeof_def c_type_field field_sizes_def o_def add.assoc)
qed (simp add: c_members_def field_sizes_def)

lemma fold_max_ones: "\<forall>x \<in> set xs. x = Suc 0 \<Longrightarrow> fold max xs (Suc 0) = Suc 0"
  by (induction xs) auto

lemma packed_struct_layout:
  fixes name :: string
  assumes "packed fs n"
  defines "c \<equiv> \<lparr>struct_name = name, struct_pack = Some 1, struct_members = c_members fs\<rparr>"
  shows "struct_layout c = map (\<lambda>f. (member_name f, Some (field_type f), byte_offset f)) fs"
    and "struct_size c = n"
proof -
  have "map2 (\<lambda>(t, m) off. (m, map_option fst (c_type t), off)) (c_members fs)
      (map (\<lambda>i. sum_list (field_sizes (take i fs))) [0..<length fs]) =
    map (\<lambda>f. (member_name f, Some (field_type f), byte_offset f)) fs"
    using assms(1) by (intro nth_equalityI) (auto simp: c_members_def packed_def c_type_field)
  then show "struct_layout c = map (\<lambda>f. (member_name f, Some (field_type f), byte_offset f)) fs"
    by (simp add: struct_layout_def c_def packed_member_offsets)
  have "fold max (map (\<lambda>(t, m). c_align (Some (Suc 0)) t) (c_members fs)) (Suc 0) = Suc 0"
    by (rule fold_max_ones) (auto simp: c_members_def packed_align)
  then show "struct_size c = n"
    using assms(1) by (simp add: struct_size_def c_def packed_member_offsets packed_def)
qed

section \<open>Properties\<close>

text \<open>C30: host and firmware agree on the bytes. Reading the text of the header that the host writes
  for a schema it has parsed, whose member names are identifiers of C, gives exactly the two structs
  of states and commands; their members are the fields of the schema, in its order and with its types,
  each at the offset where the host reads and writes it under the packing of the header; \<open>sizeof\<close> the
  structs, and the macros, are the payload sizes the host expects.\<close>

theorem generated_struct_matches_schema:
  assumes "write_c_header (from_yaml y text) open_ok = (True, Some header)"
    and "list_all (\<lambda>f. c_identifier (component f @ ''_'' @ field_name f))
           (state_flat_fields (from_yaml y text) @ command_flat_fields (from_yaml y text))"
  shows "\<exists>u st cm. c_read header = Some u \<and> structs u = [st, cm] \<and>
    struct_name st = ''zenbedded_state_t'' \<and> struct_name cm = ''zenbedded_command_t'' \<and>
    struct_layout st = map (\<lambda>f. (component f @ ''_'' @ field_name f, Some (field_type f), byte_offset f))
      (state_flat_fields (from_yaml y text)) \<and>
    struct_size st = state_buffer_size (from_yaml y text) \<and>
    struct_layout cm = map (\<lambda>f. (component f @ ''_'' @ field_name f, Some (field_type f), byte_offset f))
      (command_flat_fields (from_yaml y text)) \<and>
    struct_size cm = command_buffer_size (from_yaml y text) \<and>
    map_of (macros u) ''ZENBEDDED_STATE_BYTE_SIZE'' = Some [fmt_u (struct_size st)] \<and>
    map_of (macros u) ''ZENBEDDED_COMMAND_BYTE_SIZE'' = Some [fmt_u (struct_size cm)]"
proof -
  let ?s = "from_yaml y text"
  have h: "header = c_header ?s" using assms(1) by (auto simp: write_c_header_def split: if_splits)
  note read = c_read_header [OF assms(2) [folded member_name_def], folded h]
  have pk: "packed (state_flat_fields ?s) (state_buffer_size ?s)"
    "packed (command_flat_fields ?s) (command_buffer_size ?s)"
    using from_yaml_packed by blast+
  note st = packed_struct_layout [OF pk(1), of "''zenbedded_state_t''", unfolded member_name_def]
    and cm = packed_struct_layout [OF pk(2), of "''zenbedded_command_t''", unfolded member_name_def]
  let ?st = "\<lparr>struct_name = ''zenbedded_state_t'', struct_pack = Some 1,
      struct_members = c_members (state_flat_fields ?s)\<rparr>"
    and ?cm = "\<lparr>struct_name = ''zenbedded_command_t'', struct_pack = Some 1,
      struct_members = c_members (command_flat_fields ?s)\<rparr>"
  obtain u where u: "c_read header = Some u" "structs u = [?st, ?cm]"
    "macros u = [(c_guard, []), (''ZENBEDDED_STATE_BYTE_SIZE'', [fmt_u (state_buffer_size ?s)]),
                 (''ZENBEDDED_COMMAND_BYTE_SIZE'', [fmt_u (command_buffer_size ?s)])]"
    using read by simp
  have "map_of (macros u) ''ZENBEDDED_STATE_BYTE_SIZE'' = Some [fmt_u (struct_size ?st)]"
    "map_of (macros u) ''ZENBEDDED_COMMAND_BYTE_SIZE'' = Some [fmt_u (struct_size ?cm)]"
    unfolding u(3) st(2) cm(2) by (simp_all add: c_guard_def)
  moreover have "struct_name ?st = ''zenbedded_state_t''" "struct_name ?cm = ''zenbedded_command_t''" by simp_all
  ultimately show ?thesis using u(1,2) st cm by blast
qed

theorem generated_struct_matches_schema_witness:
  "\<exists>header u cm. write_c_header sample_schema True = (True, Some header) \<and> c_read header = Some u \<and>
     cm \<in> set (structs u) \<and> struct_size cm = 11 \<and>
     struct_layout cm = [(''arm_mode'', Some UINT8, 0), (''arm_velocity'', Some FLOAT64, 1),
       (''arm_current'', Some INT16, 9)]"
proof -
  have w: "write_c_header (from_yaml (tree_api sample_yaml) []) True = (True, Some (c_header sample_schema))"
    unfolding sample_schema_def [symmetric] by (simp add: write_c_header_def sample_schema_eq)
  have "list_all (\<lambda>f. c_identifier (component f @ ''_'' @ field_name f))
      (state_flat_fields sample_schema @ command_flat_fields sample_schema)"
    by (simp add: sample_schema_eq c_identifier_def c_identifier_chars_def)
  from generated_struct_matches_schema [OF w this [unfolded sample_schema_def]] show ?thesis
    unfolding sample_schema_def [symmetric] using w [folded sample_schema_def]
    by (fastforce simp: sample_schema_eq)
qed

end
