(* ===== verification/Pendulum_System.thy ===== *)
theory Pendulum_System
  imports Controller_Properties Hardware_Properties Pendulum_Tier2_Properties
begin

text \<open>
  The inverted pendulum as one system: the controller and the ros2_control hardware on the host, the
  Tier 2 firmware, and the two topics between them. The steps of the system are the operations of
  the components, in any order. Zenoh may lose, delay, duplicate and reorder what is published:
  a subscriber receives anything that was ever put on its topic, and payloads of other sizes from
  anyone. The firmware may be reset at any time.
\<close>

section \<open>The schema of the demo\<close>

text \<open>\<open>inverted_pendulum_ros/config/interface_schema.yaml\<close>, as yaml-cpp presents it.\<close>

definition pendulum_yaml :: ynode where
  "pendulum_yaml = YMap
     [(YScalar ''state_interfaces'', YMap
        [(YScalar ''motor_joint'', YMap [(YScalar ''position'', YScalar ''float64''),
                                         (YScalar ''velocity'', YScalar ''float64'')]),
         (YScalar ''pendulum_joint'', YMap [(YScalar ''position'', YScalar ''float64''),
                                            (YScalar ''velocity'', YScalar ''float64'')])]),
      (YScalar ''command_interfaces'', YMap
        [(YScalar ''motor_joint'', YMap [(YScalar ''acceleration'', YScalar ''float64'')])])]"

definition pendulum_schema :: InterfaceSchema where
  "pendulum_schema = from_yaml (tree_api pendulum_yaml) []"

lemma pendulum_schema_eq: "pendulum_schema =
  \<lparr>schema_valid = True, schema_error = [], state_buffer_size = 32, command_buffer_size = 8,
   state_flat_fields =
     [\<lparr>component = ''motor_joint'', field_name = ''position'', field_type = FLOAT64, byte_offset = 0\<rparr>,
      \<lparr>component = ''motor_joint'', field_name = ''velocity'', field_type = FLOAT64, byte_offset = 8\<rparr>,
      \<lparr>component = ''pendulum_joint'', field_name = ''position'', field_type = FLOAT64, byte_offset = 16\<rparr>,
      \<lparr>component = ''pendulum_joint'', field_name = ''velocity'', field_type = FLOAT64, byte_offset = 24\<rparr>],
   command_flat_fields =
     [\<lparr>component = ''motor_joint'', field_name = ''acceleration'', field_type = FLOAT64, byte_offset = 0\<rparr>]\<rparr>"
  by code_simp

section \<open>The firmware under commands of one kind\<close>

text \<open>The command the client would return next, and its preservation: when every payload of the
  size of a command satisfies \<open>P\<close>, so does the one in the buffer.\<close>

definition holds_command :: "(bytes \<Rightarrow> bool) \<Rightarrow> client_config \<Rightarrow> (unit, unit) client \<Rightarrow> bool" where
  "holds_command P cfg c \<longleftrightarrow>
     (\<forall>b. nth_slot (slots (cmd_buffer c)) (active_idx (cmd_buffer c)) = Some b \<longrightarrow> P (take 8 b))"

definition commands_are :: "(bytes \<Rightarrow> bool) \<Rightarrow> bytes list \<Rightarrow> bool" where
  "commands_are P bs \<longleftrightarrow> (\<forall>b \<in> set bs. length b = 8 \<longrightarrow> P b)"

lemma ready_raw:
  assumes "raw_client.ready 32 8 cfg () () c"
  shows "dbb_wf (max_cmd_buffer_size cfg) (cmd_buffer c)" "8 \<le> max_cmd_buffer_size cfg"
    "initialized c" "unat (cmd_payload_size c) = 8"
  using assms unfolding raw_client.ready_def by (auto simp: client_wf_def)

lemma delivered_one_holds:
  assumes "raw_client.ready 32 8 cfg () () c" "holds_command P cfg c" "length b = 8 \<longrightarrow> P b"
    and "length b < 2 ^ 32" "on_transport_cmd_cb cfg b (word_of_nat (length b)) c = Some c'"
  shows "holds_command P cfg c'"
proof (cases "length b = 8")
  case False
  moreover have "unat (word_of_nat (length b) :: size_t) = length b"
    using assms(4) by (simp add: unat_of_nat)
  ultimately have "word_of_nat (length b) \<noteq> cmd_payload_size c"
    using ready_raw(4) [OF assms(1)] by metis
  with assms(2,5) show ?thesis by (simp add: on_transport_cmd_cb_def)
next
  case True
  have wf: "dbb_wf (max_cmd_buffer_size cfg) (cmd_buffer c)" "8 \<le> max_cmd_buffer_size cfg" "8 \<le> length b"
    and n: "unat (cmd_payload_size c) = 8"
    using ready_raw [OF assms(1)] True by simp_all
  have "word_of_nat (length b) = cmd_payload_size c" using n True by (simp add: word_unat_eq_iff)
  with assms(5) n obtain r where r: "dbb_write (max_cmd_buffer_size cfg) (Some b) 8 (cmd_buffer c) = Some r"
    "cmd_buffer c' = snd r"
    using True by (auto simp: on_transport_cmd_cb_def write_command_to_buffer_def)
  with dbb_write_latest [OF wf] have "\<exists>x. nth_slot (slots (cmd_buffer c')) (active_idx (cmd_buffer c')) = Some x \<and>
      take 8 x = take 8 b" by auto
  with True assms(3) show ?thesis by (auto simp: holds_command_def)
qed

lemma delivered_holds:
  assumes "raw_client.ready 32 8 cfg () () c" "holds_command P cfg c" "commands_are P bs"
    and "\<forall>b \<in> set bs. length b < 2 ^ 32" "deliver_all cfg bs c = Some c'"
  shows "holds_command P cfg c'"
  using assms
proof (induction bs arbitrary: c)
  case Nil
  then show ?case by simp
next
  case (Cons b bs)
  obtain c1 where c1: "on_transport_cmd_cb cfg b (word_of_nat (length b)) c = Some c1"
    "deliver_all cfg bs c1 = Some c'"
    using Cons.prems(5) by (auto simp: bind_Some_iff)
  have "raw_client.ready 32 8 cfg () () c1"
    using raw_client.deliver_all_ready [OF Cons.prems(1), of "[b]"] c1(1) Cons.prems(4) by auto
  moreover have "holds_command P cfg c1"
    using delivered_one_holds [OF Cons.prems(1,2) _ _ c1(1)] Cons.prems(3,4) by (auto simp: commands_are_def)
  ultimately show ?case using Cons.IH c1(2) Cons.prems(3,4) by (auto simp: commands_are_def)
qed

lemma read_command_holds:
  assumes "raw_client.ready 32 8 cfg () () c" "holds_command P cfg c"
    and "length tmp = max_cmd_buffer_size cfg" "length out = 8"
    and "read_command (raw_read 8) cfg tmp c out = Some (True, w)"
  shows "P w \<and> length w = 8"
proof -
  note wf = ready_raw [OF assms(1)]
  obtain b where b: "nth_slot (slots (cmd_buffer c)) (active_idx (cmd_buffer c)) = Some b"
    "length b = max_cmd_buffer_size cfg"
    using dbb_active_ex [OF wf(1)] by blast
  have "read_until (max_cmd_buffer_size cfg) (cmd_buffer c) tmp 8 = Some (take 8 b @ drop 8 tmp)"
    using read_until_fits [OF wf(1) wf(2) _ b(1)] assms(3) wf(2) by simp
  moreover have "cmd_payload_size c = 8" using wf(4) by (simp add: word_unat_eq_iff)
  ultimately have "w = take 8 b"
    using assms(4,5) wf b(2)
    by (auto simp: read_command_def read_latest_command_raw_def raw_read_def mem_read_def
        mem_write_def blit_def bind_Some_iff split: if_splits)
  with assms(2) b wf(2) show ?thesis by (simp add: holds_command_def)
qed

text \<open>An acceleration that is a number of at most the magnitude \<open>L\<close>; what it does to the velocity.\<close>

definition accel_ok :: "f64 \<Rightarrow> f64 \<Rightarrow> bool" where
  "accel_ok L a \<longleftrightarrow> \<not> isnan a \<and> inside L a"

abbreviation command_ok :: "f64 \<Rightarrow> bytes \<Rightarrow> bool" where
  "command_ok L b \<equiv> accel_ok L (of_le64 b)"

lemma max_speed_bounds:
  "\<exists>m e. of_f64 (f64_neg kMaxAngularVelocity) = Fin True m e"
  "\<exists>m e. of_f64 kMaxAngularVelocity = Fin False m e"
  "\<not> isnan (f64_neg kMaxAngularVelocity)" "\<not> isnan kMaxAngularVelocity"
  by (simp_all only: neg_kMaxAngularVelocity_eq) (simp_all only: kMaxAngularVelocity_eq,
    simp_all add: isnan_def of_f64_def fp_decode_def binary64_def Let_def)

lemma integrate_number:
  assumes "speed_ok (stepper_angular_velocity s)" "\<not> isnan (stepper_angular_velocity s)"
    and "\<not> isnan (commanded_acceleration s)"
  shows "\<not> isnan (integrate s)"
proof -
  obtain m e n g where b: "of_f64 (f64_neg kMaxAngularVelocity) = Fin True m e"
    "of_f64 kMaxAngularVelocity = Fin False n g"
    using max_speed_bounds by blast
  have "isfinite (stepper_angular_velocity s)"
    using assms(1,2) by (intro f64_key_between_finite [OF b]) (auto simp: speed_ok_def f64_le_def)
  moreover have "\<exists>e. of_f64 kControlPeriodSec = Fin False 5764607523034235 e"
    by (simp add: kControlPeriodSec_eq of_f64_def fp_decode_def binary64_def Let_def)
  then have "\<not> isnan (f64_mul (commanded_acceleration s) kControlPeriodSec)"
    using mul_nonzero_not_NaN [OF assms(3)] by fastforce
  ultimately show ?thesis
    unfolding integrate_def by (intro f64_clamp_not_NaN max_speed_le add_finite_not_NaN)
qed

definition firmware_ok :: "f64 \<Rightarrow> client_config \<Rightarrow> nat \<Rightarrow> tier2_state \<Rightarrow> bool" where
  "firmware_ok L cfg res s \<longleftrightarrow>
     tier2_good cfg res s \<and> holds_command (command_ok L) cfg (client2 s) \<and>
     accel_ok L (commanded_acceleration s) \<and> \<not> isnan (stepper_angular_velocity s)"

lemma follow_command_ok:
  assumes f: "follow_command cfg i s = Some s'" and r: "raw_client.ready 32 8 cfg () () (client2 s)"
    and h: "holds_command (command_ok L) cfg (client2 s)" and i: "tier2_input_ok cfg i"
    and late: "commands_are (command_ok L) (in_late i)"
    and a: "accel_ok L (commanded_acceleration s)" and z: "accel_ok L 0"
    and v: "speed_ok (stepper_angular_velocity s)" "\<not> isnan (stepper_angular_velocity s)"
  shows "holds_command (command_ok L) cfg (client2 s') \<and> accel_ok L (commanded_acceleration s') \<and>
    speed_ok (stepper_angular_velocity s') \<and> \<not> isnan (stepper_angular_velocity s')"
proof (cases "accepted_command_count (client2 s) = last_command_count s")
  case True
  with f h a z v speed_ok_0 show ?thesis
    by (auto simp: follow_command_def isnan_zero split: if_splits)
next
  case False
  obtain c ok w where c: "deliver_all cfg (in_late i) (client2 s) = Some c"
    "read_command (raw_read 8) cfg (in_tmp i) c (in_cmd_val i) = Some (ok, w)"
    "s' = s\<lparr>last_command_count := accepted_command_count (client2 s), cycles_since_command := 0,
        client2 := c\<rparr> \<or> ok \<and>
     s' = s\<lparr>last_command_count := accepted_command_count (client2 s), cycles_since_command := 0,
        client2 := c, commanded_acceleration := of_le64 (take 8 w)\<rparr>"
    using f False by (auto simp: follow_command_def bind_Some_iff Let_def split: if_splits)
  have lens: "\<forall>b \<in> set (in_late i). length b < 2 ^ 32" "length (in_tmp i) = max_cmd_buffer_size cfg"
    "length (in_cmd_val i) = 8"
    using i by (simp_all add: tier2_input_ok_def)
  have rc: "raw_client.ready 32 8 cfg () () c"
    using raw_client.deliver_all_ready [OF r lens(1)] c(1) by auto
  note hc = delivered_holds [OF r h late lens(1) c(1)]
  have "ok \<Longrightarrow> command_ok L (take 8 w)"
    using read_command_holds [OF rc hc lens(2,3)] c(2) by auto
  with c(3) hc a v show ?thesis by auto
qed

lemma turn_ok:
  assumes s: "firmware_ok L cfg res s" and i: "tier2_input_ok cfg i" and z: "accel_ok L 0"
    and heard: "commands_are (command_ok L) (in_delivered i @ in_late i)"
  shows "\<exists>s'. tier2_cycle cfg res i s = Some s' \<and> firmware_ok L cfg res s'"
proof -
  have g: "tier2_good cfg res s" and h: "holds_command (command_ok L) cfg (client2 s)"
    "accel_ok L (commanded_acceleration s)" "\<not> isnan (stepper_angular_velocity s)"
    using s by (simp_all add: firmware_ok_def)
  have heard2: "commands_are (command_ok L) (in_delivered i)" "commands_are (command_ok L) (in_late i)"
    using heard by (auto simp: commands_are_def)
  obtain v s0 c0 c s1 s2 f where p: "sense res i s = (v, s0)"
    "write_state (raw_write 32) v (client2 s) = Some c0" "raw_client.ready 32 8 cfg () () c0"
    "deliver_all cfg (in_delivered i) c0 = Some c" "raw_client.ready 32 8 cfg () () c"
    "follow_command cfg i (s0\<lparr>client2 := c\<rparr>) = Some s1" "drive res i s1 = Some s2"
    "driver_ok res s1" "tier2_cycle cfg res i s = Some ((flash_led s2)\<lparr>loop_freq := f\<rparr>)"
    using tier2_cycle_phases [OF g i]
    by (elim exE conjE) (rule that)
  have "holds_command (command_ok L) cfg c0"
    using h(1) write_state_keeps [OF p(2)] by (simp add: holds_command_def)
  moreover have "\<forall>b \<in> set (in_delivered i). length b < 2 ^ 32" using i by (simp add: tier2_input_ok_def)
  ultimately have c: "holds_command (command_ok L) cfg c"
    using delivered_holds [OF p(3) _ heard2(1) _ p(4)] by simp
  note keeps = sense_keeps [OF p(1)]
  have f1: "holds_command (command_ok L) cfg (client2 s1)" "accel_ok L (commanded_acceleration s1)"
    "speed_ok (stepper_angular_velocity s1)" "\<not> isnan (stepper_angular_velocity s1)"
    using follow_command_ok [OF p(6) _ _ i heard2(2) _ z] p(5) c h keeps g
    by (simp_all add: tier2_good_def)
  obtain rs where s2: "s2 = s1\<lparr>stepper_angular_velocity := enforce_stepper_hard_stop (stepper_angle s1) (integrate s1),
      asked := asked s1 @ [rs]\<rparr>"
    using drive_returns [OF p(8), of i] i p(7) by (auto simp: tier2_input_ok_def)
  have "\<not> isnan (enforce_stepper_hard_stop (stepper_angle s1) (integrate s1))"
    using hard_stop_cases [of "stepper_angle s1" "integrate s1"] integrate_number [of s1] f1
    by (auto simp: accel_ok_def isnan_zero)
  moreover have "tier2_good cfg res ((flash_led s2)\<lparr>loop_freq := f\<rparr>)"
    using tier2_cycle_good [OF g i] p(9) by auto
  ultimately show ?thesis using p(9) s2 f1 by (simp add: firmware_ok_def)
qed

lemma init_client_commands:
  "init_client cfg tm as ret c t = Some (0, c', t') \<Longrightarrow> ret \<noteq> 0 \<Longrightarrow> client_wf cfg c \<Longrightarrow>
   \<not> initialized c \<Longrightarrow> tier2_board cfg res limit k \<Longrightarrow>
   \<forall>a \<in> set as. length (at_scratch a) = max_cmd_buffer_size cfg \<Longrightarrow>
   cmd_buffer c' = dbb_reset (max_cmd_buffer_size cfg)"
proof (induction "as" arbitrary: ret c t)
  case Nil
  then show ?case by simp
next
  case (Cons a "as")
  have sizes: "max_state_buffer_size cfg \<le> 2 ^ 31" "max_cmd_buffer_size cfg \<le> 2 ^ 31"
    "unat (32 :: size_t) \<le> max_state_buffer_size cfg" "unat (8 :: size_t) \<le> max_cmd_buffer_size cfg"
    using Cons.prems(5) by (simp_all add: tier2_board_def)
  obtain r c1 t1 where i: "client_init raw_init (raw_payload_size 32) raw_init (raw_payload_size 8) cfg
      (at_init a) (at_publisher a) (at_subscriber a) (at_scratch a) 100 () () c t = Some (r, c1, t1)"
    "client_wf cfg c1" "initialized c1 \<longrightarrow> r = 0" "\<not> initialized c1 \<longrightarrow> r = - EIO"
    using raw_client.init_gets_ready [OF Cons.prems(3,4) TrueI TrueI sizes,
        of "at_scratch a" "at_init a" "at_publisher a" "at_subscriber a" 100 "()" "()" t] Cons.prems(6)
    by auto
  have "\<not> control_thread_started c" using Cons.prems(3,4) by (simp add: client_wf_def)
  note fresh = client_init_commands [OF i(1) Cons.prems(4) this]
  have "EIO \<noteq> 0" by (simp add: EIO_def)
  then show ?case
    using Cons.prems(1,2,5,6) i fresh Cons.IH [of r c1 t1]
    by (cases "initialized c1") (auto split: if_splits)
qed

lemma boot_ok:
  assumes main: "tier2_main cfg res b network j t = Some (Inr s, t')"
    and board: "tier2_board cfg res limit k" and boot: "tier2_boot_ok cfg b"
    and heard: "commands_are (command_ok L) (b_delivered b)" and z: "accel_ok L 0"
  shows "firmware_ok L cfg res s"
proof -
  obtain c0 c t1 where h:
    "init_client cfg (b_init_timer b) (b_attempts b) (- 1) (new_client cfg j () ()) t = Some (0, c0, t1)"
    "deliver_all cfg (b_delivered b) c0 = Some c" "client2 s = c"
    using main by (auto simp: tier2_main_def bind_Some_iff split: if_splits sum.splits)
  have n: "client_wf cfg (new_client cfg j () ())" "\<not> initialized (new_client cfg j () ())"
    using new_client_wf [of cfg j "()" "()"] by (simp_all add: new_client_def)
  have lens: "\<forall>a \<in> set (b_attempts b). length (at_scratch a) = max_cmd_buffer_size cfg"
    "\<forall>b \<in> set (b_delivered b). length b < 2 ^ 32"
    using boot by (simp_all add: tier2_boot_ok_def)
  have r: "raw_client.ready 32 8 cfg () () c0"
    using board lens(1) by (intro init_client_ready [OF _ _ _ _ h(1) _ n]) (auto simp: tier2_board_def)
  have "cmd_buffer c0 = dbb_reset (max_cmd_buffer_size cfg)"
    using init_client_commands [OF h(1) _ n board lens(1)] by simp
  moreover have "le64 0 = replicate 8 0" by (simp add: le64_def le_encode_0)
  then have "of_le64 (replicate 8 0) = 0" using of_le64_le64 [of 0] by metis
  ultimately have "holds_command (command_ok L) cfg c0"
    using z ready_raw(2) [OF r] by (simp add: holds_command_def dbb_reset_def nth_slot_def min_def)
  then have "holds_command (command_ok L) cfg (client2 s)"
    using delivered_holds [OF r _ heard lens(2) h(2)] h(3) by simp
  with tier2_main_good [OF main board boot] z show ?thesis by (auto simp: firmware_ok_def isnan_zero)
qed

section \<open>The host\<close>

text \<open>Everything the hardware may publish is a number within the limit, and so is everything it did
  publish: a command interface may hold a NaN, but none is taken from it.\<close>

definition host_ok :: "f64 \<Rightarrow> hardware \<Rightarrow> bool" where
  "host_ok L h \<longleftrightarrow>
     hw_inv h \<and> schema h = pendulum_schema \<and> list_all (inside L) (hw_commands h) \<and>
     list_all (\<lambda>k. inside L (h_value k)) (command_interfaces h) \<and>
     (\<forall>p \<in> set (command_puts h). length p = 8 \<and> command_ok L p)"

lemma read_loop_keeps:
  "read_loop s bs locked is h = Some h' \<Longrightarrow>
   command_interfaces h' = command_interfaces h \<and> command_puts h' = command_puts h \<and>
   hw_commands h' = hw_commands h \<and> schema h' = schema h"
  by (induction s bs locked "is" h rule: read_loop.induct)
    (auto simp: Let_def split: option.splits if_splits)

lemma hw_read_keeps:
  "hw_read box_free locked h = Some h' \<Longrightarrow>
   command_interfaces h' = command_interfaces h \<and> command_puts h' = command_puts h \<and>
   hw_commands h' = hw_commands h \<and> schema h' = schema h"
  by (auto simp: hw_read_def dest: read_loop_keeps split: if_splits)

lemma cycle_commands_inside:
  "length (command_interfaces h) = length (hw_commands h) \<Longrightarrow> list_all (inside L) (hw_commands h) \<Longrightarrow>
   list_all (\<lambda>k. inside L (h_value k)) (command_interfaces h) \<Longrightarrow> list_all (inside L) (cycle_commands locked h)"
  by (auto simp: cycle_commands_def cycle_command_def list_all_length)

text \<open>The payload of a cycle is the image of its one command.\<close>

lemma write_pendulum:
  assumes "length bs = 8"
  shows "command_fields.write_all pendulum_schema bs 0 [v] = Some (le64 v)"
  using assms
  by (simp add: write_command_field_def pendulum_schema_eq encode_field_def mem_write_def blit_def)

lemma host_write_ok:
  assumes h: "host_ok L h" and w: "hw_write locked h = Some h'"
  shows "host_ok L h'"
proof (cases "command_pub h")
  case False
  with h w show ?thesis by (simp add: hw_write_def)
next
  case True
  have inv: "hardware_ok h" "no_NaN (hw_commands h)" "schema h = pendulum_schema" "hw_inv h"
    using h True by (simp_all add: host_ok_def hw_inv_def)
  have len: "length (cycle_commands locked h) = 1" "length (command_buffer h) = 8"
    using inv(1,3) by (simp_all add: hardware_ok_def command_wf_def cycle_commands_def pendulum_schema_eq)
  then obtain v where v: "cycle_commands locked h = [v]" by (auto simp: length_Suc_conv)
  have "inside L v" "\<not> isnan v"
    using cycle_commands_inside [of h L locked] cycle_commands_no_NaN [OF inv(2), of locked] h v inv(1)
    by (simp_all add: host_ok_def no_NaN_def hardware_ok_def)
  then have ok: "command_ok L (le64 v)" "list_all (inside L) [v]" by (simp_all add: accel_ok_def)
  have "h' = h\<lparr>hw_commands := [v], command_buffer := le64 v, command_puts := command_puts h @ [le64 v]\<rparr>"
    using w hw_write_active [OF inv(1) True, of locked] v write_pendulum [OF len(2)] inv(3) by simp
  moreover have "hw_inv h'" using hw_step_inv [OF hw_step.Write [OF w] inv(4)] .
  ultimately show ?thesis using h ok by (auto simp: host_ok_def)
qed

lemma set_handles_inside:
  "list_all (inside L) vs \<Longrightarrow> list_all (\<lambda>k. inside L (h_value k)) hs \<Longrightarrow>
   list_all (\<lambda>k. inside L (h_value k)) (set_handles locked vs hs)"
  by (auto simp: set_handles_def set_value_def list_all_length)

lemma host_activate_ok:
  assumes h: "host_ok L h" and a: "on_activate a h = (r, h')" and z: "inside L 0"
  shows "host_ok L h'"
proof -
  have "hw_inv h'" using hw_step_inv [OF hw_step.Activate [OF a]] h by (simp add: host_ok_def)
  moreover have "list_all (inside L) (denan (hw_commands h))"
    using h z by (auto simp: host_ok_def denan_def list_all_iff)
  ultimately show ?thesis
    using h a set_handles_inside [of L "denan (hw_commands h)" "command_interfaces h" "handle_locked a"]
    by (auto simp: on_activate_def host_ok_def Let_def split: if_splits)
qed

lemma host_keeps_ok:
  assumes "host_ok L h"
  shows "host_ok L (on_state_sample bs h)"
    and "hw_read box_free locked h = Some h' \<Longrightarrow> host_ok L h'"
    and "on_deactivate h = (r, h') \<Longrightarrow> host_ok L h'"
    and "length hs = length (command_interfaces h) \<Longrightarrow> list_all (\<lambda>k. inside L (h_value k)) hs \<Longrightarrow>
      host_ok L (h\<lparr>command_interfaces := hs\<rparr>)"
proof -
  have inv: "hw_inv h" using assms by (simp add: host_ok_def)
  note step = hw_step_inv [OF _ inv]
  show "host_ok L (on_state_sample bs h)"
    using assms step [OF hw_step.Sample, of bs] by (auto simp: host_ok_def on_state_sample_def)
  show "host_ok L h'" if "hw_read box_free locked h = Some h'"
    using assms step [OF hw_step.Read [OF that]] hw_read_keeps [OF that] by (simp add: host_ok_def)
  show "host_ok L h'" if "on_deactivate h = (r, h')"
    using assms step [OF hw_step.Deactivate [OF that]] that by (auto simp: host_ok_def on_deactivate_def)
  show "host_ok L (h\<lparr>command_interfaces := hs\<rparr>)"
    if "length hs = length (command_interfaces h)" "list_all (\<lambda>k. inside L (h_value k)) hs"
    using assms step [OF hw_step.Controller [OF that(1)]] that(2) by (simp add: host_ok_def)
qed

section \<open>Interfaces by name\<close>

text \<open>The controller manager hands a controller the interfaces whose full names it asks for, in its
  order; a name that no component exports is not handed out.\<close>

primrec index_of :: "'a \<Rightarrow> 'a list \<Rightarrow> nat option" where
  "index_of x [] = None"
| "index_of x (y # ys) = (if x = y then Some 0 else map_option Suc (index_of x ys))"

definition full_name :: "handle \<Rightarrow> string" where
  "full_name h = h_component h @ ''/'' @ h_field h"

definition claimed :: "handle list \<Rightarrow> string \<Rightarrow> nat option" where
  "claimed hs n = index_of n (map full_name hs)"

definition reading :: "(nat \<Rightarrow> bool) \<Rightarrow> handle list \<Rightarrow> string \<Rightarrow> f64 option" where
  "reading locked hs n =
     (case claimed hs n of None \<Rightarrow> None | Some k \<Rightarrow> get_optional (locked k) (hs ! k))"

definition controller_reads :: "(nat \<Rightarrow> bool) \<Rightarrow> bool \<Rightarrow> handle list \<Rightarrow> controller \<Rightarrow> control_input" where
  "controller_reads locked takes hs c =
     (let at = (\<lambda>k. reading locked hs (state_interface_configuration c ! k))
      in \<lparr>cin_q1 = at 0, cin_q1d = at 1, cin_q2 = at 2, cin_q2d = at 3, cin_takes = takes\<rparr>)"

definition controller_sets :: "bool \<Rightarrow> f64 \<Rightarrow> controller \<Rightarrow> handle list \<Rightarrow> handle list" where
  "controller_sets takes u c hs =
     (case claimed hs (hd (command_interface_configuration c)) of
        None \<Rightarrow> hs
      | Some k \<Rightarrow> hs[k := set_value takes u (hs ! k)])"

definition controller_releases :: "bool \<Rightarrow> controller \<Rightarrow> handle list \<Rightarrow> handle list" where
  "controller_releases takes c hs =
     (case claimed hs (hd (command_interface_configuration c)) of
        None \<Rightarrow> hs
      | Some k \<Rightarrow> hs[k := (hs ! k)
          \<lparr>h_value := hd (snd (controller_on_deactivate takes [h_value (hs ! k)]))\<rparr>])"

lemma length_controller_writes [simp]:
  "length (controller_sets takes u c hs) = length hs" "length (controller_releases takes c hs) = length hs"
  by (simp_all add: controller_sets_def controller_releases_def split: option.split)

lemma update_inside:
  assumes "list_all P hs" "k < length hs \<Longrightarrow> P (hs ! k) \<Longrightarrow> P h"
  shows "list_all P (hs[k := h])"
  using assms by (cases "k < length hs") (auto simp: list_all_length nth_list_update)

lemma controller_sets_inside:
  "list_all (\<lambda>k. inside L (h_value k)) hs \<Longrightarrow> inside L u \<Longrightarrow>
   list_all (\<lambda>k. inside L (h_value k)) (controller_sets takes u c hs)"
  by (auto simp: controller_sets_def set_value_def intro: update_inside split: option.split)

lemma controller_releases_inside:
  "list_all (\<lambda>k. inside L (h_value k)) hs \<Longrightarrow> inside L 0 \<Longrightarrow>
   list_all (\<lambda>k. inside L (h_value k)) (controller_releases takes c hs)"
  by (auto simp: controller_releases_def controller_on_deactivate_def intro: update_inside split: option.split)

section \<open>The system\<close>

record pendulum_system =
  sys_firmware :: "(tier2_state \<times> client_transport) option"
  sys_host :: hardware
  sys_controller :: controller
  states_sent :: "bytes list"

definition put_payloads :: "zcall list \<Rightarrow> bytes list" where
  "put_payloads cs = concat (map (\<lambda>c. case c of Z_Put i p a \<Rightarrow> [p] | _ \<Rightarrow> []) cs)"

text \<open>What a subscriber of the command topic may receive.\<close>

definition heard :: "pendulum_system \<Rightarrow> bytes list \<Rightarrow> bool" where
  "heard x bs \<longleftrightarrow> (\<forall>b \<in> set bs. length b = 8 \<longrightarrow> b \<in> set (command_puts (sys_host x)))"

inductive system_step ::
  "libm \<Rightarrow> client_config \<Rightarrow> nat \<Rightarrow> pendulum_system \<Rightarrow> pendulum_system \<Rightarrow> bool"
  for lm :: libm and cfg :: client_config and res :: nat where
  Boot: "tier2_main cfg res b network j t0 = Some (Inr s, t) \<Longrightarrow> tier2_boot_ok cfg b \<Longrightarrow>
    heard x (b_delivered b) \<Longrightarrow> system_step lm cfg res x (x\<lparr>sys_firmware := Some (s, t)\<rparr>)"
| Power_Off: "system_step lm cfg res x (x\<lparr>sys_firmware := None\<rparr>)"
| Turn: "sys_firmware x = Some (s, t) \<Longrightarrow> tier2_input_ok cfg i \<Longrightarrow>
    heard x (in_delivered i @ in_late i) \<Longrightarrow> tier2_cycle cfg res i s = Some s' \<Longrightarrow>
    system_step lm cfg res x (x\<lparr>sys_firmware := Some (s', t)\<rparr>)"
| Publish: "sys_firmware x = Some (s, t) \<Longrightarrow>
    zenoh_publish_state cfg z tmp (client2 s) t = Some (ret, t') \<Longrightarrow>
    system_step lm cfg res x
      (x\<lparr>sys_firmware := Some (s, t'),
         states_sent := states_sent x @ put_payloads (drop (length (zcalls t)) (zcalls t'))\<rparr>)"
| Sample: "bs \<in> set (states_sent x) \<or> length bs \<noteq> state_buffer_size (schema (sys_host x)) \<Longrightarrow>
    system_step lm cfg res x (x\<lparr>sys_host := on_state_sample bs (sys_host x)\<rparr>)"
| Read: "hw_read box_free locked (sys_host x) = Some h \<Longrightarrow> system_step lm cfg res x (x\<lparr>sys_host := h\<rparr>)"
| Update: "controller_update lm (controller_reads locked takes (state_interfaces (sys_host x)) (sys_controller x))
      (sys_controller x) = (ret, u, c) \<Longrightarrow>
    system_step lm cfg res x
      (x\<lparr>sys_controller := c,
         sys_host := (sys_host x)\<lparr>command_interfaces :=
           controller_sets takes u (sys_controller x) (command_interfaces (sys_host x))\<rparr>\<rparr>)"
| Write: "hw_write locked (sys_host x) = Some h \<Longrightarrow> system_step lm cfg res x (x\<lparr>sys_host := h\<rparr>)"
| Activate: "on_activate a (sys_host x) = (r, h) \<Longrightarrow> system_step lm cfg res x (x\<lparr>sys_host := h\<rparr>)"
| Deactivate: "on_deactivate (sys_host x) = (r, h) \<Longrightarrow> system_step lm cfg res x (x\<lparr>sys_host := h\<rparr>)"
| Controller_Activate: "controller_on_activate (sys_controller x) = (r, c) \<Longrightarrow>
    system_step lm cfg res x (x\<lparr>sys_controller := c\<rparr>)"
| Controller_Deactivate: "system_step lm cfg res x
      (x\<lparr>sys_host := (sys_host x)\<lparr>command_interfaces :=
           controller_releases takes (sys_controller x) (command_interfaces (sys_host x))\<rparr>\<rparr>)"

inductive_cases system_stepE: "system_step lm cfg res x x'"

definition system_ok :: "f64 \<Rightarrow> client_config \<Rightarrow> nat \<Rightarrow> pendulum_system \<Rightarrow> bool" where
  "system_ok a cfg res x \<longleftrightarrow>
     host_ok (f64_abs a) (sys_host x) \<and> ctl_bounded a (sys_controller x) \<and>
     (case sys_firmware x of None \<Rightarrow> True | Some (s, t) \<Rightarrow> firmware_ok (f64_abs a) cfg res s)"

lemma heard_commands: "heard x bs \<Longrightarrow> host_ok L (sys_host x) \<Longrightarrow> commands_are (command_ok L) bs"
  by (auto simp: heard_def commands_are_def host_ok_def)

lemma ctl_bounded_activate: "ctl_bounded a c \<Longrightarrow> ctl_bounded a (snd (controller_on_activate c))"
  by (auto simp: ctl_bounded_def controller_on_activate_def well_typed_def configured_def magnitudes_def)

lemma system_step_ok:
  assumes "system_step lm cfg res x x'" "system_ok a cfg res x" and board: "tier2_board cfg res limit k"
  shows "system_ok a cfg res x'"
  using assms(1,2)
proof (induction rule: system_step.induct)
  case (Boot b network j t0 s t x)
  have "accel_ok (f64_abs a) 0"
    using Boot.prems by (simp add: system_ok_def ctl_bounded_def accel_ok_def inside_zero isnan_zero)
  moreover have "commands_are (command_ok (f64_abs a)) (b_delivered b)"
    using heard_commands Boot by (auto simp: system_ok_def)
  ultimately show ?case using boot_ok [OF Boot(1) board Boot(2)] Boot.prems by (simp add: system_ok_def)
next
  case (Turn x s t i s')
  have z: "accel_ok (f64_abs a) 0"
    using Turn.prems by (simp add: system_ok_def ctl_bounded_def accel_ok_def inside_zero isnan_zero)
  have f: "firmware_ok (f64_abs a) cfg res s" using Turn.prems Turn(1) by (simp add: system_ok_def)
  have "commands_are (command_ok (f64_abs a)) (in_delivered i @ in_late i)"
    using heard_commands [OF Turn(3)] Turn.prems by (simp add: system_ok_def)
  from turn_ok [OF f Turn(2) z this] Turn(4) Turn.prems show ?case by (simp add: system_ok_def)
next
  case (Update locked takes x ret u c)
  have "ctl_bounded a c \<and> inside (f64_abs a) u"
    using ctl_bounded_update [OF _ Update(1)] Update.prems by (simp add: system_ok_def)
  moreover have "list_all (\<lambda>k. inside (f64_abs a) (h_value k)) (command_interfaces (sys_host x))"
    using Update.prems by (simp add: system_ok_def host_ok_def)
  ultimately show ?case
    using Update.prems by (simp add: system_ok_def host_keeps_ok(4) controller_sets_inside)
next
  case (Controller_Deactivate x takes)
  have "inside (f64_abs a) 0"
    using Controller_Deactivate.prems by (simp add: system_ok_def ctl_bounded_def inside_zero)
  moreover have "list_all (\<lambda>k. inside (f64_abs a) (h_value k)) (command_interfaces (sys_host x))"
    using Controller_Deactivate.prems by (simp add: system_ok_def host_ok_def)
  ultimately show ?case
    using Controller_Deactivate.prems by (simp add: system_ok_def host_keeps_ok(4) controller_releases_inside)
next
  case (Activate ac x r h)
  then show ?case using host_activate_ok inside_zero by (auto simp: system_ok_def ctl_bounded_def)
next
  case (Controller_Activate x r c)
  then show ?case using ctl_bounded_activate [of a "sys_controller x"] by (simp add: system_ok_def)
qed (auto simp: system_ok_def dest: host_keeps_ok host_write_ok intro: host_keeps_ok(1))

lemma system_run_ok:
  "(system_step lm cfg res)\<^sup>*\<^sup>* x x' \<Longrightarrow> system_ok a cfg res x \<Longrightarrow> tier2_board cfg res limit k \<Longrightarrow>
   system_ok a cfg res x'"
  by (induction rule: rtranclp_induct) (auto dest: system_step_ok)

end
