(* ===== verification/Pendulum_System_Properties.thy ===== *)
theory Pendulum_System_Properties
  imports Pendulum_System
begin

text \<open>What the whole pendulum system keeps, and what travels from the sensors to the controller.\<close>

section \<open>Safety\<close>

text \<open>The system when the host starts: the hardware initialised, the controller configured and
  activated, the firmware off.\<close>

definition system_start :: "hardware \<Rightarrow> controller \<Rightarrow> pendulum_system" where
  "system_start h c = \<lparr>sys_firmware = None, sys_host = h,
     sys_controller = snd (controller_on_activate c), states_sent = []\<rparr>"

lemma initialised_host_ok:
  assumes "on_init y files base_ok params blank_hardware = (SUCCESS, h)" "schema h = pendulum_schema"
    and "inside L 0"
  shows "host_ok L h"
proof -
  have i: "hw_inv h" using on_init_ok [OF assms(1)] by (simp add: blank_hardware_def)
  obtain h1 where h1: "load_parameters params blank_hardware = (True, h1)"
    "hw_commands h1 = []" "command_puts h1 = []"
    using assms(1) by (auto simp: on_init_def load_parameters_def blank_hardware_def Let_def
        split: if_splits prod.splits option.splits)
  have "list_all (inside L) (hw_commands h) \<and> list_all (\<lambda>k. inside L (h_value k)) (command_interfaces h) \<and>
      command_puts h = []"
    using assms(1,3) h1
    by (auto simp: on_init_def vec_resize_def make_handle_def list_all_iff inside_def denan_NaN Let_def
        split: if_splits option.splits)
  with i assms(2) show ?thesis by (simp add: host_ok_def)
qed

lemma system_start_ok:
  assumes "controller_on_configure n c0 = Some (r, c)" "as_double n ''motor_accel_max'' = Some a" "\<not> isnan a"
    and "on_init y files base_ok params blank_hardware = (SUCCESS, h)" "schema h = pendulum_schema"
  shows "system_ok a cfg res (system_start h c)"
  using controller_activated_bounded [OF assms(1-3)] initialised_host_ok [OF assms(4,5) inside_zero [OF assms(3)]]
  by (simp add: system_ok_def system_start_def)

text \<open>C1: the pendulum system is safe as a whole. From the start of the host on, over every
  interleaving of the controller's turns, the hardware's cycles, activations and deactivations on
  either side, boots, resets and turns of the firmware, and with both topics losing, repeating and
  reordering what they carry: every command ever published is a number within the controller's
  limit; a NaN never reaches the firmware, so neither its acceleration nor its velocity is ever one;
  the velocity stays within 7 rad/s, every target sent to the stepper within its travel, and the
  next turn of the firmware always returns.\<close>

theorem pendulum_system_safe:
  assumes ctl: "controller_on_configure n c0 = Some (r, c)" "as_double n ''motor_accel_max'' = Some a"
      "\<not> isnan a"
    and host: "on_init y files base_ok params blank_hardware = (SUCCESS, h)" "schema h = pendulum_schema"
    and board: "tier2_board cfg res limit k"
    and run: "(system_step lm cfg res)\<^sup>*\<^sup>* (system_start h c) x"
  shows "(\<forall>p \<in> set (command_puts (sys_host x)).
      length p = 8 \<and> \<not> isnan (of_le64 p) \<and> f64_le (f64_neg (f64_abs a)) (of_le64 p) \<and> f64_le (of_le64 p) (f64_abs a)) \<and>
    (\<forall>s t. sys_firmware x = Some (s, t) \<longrightarrow>
      \<not> isnan (commanded_acceleration s) \<and> inside (f64_abs a) (commanded_acceleration s) \<and>
      f64_le (f64_neg kMaxAngularVelocity) (stepper_angular_velocity s) \<and>
      f64_le (stepper_angular_velocity s) kMaxAngularVelocity \<and>
      (\<forall>rs \<in> set (asked s). \<forall>q. Move_To q \<in> set rs \<longrightarrow>
         stepper_min_position s \<le> q \<and> q \<le> stepper_max_position s) \<and>
      (\<forall>i. tier2_input_ok cfg i \<longrightarrow> (\<exists>s'. tier2_cycle cfg res i s = Some s')))"
proof -
  have ok: "system_ok a cfg res x" by (rule system_run_ok [OF run system_start_ok [OF ctl host] board])
  have "length p = 8 \<and> \<not> isnan (of_le64 p) \<and> f64_le (f64_neg (f64_abs a)) (of_le64 p) \<and>
      f64_le (of_le64 p) (f64_abs a)" if "p \<in> set (command_puts (sys_host x))" for p
    using that ok by (auto simp: system_ok_def host_ok_def accel_ok_def inside_def)
  moreover have "\<not> isnan (commanded_acceleration s) \<and> inside (f64_abs a) (commanded_acceleration s) \<and>
      f64_le (f64_neg kMaxAngularVelocity) (stepper_angular_velocity s) \<and>
      f64_le (stepper_angular_velocity s) kMaxAngularVelocity" "tier2_good cfg res s"
    if "sys_firmware x = Some (s, t)" for s t
    using that ok by (auto simp: system_ok_def firmware_ok_def accel_ok_def tier2_good_def speed_ok_def)
  moreover have "stepper_min_position s \<le> q \<and> q \<le> stepper_max_position s"
    if "tier2_good cfg res s" "rs \<in> set (asked s)" "Move_To q \<in> set rs" for s rs q
    using that by (force simp: tier2_good_def driver_ok_def list_all_iff confined_def)
  ultimately show ?thesis using tier2_cycle_good by blast
qed

section \<open>From the sensors to the controller\<close>

text \<open>A cycle of the hardware with the pendulum's schema: a sample of four doubles is shown as it is.\<close>

lemma hw_read_pendulum:
  assumes h: "hardware_ok h" "schema h = pendulum_schema"
  shows "\<exists>h'. hw_read True (\<lambda>_. True) (on_state_sample (le64s [w, x, y, z]) h) = Some h' \<and>
    map full_name (state_interfaces h') = map full_name (state_interfaces h) \<and>
    map h_value (state_interfaces h') = [w, x, y, z]"
proof -
  obtain a b c d where s: "state_interfaces h = [a, b, c, d]"
    using h by (auto simp: hardware_ok_def pendulum_schema_eq numeral_eq_Suc length_Suc_conv)
  obtain e f g i where v: "hw_states h = [e, f, g, i]"
    using h by (auto simp: hardware_ok_def pendulum_schema_eq numeral_eq_Suc length_Suc_conv)
  let ?p = "le64s [w, x, y, z]" and ?s = pendulum_schema
  have p: "read_state_field ?s ?p 0 = Some w" "read_state_field ?s ?p (Suc 0) = Some x"
    "read_state_field ?s ?p 2 = Some y" "read_state_field ?s ?p 3 = Some z"
    by (simp_all add: read_state_field_def pendulum_schema_eq decode_field_def mem_read_def)
  have l: "[0..<length (state_flat_fields ?s)] = [0, Suc 0, 2, 3]" "state_buffer_size ?s = 32"
    by (simp_all add: pendulum_schema_eq upt_rec)
  have box: "on_state_sample ?p h = h\<lparr>state_box := ?p\<rparr>" using h(2) l(2) by (simp add: on_state_sample_def)
  show ?thesis
    unfolding box hw_read_def using h(2) l p s v
    by (simp add: set_value_def full_name_def eval_nat_numeral)
qed

text \<open>C5: what the controller computes on is what the firmware measured. A turn of the firmware, the
  publication after it, its arrival at the host and the next read cycle make the four readings of
  the controller the stepper angle relative to boot, its velocity over the last turn, and the angle
  and velocity of the pendulum of that turn, bit for bit: the struct of the firmware, the schema of
  the host, the names in the controller's parameters and its order of interfaces agree.\<close>

theorem measurement_reaches_controller:
  assumes good: "tier2_good cfg res s" and i: "tier2_input_ok cfg i"
    and tmp: "length tmp = max_state_buffer_size cfg"
    and pub: "tier (transport_cfg cfg) = Tier2" "pub (client2 s) = Some j" "p_in_use (pub_pool t ! j)"
    and host: "hardware_ok h" "schema h = pendulum_schema"
      "map full_name (state_interfaces h) =
         map (\<lambda>f. component f @ ''/'' @ field_name f) (state_flat_fields (schema h))"
    and names: "state_interface_configuration c = [''motor_joint/position'', ''motor_joint/velocity'',
      ''pendulum_joint/position'', ''pendulum_joint/velocity'']"
  shows "\<exists>s' r t' p h'. tier2_cycle cfg res i s = Some s' \<and>
    zenoh_publish_state cfg z tmp (client2 s') t = Some (r, t') \<and>
    zcalls t' = zcalls t @ [Z_Put j p None] \<and>
    hw_read True (\<lambda>_. True) (on_state_sample p h) = Some h' \<and>
    (let a = (case in_position i of None \<Rightarrow> stepper_angle s
                | Some n \<Rightarrow> f64_sub (microsteps_to_angle res n) (stepper_angle_offset s));
         dt = f64_div (int_to_double (uint (in_state_time i - last_state_time s))) (dec 1000 0)
     in controller_reads (\<lambda>_. True) takes (state_interfaces h') c =
       \<lparr>cin_q1 = Some a, cin_q1d = Some (if f64_lt 0 dt then f64_div (f64_sub a (prev_stepper_angle s)) dt else 0),
        cin_q2 = Some (enc_angle (in_encoder i)), cin_q2d = Some (enc_velocity (in_encoder i)),
        cin_takes = takes\<rparr>)"
proof -
  define a where "a = (case in_position i of None \<Rightarrow> stepper_angle s
                | Some n \<Rightarrow> f64_sub (microsteps_to_angle res n) (stepper_angle_offset s))"
  define v where "v = motor_joint_velocity i (read_stepper res i s)"
  have m: "fst (sense res i s) = le64s [a, v, enc_angle (in_encoder i), enc_velocity (in_encoder i)]"
    by (simp add: sense_def state_val_def a_def v_def read_stepper_def Let_def split: option.split)
  obtain s' where s': "tier2_cycle cfg res i s = Some s'"
    "zenoh_publish_state cfg z tmp (client2 s') t =
      Some (zenbedded_transport_publish (transport_cfg cfg) z (Some j) (fst (sense res i s)) t)"
    using tier2_cycle_publishes [OF good i tmp] pub(2) by auto
  obtain h' where h': "hw_read True (\<lambda>_. True) (on_state_sample (fst (sense res i s)) h) = Some h'"
    "map full_name (state_interfaces h') = map full_name (state_interfaces h)"
    "map h_value (state_interfaces h') = [a, v, enc_angle (in_encoder i), enc_velocity (in_encoder i)]"
    using hw_read_pendulum [OF host(1,2), of a v "enc_angle (in_encoder i)" "enc_velocity (in_encoder i)",
        folded m]
    by (elim exE conjE) (rule that)
  obtain k0 k1 k2 k3 where k: "state_interfaces h' = [k0, k1, k2, k3]"
    using h'(3) by (auto simp: map_eq_Cons_conv)
  have vals: "h_value k0 = a" "h_value k1 = v" "h_value k2 = enc_angle (in_encoder i)"
    "h_value k3 = enc_velocity (in_encoder i)"
    using h'(3) by (simp_all add: k)
  have at: "map full_name [k0, k1, k2, k3] = [''motor_joint/position'', ''motor_joint/velocity'',
      ''pendulum_joint/position'', ''pendulum_joint/velocity'']"
    using h'(2) host(2,3) by (simp only: k) (simp add: pendulum_schema_eq)
  have "claimed [k0, k1, k2, k3] ''motor_joint/position'' = Some 0"
    "claimed [k0, k1, k2, k3] ''motor_joint/velocity'' = Some 1"
    "claimed [k0, k1, k2, k3] ''pendulum_joint/position'' = Some 2"
    "claimed [k0, k1, k2, k3] ''pendulum_joint/velocity'' = Some 3"
    unfolding claimed_def at by simp_all
  then have "controller_reads (\<lambda>_. True) takes (state_interfaces h') c =
      \<lparr>cin_q1 = Some a, cin_q1d = Some v, cin_q2 = Some (enc_angle (in_encoder i)),
       cin_q2d = Some (enc_velocity (in_encoder i)), cin_takes = takes\<rparr>"
    by (simp add: controller_reads_def reading_def get_optional_def names k vals)
  moreover have "v = (let dt = f64_div (int_to_double (uint (in_state_time i - last_state_time s))) (dec 1000 0)
      in if f64_lt 0 dt then f64_div (f64_sub a (prev_stepper_angle s)) dt else 0)"
    by (simp add: v_def motor_joint_velocity_def read_stepper_def a_def Let_def split: option.split)
  moreover have "\<exists>r t'. zenbedded_transport_publish (transport_cfg cfg) z (Some j) (fst (sense res i s)) t = (r, t') \<and>
      zcalls t' = zcalls t @ [Z_Put j (fst (sense res i s)) None]"
    using pub by (simp add: zenbedded_transport_publish_def zcall_def)
  ultimately show ?thesis using s' h'(1) unfolding a_def [symmetric] Let_def by auto
qed

section \<open>A run\<close>

definition pendulum_hardware :: hardware where
  "pendulum_hardware =
     snd (on_init (tree_api pendulum_yaml) (\<lambda>_. Some []) True sample_params blank_hardware)"

lemma pendulum_hardware_init:
  "on_init (tree_api pendulum_yaml) (\<lambda>_. Some []) True sample_params blank_hardware =
     (SUCCESS, pendulum_hardware)"
  "schema pendulum_hardware = pendulum_schema" "command_puts pendulum_hardware = []"
  by (simp_all add: pendulum_hardware_def on_init_def load_parameters_def sample_params_def
      from_yaml_file_def Let_def flip: pendulum_schema_def) (simp_all add: pendulum_schema_eq blank_hardware_def)

text \<open>The hardware is activated and publishes once, the firmware boots and takes the command.\<close>

lemma pendulum_sample_run:
  assumes "sample_configured = Some (CB_SUCCESS, c)"
  shows "\<exists>x s t p. (system_step sample_libm tier2_config 32)\<^sup>*\<^sup>* (system_start pendulum_hardware c) x \<and>
    sys_firmware x = Some (s, t) \<and> command_puts (sys_host x) = [p] \<and> commanded_acceleration s = of_le64 p"
proof -
  obtain r h where a: "on_activate all_ok pendulum_hardware = (r, h)" by fastforce
  have inv: "hw_inv pendulum_hardware"
    using on_init_ok [OF pendulum_hardware_init(1)] by (simp add: blank_hardware_def)
  have "r = SUCCESS" "schema h = pendulum_schema" "command_puts h = command_puts pendulum_hardware"
    using a pendulum_hardware_init(2) by (auto simp: on_activate_def all_ok_def Let_def)
  then have h: "hardware_ok h" "command_pub h" "schema h = pendulum_schema" "command_puts h = []"
    using on_activate_inv [OF a inv] pendulum_hardware_init(3) by (simp_all add: hw_inv_def)
  obtain v where v: "cycle_commands (\<lambda>_. True) h = [v]" "length (command_buffer h) = 8"
    using h(1,3)
    by (auto simp: hardware_ok_def command_wf_def cycle_commands_def pendulum_schema_eq length_Suc_conv)
  define h' where "h' = h\<lparr>hw_commands := [v], command_buffer := le64 v, command_puts := [le64 v]\<rparr>"
  have w: "hw_write (\<lambda>_. True) h = Some h'"
    using hw_write_active [OF h(1,2), of "\<lambda>_. True"] v write_pendulum [OF v(2)] h(3,4) by (simp add: h'_def)
  obtain s t where m: "sample_main = Some (Inr s, t)" "tier2_good tier2_config 32 s" "tier2_caught_up s"
    using sample_state by blast
  have new: "accepted 8 (in_delivered (command_input v)) \<noteq> []"
    "length (accepted 8 (in_delivered (command_input v))) < 2 ^ 32"
    "last (accepted 8 (in_delivered (command_input v) @ in_late (command_input v))) = le64 v"
    using sample_inputs by simp_all
  obtain s' where s': "tier2_cycle tier2_config 32 (command_input v) s = Some s'"
    "commanded_acceleration s' = v"
    using tier2_command_cycle [OF m(2) sample_inputs(3) m(3) new(1,2)] new(3) by auto
  let ?step = "system_step sample_libm tier2_config 32"
  let ?x0 = "system_start pendulum_hardware c"
  let ?x1 = "?x0\<lparr>sys_host := h\<rparr>" let ?x2 = "?x1\<lparr>sys_host := h'\<rparr>"
  let ?x3 = "?x2\<lparr>sys_firmware := Some (s, t)\<rparr>" let ?x4 = "?x3\<lparr>sys_firmware := Some (s', t)\<rparr>"
  have "?step ?x0 ?x1" by (rule system_step.Activate [of all_ok]) (simp add: system_start_def a)
  moreover have "?step ?x1 ?x2" by (rule system_step.Write [of "\<lambda>_. True"]) (simp add: w)
  moreover have "?step ?x2 ?x3"
    by (rule system_step.Boot [OF m(1) sample_boot_ok]) (simp add: heard_def sample_boot_def)
  moreover have "?step ?x3 ?x4"
    by (rule system_step.Turn [OF _ sample_inputs(3) _ s'(1)])
      (auto simp: heard_def command_input_def quiet_input_def h'_def)
  ultimately have "?step\<^sup>*\<^sup>* ?x0 ?x4" by (meson rtranclp.rtrancl_into_rtrancl rtranclp.rtrancl_refl)
  then show ?thesis using s'(2) by (fastforce simp: h'_def)
qed

theorem pendulum_system_safe_witness:
  "\<exists>c x s t p. sample_configured = Some (CB_SUCCESS, c) \<and>
    (system_step sample_libm tier2_config 32)\<^sup>*\<^sup>* (system_start pendulum_hardware c) x \<and>
    sys_firmware x = Some (s, t) \<and> command_puts (sys_host x) = [p] \<and>
    \<not> isnan (of_le64 p) \<and> f64_le (stepper_angular_velocity s) kMaxAngularVelocity"
proof -
  obtain c where c: "sample_configured = Some (CB_SUCCESS, c)" using sample_configures by blast
  have a: "as_double sample_node ''motor_accel_max'' = Some 0xC014000000000000" "\<not> isnan 0xC014000000000000"
    using sample_parameters by (simp_all add: isnan_def of_f64_def fp_decode_def binary64_def Let_def)
  obtain x s t p where x: "(system_step sample_libm tier2_config 32)\<^sup>*\<^sup>* (system_start pendulum_hardware c) x"
    "sys_firmware x = Some (s, t)" "command_puts (sys_host x) = [p]"
    using pendulum_sample_run [OF c] by blast
  from pendulum_system_safe [OF c a pendulum_hardware_init(1,2) sample_board x(1)]
    c x
  show ?thesis by auto
qed

text \<open>A quiet turn of the freshly booted firmware, read by the hardware as it was initialised.\<close>

lemma pendulum_hardware_interfaces:
  "hardware_ok pendulum_hardware"
  "map full_name (state_interfaces pendulum_hardware) =
     map (\<lambda>f. component f @ ''/'' @ field_name f) (state_flat_fields (schema pendulum_hardware))"
proof -
  show "hardware_ok pendulum_hardware"
    using on_init_ok [OF pendulum_hardware_init(1)] by (simp add: blank_hardware_def hw_inv_def)
  have "on_init y files base_ok params h = (SUCCESS, h') \<Longrightarrow>
      state_interfaces h' = map make_handle (state_flat_fields (schema h'))"
    for y :: "ynode yaml_api" and files base_ok params h h'
    by (auto simp: on_init_def Let_def split: if_splits prod.splits option.splits)
  from this [OF pendulum_hardware_init(1)] show "map full_name (state_interfaces pendulum_hardware) =
     map (\<lambda>f. component f @ ''/'' @ field_name f) (state_flat_fields (schema pendulum_hardware))"
    unfolding pendulum_hardware_def using pendulum_hardware_init(1)
    by (simp add: full_name_def make_handle_def)
qed

theorem measurement_reaches_controller_witness:
  "\<exists>s t s' r t' p h'. sample_main = Some (Inr s, t) \<and> tier2_cycle tier2_config 32 quiet_input s = Some s' \<and>
    zenoh_publish_state tier2_config sample_zenoh (replicate 128 0) (client2 s') t = Some (r, t') \<and>
    zcalls t' = zcalls t @ [Z_Put 0 p None] \<and>
    hw_read True (\<lambda>_. True) (on_state_sample p pendulum_hardware) = Some h'"
proof -
  obtain s t where s: "sample_main = Some (Inr s, t)" "tier2_good tier2_config 32 s"
    "pub (client2 s) = Some 0" "p_in_use (pub_pool t ! 0)"
    using sample_state by blast
  have cfg: "length (replicate 128 0 :: bytes) = max_state_buffer_size tier2_config"
    "tier (transport_cfg tier2_config) = Tier2"
    by (simp_all add: tier2_config_def tier1_config_def)
  have names: "state_interface_configuration (initial_controller\<lparr>
      motor_joint_state_name := ''motor_joint/position'', motor_joint_vel_name := ''motor_joint/velocity'',
      pendulum_joint_state_name := ''pendulum_joint/position'',
      pendulum_joint_vel_name := ''pendulum_joint/velocity''\<rparr>) =
    [''motor_joint/position'', ''motor_joint/velocity'', ''pendulum_joint/position'', ''pendulum_joint/velocity'']"
    by (simp add: state_interface_configuration_def)
  from measurement_reaches_controller [OF s(2) sample_inputs(1) cfg s(3,4) pendulum_hardware_interfaces(1)
      pendulum_hardware_init(2) pendulum_hardware_interfaces(2) names, of sample_zenoh] s(1)
  show ?thesis by blast
qed

end
