(* ===== verification/Sine_Wave.thy ===== *)
theory Sine_Wave
  imports Pendulum_Controller Pendulum_Tier2
begin

text \<open>
  The sine wave demo: \<open>sine_wave_ros/src/sine_wave_controller.cpp\<close>, an open-loop controller that
  commands an amplitude that follows a sine, and \<open>sine_wave_zephyr/src/main.cpp\<close>, the firmware that
  publishes a sine of the commanded amplitude over Tier 2. Node parameters are those of
  \<open>Pendulum_Controller\<close>; a point in time is a number of nanoseconds, and \<open>Duration::seconds\<close> of rclcpp is
  the argument \<open>secs\<close>.
\<close>

section \<open>The controller\<close>

record sine_controller =
  component_name :: string
  cmd_interface_name :: string
  amplitude :: f64
  frequency :: f64
  offset :: f64
  start_time :: int
  start_time_set :: bool

definition sine_declared_parameters :: "(string \<times> param_value) list" where
  "sine_declared_parameters =
    [(''component_name'', P_String ''sine_wave''), (''cmd_interface_name'', P_String ''amplitude''),
     (''amplitude'', P_Double (dec 5 0)), (''frequency'', P_Double (dec 2 0)),
     (''offset'', P_Double (dec 0 0))]"

definition sine_on_init :: "bool \<Rightarrow> CallbackReturn_t" where
  "sine_on_init throws = (if throws then CB_ERROR else CB_SUCCESS)"

definition sine_command_interfaces :: "sine_controller \<Rightarrow> string list" where
  "sine_command_interfaces c = [component_name c @ ''/'' @ cmd_interface_name c]"

definition sine_state_interfaces :: "sine_controller \<Rightarrow> string list" where
  "sine_state_interfaces c = []"

definition sine_on_configure ::
  "node_parameters \<Rightarrow> sine_controller \<Rightarrow> (CallbackReturn_t \<times> sine_controller) option" where
  "sine_on_configure n c = do {
     name \<leftarrow> as_string n ''component_name'';
     cmd \<leftarrow> as_string n ''cmd_interface_name'';
     a \<leftarrow> as_double n ''amplitude'';
     f \<leftarrow> as_double n ''frequency'';
     d \<leftarrow> as_double n ''offset'';
     Some (CB_SUCCESS, c\<lparr>component_name := name, cmd_interface_name := cmd, amplitude := a,
       frequency := f, offset := d\<rparr>)
   }"

definition sine_on_activate :: "sine_controller \<Rightarrow> CallbackReturn_t \<times> sine_controller" where
  "sine_on_activate c = (CB_SUCCESS, c\<lparr>start_time_set := False\<rparr>)"

definition sine_on_deactivate :: "sine_controller \<Rightarrow> CallbackReturn_t \<times> sine_controller" where
  "sine_on_deactivate c = (CB_SUCCESS, c)"

text \<open>\<open>2.0 * M_PI * frequency_ * t\<close>.\<close>

definition sine_value :: "libm \<Rightarrow> sine_controller \<Rightarrow> f64 \<Rightarrow> f64" where
  "sine_value lm c t =
     f64_add (offset c)
       (f64_mul (amplitude c) (lm_sin lm (f64_mul (f64_mul (f64_mul (dec 2 0) M_PI) (frequency c)) t)))"

text \<open>The value offered to the command interface comes with the result; \<open>takes\<close> is whether it is
  accepted.\<close>

definition sine_update ::
  "libm \<Rightarrow> (int \<Rightarrow> f64) \<Rightarrow> int \<Rightarrow> bool \<Rightarrow> sine_controller \<Rightarrow> return_type \<times> f64 \<times> sine_controller" where
  "sine_update lm secs time takes c =
     (let c = (if \<not> start_time_set c then c\<lparr>start_time := time, start_time_set := True\<rparr> else c);
          t = secs (time - start_time c)
      in (if takes then RT_OK else RT_ERROR, sine_value lm c t, c))"

section \<open>The firmware\<close>

definition sine_loop_freq :: uint32 where "sine_loop_freq = 100"
definition sine_kWifiConnectTimeout :: uint32 where "sine_kWifiConnectTimeout = 15000"
definition wave_frequency :: f64 where "wave_frequency = dec 14 1"

text \<open>\<open>while (net_if_ipv4_get_global_addr(...) == nullptr) k_sleep(...)\<close>, without a time limit.\<close>

partial_function (option) wait_forever ::
  "(nat \<Rightarrow> bool) \<Rightarrow> net_world \<Rightarrow> nat \<Rightarrow> net_state \<Rightarrow> net_state option" where
  "wait_forever seen w period s =
     (if seen (now s) then Some s else wait_forever seen w period (k_sleep w period s))"

partial_function (option) sine_connect ::
  "(nat \<Rightarrow> bool) \<Rightarrow> net_world \<Rightarrow> net_if option \<Rightarrow> uint32 \<Rightarrow> net_state \<Rightarrow> (bool \<times> net_state) option" where
  "sine_connect grants w iface timer s =
     (let ok = grants (now s); s = call w (Wifi_Connect_Stored iface) s
      in if ok then Some (True, s)
         else if k_uptime_get_32 (now s) - timer > sine_kWifiConnectTimeout then Some (False, s)
         else sine_connect grants w iface timer (k_sleep w 200 s))"

declare wait_forever.simps [code] sine_connect.simps [code]

definition sine_bring_up :: "(nat \<Rightarrow> bool) \<Rightarrow> net_world \<Rightarrow> net_state \<Rightarrow> (int \<times> net_state) option" where
  "sine_bring_up grants w s = do {
     let iface = default_if w;
     (connected, s) \<leftarrow> sine_connect grants w iface (k_uptime_get_32 (now s)) s;
     if \<not> connected then Some (- 1, s)
     else do {
       s \<leftarrow> wait_forever (ipv4_preferred w iface) w 200 s;
       Some (0, k_sleep w 200 (call w Esp_Power_Save_None s))
     }
   }"

record sine_state =
  sine_client :: "(unit, unit) client"
  wave_amp :: f64
  sine_cmd :: bytes
  cmd_recv :: bool
  sine_cnt :: int
  sine_start_time :: int

text \<open>A turn: the payloads delivered before the command is read and after, the uninitialised buffer of
  \<open>read_command\<close>, and the uptime in milliseconds.\<close>

record sine_input =
  sin_delivered :: "bytes list"
  sin_late :: "bytes list"
  sin_tmp :: bytes
  sin_uptime :: int

definition sine_loop_start :: "(unit, unit) client \<Rightarrow> int \<Rightarrow> sine_state" where
  "sine_loop_start c uptime =
     \<lparr>sine_client = c, wave_amp = dec 5 0, sine_cmd = replicate 8 0, cmd_recv = False, sine_cnt = 0,
      sine_start_time = uptime\<rparr>"

text \<open>\<open>main\<close> from \<open>client.init\<close> to its loop: \<open>Inl\<close> the code it returns, or the state.\<close>

definition sine_main ::
  "client_config \<Rightarrow> zenoh \<Rightarrow> zenoh \<Rightarrow> zenoh \<Rightarrow> bytes \<Rightarrow> int \<Rightarrow> (int \<times> net_state) option \<Rightarrow> nat
     \<Rightarrow> client_transport \<Rightarrow> ((int + sine_state) \<times> client_transport) option" where
  "sine_main cfg zi zp zs scratch uptime network j t = do {
     (net_ret, _) \<leftarrow> network;
     if net_ret \<noteq> 0 then Some (Inl net_ret, t)
     else do {
       (ret, c, t) \<leftarrow> client_init raw_init (raw_payload_size 8) raw_init (raw_payload_size 8) cfg
         zi zp zs scratch sine_loop_freq () () (new_client cfg j () ()) t;
       if ret \<noteq> 0 then Some (Inl ret, t) else Some (Inr (sine_loop_start c uptime), t)
     }
   }"

definition wave_position :: "libm \<Rightarrow> int \<Rightarrow> f64 \<Rightarrow> f64" where
  "wave_position lm ms amp =
     (let current_time_ms = int_to_double ms;
          x = f64_div (f64_mul (f64_mul (f64_mul (dec 2 0) M_PI) current_time_ms) wave_frequency) (dec 1000 0)
      in f64_mul amp (lm_sin lm x))"

definition follow_amplitude :: "sine_state \<Rightarrow> sine_state" where
  "follow_amplitude s =
     (let a = f64_abs (of_le64 (take 8 (sine_cmd s)));
          s = (if f64_le (dec 1 6) a then s\<lparr>cmd_recv := True\<rparr> else s)
      in if cmd_recv s then s\<lparr>wave_amp := a\<rparr> else s)"

definition sine_turn :: "libm \<Rightarrow> client_config \<Rightarrow> sine_input \<Rightarrow> sine_state \<Rightarrow> sine_state option" where
  "sine_turn lm cfg i s = do {
     c \<leftarrow> deliver_all cfg (sin_delivered i) (sine_client s);
     (ok, cmd) \<leftarrow> read_command (raw_read 8) cfg (sin_tmp i) c (sine_cmd s);
     c \<leftarrow> deliver_all cfg (sin_late i) c;
     let s = follow_amplitude (s\<lparr>sine_cmd := cmd\<rparr>);
     let position = wave_position lm (sin_uptime i - sine_start_time s) (wave_amp s);
     let s = s\<lparr>sine_cnt := (if sine_cnt s + 1 = 500 then 0 else sine_cnt s + 1)\<rparr>;
     c \<leftarrow> write_state (raw_write 8) (le64 position) c;
     Some (s\<lparr>sine_client := c\<rparr>)
   }"

end
