(* ===== verification/Sine_Wave_Properties.thy ===== *)
theory Sine_Wave_Properties
  imports Sine_Wave Pendulum_Tier2_Properties Controller_Properties
begin

text \<open>
  The sine wave demo: the phase of the controller restarts with every activation; the firmware starts
  exactly when the network comes up, follows the magnitude of the newest command, and publishes the
  sine of it.
\<close>

section \<open>The controller\<close>

primrec sine_updates :: "libm \<Rightarrow> (int \<Rightarrow> f64) \<Rightarrow> (int \<times> bool) list \<Rightarrow> sine_controller \<Rightarrow> f64 list" where
  "sine_updates lm secs [] c = []"
| "sine_updates lm secs (i # is) c =
     (case sine_update lm secs (fst i) (snd i) c of (r, v, c') \<Rightarrow> v # sine_updates lm secs is c')"

lemma sine_value_cong:
  "offset c' = offset c \<Longrightarrow> amplitude c' = amplitude c \<Longrightarrow> frequency c' = frequency c \<Longrightarrow>
   sine_value lm c' t = sine_value lm c t"
  by (simp add: sine_value_def)

lemma sine_updates_started:
  "start_time_set c \<Longrightarrow>
   sine_updates lm secs is c = map (\<lambda>i. sine_value lm c (secs (fst i - start_time c))) is"
  by (induction "is") (simp_all add: sine_update_def)

text \<open>the phase of the sine restarts with every activation: whatever ran before, the first update
  after it commands the value at time zero, and the others the value at the time since the first,
  accepted by the command interface or not.\<close>

theorem sine_phase_restarts:
  "sine_updates lm secs (i # is) (snd (sine_on_activate c)) =
     map (\<lambda>j. sine_value lm c (secs (fst j - fst i))) (i # is)"
proof -
  have v: "sine_value lm (c\<lparr>start_time := t, start_time_set := True\<rparr>) = sine_value lm c" for t
    by (rule ext) (rule sine_value_cong; simp)
  show ?thesis by (simp add: sine_on_activate_def sine_update_def sine_updates_started v Let_def)
qed

section \<open>The firmware\<close>

lemma wait_forever_seen: "wait_forever seen w period s = Some s' \<Longrightarrow> seen (now s')"
  by (erule wait_forever.raw_induct [rotated]) (auto split: if_splits)

lemma wait_forever_returns:
  assumes w: "timely j d w" and p: "0 < period" and t: "now s \<le> t" "\<And>u. t \<le> u \<Longrightarrow> seen u"
  shows "\<exists>s'. wait_forever seen w period s = Some s'"
  using t(1)
proof (induction "t - now s" arbitrary: s rule: less_induct)
  case less
  show ?case
  proof (cases "seen (now s)")
    case True
    then show ?thesis by (subst wait_forever.simps) simp
  next
    case False
    let ?s = "k_sleep w period s"
    have z: "now s + period \<le> now ?s" using timely_sleep(1) [OF w] .
    have step: "wait_forever seen w period s = wait_forever seen w period ?s"
      using False by (subst wait_forever.simps) simp
    show ?thesis
    proof (cases "now ?s \<le> t")
      case True
      then show ?thesis using less.hyps [of ?s] z p less.prems step by simp
    next
      case after: False
      then have "seen (now ?s)" using t(2) by simp
      then show ?thesis unfolding step by (subst wait_forever.simps) simp
    qed
  qed
qed

definition sine_input_ok :: "client_config \<Rightarrow> sine_input \<Rightarrow> bool" where
  "sine_input_ok cfg i \<longleftrightarrow> (\<forall>b \<in> set (sin_delivered i) \<union> set (sin_late i). length b < 2 ^ 32) \<and>
     length (sin_tmp i) = max_cmd_buffer_size cfg"

text \<open>Where the loop stands when the payloads \<open>hist\<close> have arrived: the client holds the last of them
  that has the size of a command, or the zeros of its buffers.\<close>

definition newest :: "bytes list \<Rightarrow> bytes" where
  "newest hist = last (replicate 8 0 # accepted 8 hist)"

definition sine_at :: "client_config \<Rightarrow> bytes list \<Rightarrow> sine_state \<Rightarrow> bool" where
  "sine_at cfg hist s \<longleftrightarrow> raw_client.ready 8 8 cfg () () (sine_client s) \<and> length (sine_cmd s) = 8 \<and>
     raw_client.command_is 8 () (sine_client s) (newest hist) \<and> (\<not> cmd_recv s \<longrightarrow> wave_amp s = dec 5 0)"

lemma length_newest [simp]: "length (newest hist) = 8"
proof -
  have "\<forall>b \<in> set (replicate 8 0 # accepted 8 hist). length b = 8" by (simp add: accepted_def)
  moreover have "newest hist \<in> set (replicate 8 0 # accepted 8 hist)"
    unfolding newest_def by (rule last_in_set) simp
  ultimately show ?thesis by blast
qed

lemma newest_append: "newest (hist @ bs) = last (newest hist # accepted 8 bs)"
  by (simp add: newest_def accepted_def)

lemma follow_amplitude_eq:
  "follow_amplitude s = s\<lparr>cmd_recv := cmd_recv s \<or> f64_le (dec 1 6) (f64_abs (of_le64 (take 8 (sine_cmd s)))),
     wave_amp := if cmd_recv s \<or> f64_le (dec 1 6) (f64_abs (of_le64 (take 8 (sine_cmd s))))
       then f64_abs (of_le64 (take 8 (sine_cmd s))) else wave_amp s\<rparr>"
  by (cases "f64_le (dec 1 6) (f64_abs (of_le64 (take 8 (sine_cmd s))))"; cases "cmd_recv s")
    (simp_all add: follow_amplitude_def Let_def)

lemma sine_turn_returns:
  assumes good: "sine_at cfg hist s" and i: "sine_input_ok cfg i"
    and tmp: "length tmp = max_state_buffer_size cfg"
  defines "a \<equiv> f64_abs (of_le64 (newest (hist @ sin_delivered i)))"
  shows "\<exists>s'. sine_turn lm cfg i s = Some s' \<and> sine_at cfg (hist @ sin_delivered i @ sin_late i) s' \<and>
    cmd_recv s' = (cmd_recv s \<or> f64_le (dec 1 6) a) \<and>
    wave_amp s' = (if cmd_recv s' then a else dec 5 0) \<and>
    sine_start_time s' = sine_start_time s \<and> pub (sine_client s') = pub (sine_client s) \<and>
    zenoh_publish_state cfg z tmp (sine_client s') t =
      Some (zenbedded_transport_publish (transport_cfg cfg) z (pub (sine_client s))
        (le64 (wave_position lm (sin_uptime i - sine_start_time s) (wave_amp s'))) t)"
proof -
  have ready: "raw_client.ready 8 8 cfg () () (sine_client s)" and cmd8: "raw_image 8 (sine_cmd s)"
    and held: "raw_client.command_is 8 () (sine_client s) (newest hist)"
    using good by (simp_all add: sine_at_def raw_image_def)
  have small: "\<forall>b \<in> set (sin_delivered i). length b < 2 ^ 32" "\<forall>b \<in> set (sin_late i). length b < 2 ^ 32"
    "length (sin_tmp i) = max_cmd_buffer_size cfg"
    using i by (auto simp: sine_input_ok_def)
  have eight: "unat (8 :: size_t) = 8" by simp
  obtain c where c: "deliver_all cfg (sin_delivered i) (sine_client s) = Some c"
    "raw_client.ready 8 8 cfg () () c" "raw_client.command_is 8 () c (newest (hist @ sin_delivered i))"
    using raw_client.deliveries [OF ready held small(1)] unfolding eight newest_append by blast
  define cmd where "cmd = newest (hist @ sin_delivered i)"
  have cmd: "read_command (raw_read 8) cfg (sin_tmp i) c (sine_cmd s) = Some (True, cmd)" "raw_image 8 cmd"
    using raw_client.read_current [OF c(2,3) _ cmd8 small(3)] by (simp_all add: cmd_def raw_image_def)
  obtain c1 where c1: "deliver_all cfg (sin_late i) c = Some c1" "raw_client.ready 8 8 cfg () () c1"
    "raw_client.command_is 8 () c1 (newest (hist @ sin_delivered i @ sin_late i))"
    using raw_client.deliveries [OF c(2,3) small(2)]
    unfolding eight newest_append append_assoc [symmetric] by blast
  let ?s1 = "follow_amplitude (s\<lparr>sine_cmd := cmd\<rparr>)"
  let ?v = "le64 (wave_position lm (sin_uptime i - sine_start_time ?s1) (wave_amp ?s1))"
  have v: "raw_image 8 ?v" by (simp add: raw_image_def)
  obtain c2 where c2: "write_state (raw_write 8) ?v c1 = Some c2" "raw_client.ready 8 8 cfg () () c2"
    "zenoh_publish_state cfg z tmp c2 t =
       Some (zenbedded_transport_publish (transport_cfg cfg) z (pub c1) ?v t)"
    using raw_client.write_then_publish [OF c1(2) v tmp] by blast
  have p: "pub c1 = pub (sine_client s)" "pub c2 = pub c1" "cmd_buffer c2 = cmd_buffer c1"
    using deliver_all_keeps [OF c(1)] deliver_all_keeps [OF c1(1)] write_state_keeps [OF c2(1)] by simp_all
  define s' where "s' = ?s1\<lparr>sine_cnt := (if sine_cnt ?s1 + 1 = 500 then 0 else sine_cnt ?s1 + 1), sine_client := c2\<rparr>"
  have turn: "sine_turn lm cfg i s = Some s'"
    by (simp add: sine_turn_def c(1) cmd(1) c1(1) c2(1) s'_def Let_def)
  have cmdlen: "length cmd = 8" "take 8 cmd = cmd" by (simp_all add: cmd_def)
  have f: "cmd_recv s' = (cmd_recv s \<or> f64_le (dec 1 6) a)"
    "wave_amp s' = (if cmd_recv s' then a else wave_amp s)"
    "sine_start_time s' = sine_start_time s" "sine_cmd s' = cmd" "sine_client s' = c2"
    "wave_amp ?s1 = wave_amp s'" "sine_start_time ?s1 = sine_start_time s"
    by (simp_all add: s'_def follow_amplitude_eq cmdlen a_def flip: cmd_def)
  have amp: "wave_amp s' = (if cmd_recv s' then a else dec 5 0)"
    using f(1,2) good by (auto simp: sine_at_def)
  moreover have "sine_at cfg (hist @ sin_delivered i @ sin_late i) s'"
    using c2(2) iffD2 [OF raw_client.command_is_cong [OF p(3)] c1(3)] cmdlen f(4,5) amp
    by (simp add: sine_at_def)
  ultimately show ?thesis using turn f c2 p by auto
qed

text \<open>What arrived before turn \<open>i\<close> read its command, after the turns \<open>is\<close>; the magnitude of the
  newest command then; and whether a command of at least \<open>1e-6\<close> was read in one of these turns.\<close>

definition sine_heard :: "sine_input list \<Rightarrow> bytes list" where
  "sine_heard is = concat (map (\<lambda>j. sin_delivered j @ sin_late j) is)"

definition magnitude :: "sine_input list \<Rightarrow> sine_input \<Rightarrow> f64" where
  "magnitude is i =
     f64_abs (of_le64 (last (replicate 8 0 # filter (\<lambda>b. length b = 8) (sine_heard is @ sin_delivered i))))"

definition commanded :: "sine_input list \<Rightarrow> bool" where
  "commanded is \<longleftrightarrow> (\<exists>k < length is. f64_le (dec 1 6) (magnitude (take k is) (is ! k)))"

lemma magnitude_eq: "magnitude is i = f64_abs (of_le64 (newest (sine_heard is @ sin_delivered i)))"
  by (simp add: magnitude_def newest_def accepted_def)

lemma commanded_snoc: "commanded (is @ [i]) \<longleftrightarrow> commanded is \<or> f64_le (dec 1 6) (magnitude is i)"
  unfolding commanded_def by (simp add: Ex_less_Suc nth_append cong: conj_cong) blast

lemma sine_run:
  assumes "sine_at cfg [] s0" "\<not> cmd_recv s0" "\<forall>i \<in> set is. sine_input_ok cfg i"
    and "length (tmp :: bytes) = max_state_buffer_size cfg"
  shows "\<exists>s. run_cycles (sine_turn lm cfg) is s0 = Some s \<and> sine_at cfg (sine_heard is) s \<and>
    (cmd_recv s \<longleftrightarrow> commanded is) \<and> sine_start_time s = sine_start_time s0 \<and>
    pub (sine_client s) = pub (sine_client s0)"
  using assms(3)
proof (induction "is" rule: rev_induct)
  case Nil
  then show ?case using assms(1,2) by (simp add: sine_heard_def commanded_def)
next
  case (snoc i "is")
  then obtain s where s: "run_cycles (sine_turn lm cfg) is s0 = Some s" "sine_at cfg (sine_heard is) s"
    "cmd_recv s \<longleftrightarrow> commanded is" "sine_start_time s = sine_start_time s0"
    "pub (sine_client s) = pub (sine_client s0)"
    by auto
  have "sine_input_ok cfg i" using snoc.prems by simp
  then obtain s' where s': "sine_turn lm cfg i s = Some s'"
    "sine_at cfg (sine_heard is @ sin_delivered i @ sin_late i) s'"
    "cmd_recv s' = (cmd_recv s \<or> f64_le (dec 1 6) (magnitude is i))"
    "sine_start_time s' = sine_start_time s" "pub (sine_client s') = pub (sine_client s)"
    using sine_turn_returns [OF s(2) _ assms(4), of i lm] unfolding magnitude_eq by blast
  have "sine_heard (is @ [i]) = sine_heard is @ sin_delivered i @ sin_late i" by (simp add: sine_heard_def)
  then show ?case using s s' by (simp add: run_cycles_append commanded_snoc)
qed

section \<open>Properties\<close>

text \<open>C39: the sine wave firmware follows the newest command and publishes the sine of it. From the
  entry of its loop, after any turns \<open>is\<close> and in the next one, with or without new commands: the
  amplitude is 5 as long as no turn has read a command of at least \<open>1e-6\<close>, and from then on the
  magnitude of the newest command that has arrived, in this turn or long ago; the turn returns, and
  the next publication is that amplitude times the sine at the time since the start of the loop.\<close>

theorem sine_wave_follows_amplitude:
  assumes main: "sine_main cfg zi zp zs scratch uptime network j t0 = Some (Inr s0, t1)"
    and sizes: "max_state_buffer_size cfg \<le> 2 ^ 31" "max_cmd_buffer_size cfg \<le> 2 ^ 31"
      "8 \<le> max_state_buffer_size cfg" "8 \<le> max_cmd_buffer_size cfg"
      "length scratch = max_cmd_buffer_size cfg" "length tmp = max_state_buffer_size cfg"
    and "is": "\<forall>k \<in> set (is @ [i]). sine_input_ok cfg k"
  shows "\<exists>s s'. run_cycles (sine_turn lm cfg) is s0 = Some s \<and> sine_turn lm cfg i s = Some s' \<and>
    wave_amp s' = (if \<exists>k \<le> length is. f64_le (dec 1 6) (magnitude (take k is) ((is @ [i]) ! k))
                   then magnitude is i else dec 5 0) \<and>
    zenoh_publish_state cfg z tmp (sine_client s') t =
      Some (zenbedded_transport_publish (transport_cfg cfg) z (pub (sine_client s0))
        (le64 (f64_mul (wave_amp s') (lm_sin lm
          (f64_div (f64_mul (f64_mul (f64_mul (dec 2 0) M_PI)
            (int_to_double (sin_uptime i - uptime))) wave_frequency) (dec 1000 0))))) t)"
proof -
  obtain c where c: "client_init raw_init (raw_payload_size 8) raw_init (raw_payload_size 8) cfg
      zi zp zs scratch sine_loop_freq () () (new_client cfg j () ()) t0 = Some (0, c, t1)"
    "s0 = sine_loop_start c uptime"
    using main by (auto simp: sine_main_def bind_Some_iff split: if_splits)
  have fresh: "client_wf cfg (new_client cfg j () ())" "\<not> initialized (new_client cfg j () ())"
    "\<not> control_thread_started (new_client cfg j () ())"
    by (simp_all add: new_client_wf) (simp_all add: new_client_def)
  have eight: "unat (8 :: size_t) \<le> max_state_buffer_size cfg" "unat (8 :: size_t) \<le> max_cmd_buffer_size cfg"
    using sizes(3,4) by simp_all
  have "EIO \<noteq> 0" by (simp add: EIO_def)
  then have ready: "raw_client.ready 8 8 cfg () () c"
    using raw_client.init_gets_ready [OF fresh(1,2) TrueI TrueI sizes(1,2) eight sizes(5), of zi zp zs
        sine_loop_freq "()" "()" t0] c(1) by auto
  have "raw_client.command_is 8 () c (newest [])"
    using raw_client.command_is_start [OF client_init_commands [OF c(1) fresh(2,3)] eight(2)]
    by (simp add: newest_def accepted_def)
  then have start: "sine_at cfg [] s0" "\<not> cmd_recv s0" "sine_start_time s0 = uptime"
    using ready by (simp_all add: c(2) sine_at_def sine_loop_start_def)
  obtain s where s: "run_cycles (sine_turn lm cfg) is s0 = Some s" "sine_at cfg (sine_heard is) s"
    "cmd_recv s \<longleftrightarrow> commanded is" "sine_start_time s = uptime" "pub (sine_client s) = pub (sine_client s0)"
    using sine_run [OF start(1,2) _ sizes(6), of "is" lm] "is" start(3) by auto
  have "sine_input_ok cfg i" using "is" by simp
  from sine_turn_returns [OF s(2) this sizes(6), of lm z t] obtain s' where s':
    "sine_turn lm cfg i s = Some s'" "cmd_recv s' \<longleftrightarrow> commanded (is @ [i])"
    "wave_amp s' = (if cmd_recv s' then magnitude is i else dec 5 0)"
    "zenoh_publish_state cfg z tmp (sine_client s') t =
      Some (zenbedded_transport_publish (transport_cfg cfg) z (pub (sine_client s0))
        (le64 (wave_position lm (sin_uptime i - uptime) (wave_amp s'))) t)"
    unfolding commanded_snoc magnitude_eq using s(3-5) by auto
  have "commanded (is @ [i]) \<longleftrightarrow> (\<exists>k \<le> length is. f64_le (dec 1 6) (magnitude (take k is) ((is @ [i]) ! k)))"
    unfolding commanded_def by (auto simp: less_Suc_eq_le)
  with s(1) s' show ?thesis unfolding wave_position_def Let_def by auto
qed

text \<open>One turn that reads a command of -3, then one in which nothing arrives but a payload of another
  size.\<close>

abbreviation sample_sine :: "((int + sine_state) \<times> client_transport) option" where
  "sample_sine \<equiv> sine_main tier2_config sample_zenoh sample_zenoh sample_zenoh (replicate 96 0) 0
     (Some (0, \<lparr>now = 0, requests = []\<rparr>)) 1 fresh_transport"

lemma sample_sine_returns: "\<exists>s t. sample_sine = Some (Inr s, t)"
proof -
  have "case client_init raw_init (raw_payload_size 8) raw_init (raw_payload_size 8) tier2_config
      sample_zenoh sample_zenoh sample_zenoh (replicate 96 0) sine_loop_freq () ()
      (new_client tier2_config 1 () ()) fresh_transport of None \<Rightarrow> False | Some (r, c, t) \<Rightarrow> r = 0"
    by code_simp
  then show ?thesis by (auto simp: sine_main_def split: option.splits prod.splits)
qed

definition sample_sine_input :: sine_input where
  "sample_sine_input = \<lparr>sin_delivered = [[1, 2, 3], le64 0xC008000000000000], sin_late = [],
     sin_tmp = replicate 96 0, sin_uptime = 500\<rparr>"

definition idle_sine_input :: sine_input where
  "idle_sine_input = \<lparr>sin_delivered = [[1, 2, 3]], sin_late = [], sin_tmp = replicate 96 0, sin_uptime = 520\<rparr>"

theorem sine_wave_follows_amplitude_witness:
  "\<exists>s0 t s s'. sample_sine = Some (Inr s0, t) \<and>
    run_cycles (sine_turn sample_libm tier2_config) [sample_sine_input] s0 = Some s \<and>
    sine_turn sample_libm tier2_config idle_sine_input s = Some s' \<and> wave_amp s' = 0x4008000000000000 \<and>
    zenoh_publish_state tier2_config sample_zenoh (replicate 128 0) (sine_client s') t =
      Some (zenbedded_transport_publish (transport_cfg tier2_config) sample_zenoh (pub (sine_client s0))
        (le64 (wave_position sample_libm 520 0x4008000000000000)) t)"
proof -
  obtain s0 t where m: "sample_sine = Some (Inr s0, t)"
    using sample_sine_returns by blast
  have i: "\<forall>k \<in> set ([sample_sine_input] @ [idle_sine_input]). sine_input_ok tier2_config k"
    by (simp add: sine_input_ok_def sample_sine_input_def idle_sine_input_def tier2_config_def tier1_config_def)
  have cfg: "max_state_buffer_size tier2_config \<le> 2 ^ 31" "max_cmd_buffer_size tier2_config \<le> 2 ^ 31"
    "8 \<le> max_state_buffer_size tier2_config" "8 \<le> max_cmd_buffer_size tier2_config"
    "length (replicate 96 0 :: bytes) = max_cmd_buffer_size tier2_config"
    "length (replicate 128 0 :: bytes) = max_state_buffer_size tier2_config"
    by (simp_all add: tier2_config_def tier1_config_def)
  have a: "magnitude [] sample_sine_input = 0x4008000000000000"
    "magnitude [sample_sine_input] idle_sine_input = 0x4008000000000000"
    by (simp_all add: magnitude_def sine_heard_def sample_sine_input_def idle_sine_input_def f64_abs_def)
  have d: "dec 1 6 = 0x3EB0C6F7A0B5ED8D" by (simp add: dec_def f64_eval)
  have "f64_le (dec 1 6) (magnitude (take 0 [sample_sine_input]) (([sample_sine_input] @ [idle_sine_input]) ! 0))"
    using a(1) unfolding d by (simp add: f64_le_def f64_key_def isnan_def f64_eval)
  then have e: "\<exists>k \<le> length [sample_sine_input]. f64_le (dec 1 6)
      (magnitude (take k [sample_sine_input]) (([sample_sine_input] @ [idle_sine_input]) ! k))"
    by blast
  have "sin_uptime idle_sine_input - 0 = 520" by (simp add: idle_sine_input_def)
  with sine_wave_follows_amplitude [OF m cfg i, of sample_libm sample_zenoh t] m show ?thesis
    unfolding wave_position_def Let_def if_P [OF e] a(2) by auto
qed

text \<open>The sine wave firmware has no time limit on its IPv4 address: once the stored network is
  connected, \<open>main\<close> goes on if an address comes up for good, and if none ever comes up it waits for ever.\<close>

lemma sine_waits_for_address:
  assumes w: "timely j d w" and j: "j < 2 ^ 30" "d < 2 ^ 30"
    and granted: "\<And>t. grants t"
  shows "(\<forall>t. \<not> ipv4_preferred w (default_if w) t) \<Longrightarrow> sine_bring_up grants w s = None"
    and "(\<forall>u \<ge> t. ipv4_preferred w (default_if w) u) \<Longrightarrow> \<exists>s'. sine_bring_up grants w s = Some (0, s')"
proof -
  let ?i = "default_if w"
  obtain s1 where c: "sine_connect grants w ?i (k_uptime_get_32 (now s)) s = Some (True, s1)"
    by (rule that) (subst sine_connect.simps, simp add: granted Let_def)
  show "sine_bring_up grants w s = None" if "\<forall>t. \<not> ipv4_preferred w ?i t"
    using that wait_forever_seen [of "ipv4_preferred w ?i" w 200 s1] c
    by (cases "wait_forever (ipv4_preferred w ?i) w 200 s1") (auto simp: sine_bring_up_def)
  show "\<exists>s'. sine_bring_up grants w s = Some (0, s')" if up: "\<forall>u \<ge> t. ipv4_preferred w ?i u"
  proof -
    have "\<exists>s'. wait_forever (ipv4_preferred w ?i) w 200 s1 = Some s'"
      by (rule wait_forever_returns [OF w, of _ _ "max t (now s1)"]) (use up in auto)
    then show ?thesis using c by (auto simp: sine_bring_up_def Let_def)
  qed
qed

end
