(* ===== verification/Spec2Isabelle.thy ===== *)
theory Spec2Isabelle
  imports Client_Properties Hardware_Properties Network_Properties Pendulum_Tier1_Properties Pendulum_Encoder
    Closed_Loop Schema_Header Pendulum_System_Properties Sine_Wave_Properties
begin

text \<open>
  zenbedded connects microcontrollers to ROS 2 over zenoh. A firmware holds a client
  (\<open>zenbedded_rcl\<close>) that publishes a state message at a fixed rate and keeps the latest command; a
  transport (\<open>zenbedded_transport\<close>) declares the publisher and the subscription on one shared zenoh
  session; the payloads are either CDR messages (Tier 1) or packed structs (Tier 2), which a
  ros2_control hardware component on the host (\<open>zenbedded_hardware_interface\<close>) reads and writes
  through a schema loaded from YAML. \<open>zenbedded_common\<close> brings the network up. The demos drive a
  rotary inverted pendulum with these parts.

  \<^bold>\<open>Theories and sources\<close>
  \<^item> \<open>Prelude\<close>: byte buffers with out-of-bounds accesses as \<open>None\<close>, little-endian images, strings,
    error numbers.
  \<^item> \<open>Cdr_Spec\<close>, \<open>Cdr_Serialization\<close>, \<open>Cdr_Refinement\<close>, \<open>Cdr_Properties\<close>
    (\<open>zenbedded_transport/src/serialization.c\<close>, \<open>serialization.h\<close>): the template serializer, an
    independent CDR encoder as its specification, and the proof that the first refines the second.
  \<^item> \<open>Rihs_Ledger\<close> (\<open>rihs_ledger.h\<close>): the type hashes of Tier 1.
  \<^item> \<open>Zenoh_Transport\<close>, \<open>Zenoh_Lemmas\<close>, \<open>Zenoh_Properties\<close> (\<open>zenoh_transport.c\<close>): session, pools, key
    expressions and delivery; reachable states of every sequence of calls.
  \<^item> \<open>Double_Buffer\<close> (\<open>double_buffer.hpp\<close>): the operations, and a step relation for one or two writers
    interleaved with readers byte by byte.
  \<^item> \<open>Codecs\<close> (\<open>codecs.hpp\<close>): the codecs, and the contract the client relies on as the locales
    \<open>state_codec\<close> and \<open>command_codec\<close>, interpreted on each codec.
  \<^item> \<open>Zenbedded_Client\<close>, \<open>Client_Lemmas\<close>, \<open>Client_Properties\<close> (\<open>zenbedded_client.hpp\<close>, \<open>.cpp\<close>).
  \<^item> \<open>Ieee754\<close>, \<open>Interface_Schema\<close>, \<open>Schema_Properties\<close>, \<open>Schema_Header\<close> (\<open>interface_schema.hpp\<close>,
    \<open>.cpp\<close>): conversions on bit patterns, parsing over an abstract yaml-cpp, layout, fields; the last
    reads the generated C header back with a reader of C declarations and lays its structs out.
  \<^item> \<open>Zenbedded_Hardware\<close>, \<open>Hardware_Properties\<close> (\<open>zenbedded_hardware.hpp\<close>, \<open>.cpp\<close>).
  \<^item> \<open>Network\<close>, \<open>Network_Properties\<close> (\<open>zenbedded_common/src/network.cpp\<close>, \<open>usbd.c\<close>).
  \<^item> \<open>Float_Ops\<close>, \<open>Float_Lemmas\<close>, \<open>Float_Order\<close>, \<open>Float_Sign\<close>: double-precision arithmetic on bit patterns
    (rounded exact results, comparisons, \<open>clamp\<close>, \<open>remainder\<close>, \<open>lround\<close>), its order, signs and magnitudes.
  \<^item> \<open>Stepper_Control\<close>: what the two pendulum firmwares share, and how they drive the stepper.
  \<^item> \<open>Command_Watchdog\<close>: the contract of a control loop that stops when commands pause, as the locale
    \<open>command_watchdog\<close>, interpreted on both firmwares.
  \<^item> \<open>Pendulum_Tier2\<close>, \<open>Pendulum_Encoder\<close>, \<open>Pendulum_Tier2_Properties\<close>
    (\<open>demos/inverted_pendulum/inverted_pendulum_tier2/src/main.cpp\<close>): network, boot, encoder thread and
    control loop.
  \<^item> \<open>Position_Codec\<close>, \<open>Pendulum_Tier1\<close>, \<open>Pendulum_Tier1_Properties\<close>
    (\<open>inverted_pendulum_tier1/src/main.cpp\<close>): the same over CDR messages; the first interprets the codec
    locales on a state message whose velocities and efforts are null.
  \<^item> \<open>Pendulum_Controller\<close>, \<open>Controller_Properties\<close> (\<open>inverted_pendulum_controller.hpp\<close>, \<open>.cpp\<close>).
  \<^item> \<open>Mock_Pendulum\<close>, \<open>Mock_Properties\<close> (\<open>mock_pendulum_hardware.hpp\<close>, \<open>.cpp\<close>): the simulated hardware.
  \<^item> \<open>Closed_Loop\<close>: controller and simulated hardware cycle by cycle; the locale \<open>feedback_loop\<close> states
    what each side promises the other.
  \<^item> \<open>Pendulum_System\<close>, \<open>Pendulum_System_Properties\<close>: controller, hardware component and Tier 2 firmware as
    one system with the schema of the demo (\<open>inverted_pendulum_ros/config/interface_schema.yaml\<close>): a step
    relation over the operations of all three in any order, with interfaces claimed by name and topics
    that lose, repeat and reorder; what every reachable state keeps, and the path of a measurement.
  \<^item> \<open>Sine_Wave\<close>, \<open>Sine_Wave_Properties\<close> (\<open>demos/sine_wave\<close>): the controller and the firmware.

  \<^bold>\<open>What the lemmas show\<close>
  For the libraries: the serializer refines a CDR encoder, transport and reference count refine a
  counter with every reachable state safe, a single writer's readers never see a torn payload, what
  one side of a client writes the other reads, schemas are parsed exactly, fields round-trip and the generated
  header lays out what the host assumes,
  the network comes up in bounded time. For the demos: from boot on no input leads to undefined
  behaviour, the stepper stays within its travel and stops within 22 turns of a silent link, a turn
  publishes what was measured and follows the newest command; the host's controller bounds its
  commands and does not chatter between its modes, the simulated arm stays within its stops, and in
  the closed loop of the two the command on the motor is always a number within the bound. For the
  whole pendulum: no NaN and no acceleration beyond the limit of the controller ever reaches the
  firmware, so the latch of \<open>tier2_NaN_command_latches\<close> needs a publisher other than
  the repository's host; and the controller computes on exactly what the firmware measured. Theorems
  about defects (\<open>two_writers_torn_read\<close>, \<open>tier2_NaN_command_latches\<close>,
  \<open>mock_substeps_overflow\<close> and others) show what the code does instead.

  \<^bold>\<open>Conventions\<close>
  A record is the state of a class or of the statics of a file; an operation takes it and returns it
  updated. Undefined behaviour (an access out of bounds, a conversion to an integer that does not fit)
  and a loop that never returns are the result \<open>None\<close>. Integers have their width (\<open>size_t\<close> is 32 bits,
  as on the esp32s3), doubles are their bit patterns. What is not in the repository (zenoh, Zephyr,
  yaml-cpp, ros2_control, the drivers) is an argument: a record of answers, with the requests made of
  it kept as a trace.

  \<^bold>\<open>Loops and bounds\<close>
  Polling loops are \<open>partial_function (option)\<close>, so that \<open>None\<close> is never returning;
  \<open>init_network_terminates\<close> shows that they return for an environment whose sleeps and calls take
  bounded time. The busy-wait of the readers of the double buffer returns exactly when the size fits.
  No definition runs on fuel. Sizes of buffers are assumed to be at most 2^31 where cursors are
  compared, and counters of references to be below their wrap.

  \<^bold>\<open>Not modelled\<close>
  Log messages, the descriptor macros of the USB stack, \<open>hardware_component.hpp\<close> (include guards
  only), and the test programs, which exercise the parts above. The
  static assertions on the codecs (\<open>CheckCodec\<close>) have no run-time behaviour; their contract is the two
  codec locales. A zenoh \<open>put\<close> that throws out of \<open>ZenbeddedHardware::write\<close> ends in the framework and is
  left out, as is the check in the controller's \<open>on_configure\<close> that only decides on a warning. In the
  demos, \<open>sin\<close>, \<open>cos\<close>, \<open>tanh\<close>, \<open>std::stod\<close>, the normal distribution and the division of clock readings
  into seconds are parameters; doubles are rounded after every operation, as without contraction to fused
  multiply-add; the scheduling of Zephyr's threads is the order of their turns and of the payloads
  delivered within a turn.
\<close>

section \<open>From the host to the firmware\<close>

text \<open>C4: a Tier 2 command travels from a ros2_control command interface into the struct the firmware
  reads. One write cycle of the host publishes one payload; a firmware client that was initialised
  with the struct of the schema accepts it from its subscription, and its next \<open>read_command\<close> returns
  a struct in which every field holds what the command interface holds (as the type of the field
  keeps it) when its lock is obtained and it holds a number, and otherwise what was sent last, which
  the host remembers.\<close>

theorem host_command_reaches_firmware:
  assumes h: "hardware_ok h" "command_pub h"
    and fits: "\<forall>i < length (hw_commands h). field_value (field_type (command_flat_fields (schema h) ! i))
        (if locked i \<and> \<not> isnan (h_value (command_interfaces h ! i)) then h_value (command_interfaces h ! i)
         else hw_commands h ! i) \<noteq> None"
    and c: "client_wf cfg c" "\<not> initialized c"
    and sizes: "max_state_buffer_size cfg \<le> 2 ^ 31" "max_cmd_buffer_size cfg \<le> 2 ^ 31"
      "unat n \<le> max_state_buffer_size cfg" "unat m \<le> max_cmd_buffer_size cfg"
      "length scratch = max_cmd_buffer_size cfg" "length tmp = max_cmd_buffer_size cfg"
    and init: "client_init raw_init (raw_payload_size n) raw_init (raw_payload_size m) cfg zi zp zs
      scratch freq () () c t = Some (r, b, t1)" "initialized b"
    and m: "unat m = command_buffer_size (schema h)" "0 < unat m" "unat m \<le> max_rx_buffer_size tcfg"
    and s: "user_cb s = Some On_Transport_Cmd_Cb" and out: "length out = unat m"
  shows "\<exists>h' payload b'. hw_write locked h = Some h' \<and>
    command_puts h' = command_puts h @ [payload] \<and>
    internal_sub_handler tcfg (Some s) payload = Some (On_Transport_Cmd_Cb, payload, user_data s) \<and>
    on_transport_cmd_cb cfg payload (word_of_nat (length payload)) b = Some b' \<and>
    read_command (raw_read m) cfg tmp b' out = Some (True, payload) \<and>
    (\<forall>i < length (hw_commands h).
       let v = (if locked i \<and> \<not> isnan (h_value (command_interfaces h ! i))
                then h_value (command_interfaces h ! i) else hw_commands h ! i)
       in hw_commands h' ! i = v \<and>
          read_command_field (schema h) payload i = field_value (field_type (command_flat_fields (schema h) ! i)) v)"
proof -
  have len: "length (hw_commands h) = length (command_flat_fields (schema h))"
    using h(1) by (simp add: hardware_ok_def)
  have kept: "command_kept (schema h) i (cycle_commands locked h ! i) =
      field_value (field_type (command_flat_fields (schema h) ! i)) (cycle_command locked h i)"
    "cycle_commands locked h ! i = cycle_command locked h i" if "i < length (hw_commands h)" for i
    using that len by (simp_all add: command_kept_def cycle_commands_def)
  have "\<forall>i < length (hw_commands h). command_kept (schema h) i (cycle_commands locked h ! i) \<noteq> None"
    using fits kept by (simp add: cycle_command_def)
  from write_cycle [OF h this] obtain h' payload where w: "hw_write locked h = Some h'"
    "h' = h\<lparr>hw_commands := cycle_commands locked h, command_buffer := payload,
       command_puts := command_puts h @ [payload]\<rparr>" "hardware_ok h'"
    "\<forall>i < length (hw_commands h). read_command_field (schema h) payload i =
       command_kept (schema h) i (cycle_commands locked h ! i)"
    by blast
  have size: "length payload = unat m"
    using w(2,3) m(1) by (simp add: hardware_ok_def command_wf_def)
  have ready: "raw_client.ready n m cfg () () b"
    using raw_client.init_gets_ready [OF c _ _ sizes(1,2,3,4,5), where p = "()" and q = "()" and
        zi = zi and zp = zp and zs = zs and freq = freq and t = t] init by auto
  obtain b' where "on_transport_cmd_cb cfg payload (word_of_nat (length payload)) b = Some b'"
    "read_command (raw_read m) cfg tmp b' out = Some (True, payload)"
    using raw_client.command_then_read [OF ready, of payload out tmp] size out sizes(6)
    by (auto simp: raw_image_def)
  moreover have "internal_sub_handler tcfg (Some s) payload = Some (On_Transport_Cmd_Cb, payload, user_data s)"
    using size m(2,3) s by (auto simp: internal_sub_handler_def)
  moreover have "\<forall>i < length (hw_commands h). hw_commands h' ! i = cycle_command locked h i \<and>
      read_command_field (schema h) payload i =
        field_value (field_type (command_flat_fields (schema h) ! i)) (cycle_command locked h i)"
    using w(2,4) kept by simp
  ultimately show ?thesis
    using w(1,2) unfolding cycle_command_def Let_def by auto
qed

text \<open>A cycle with a value to take, a NaN and a handle that is not free.\<close>

definition busy_hardware :: hardware where
  "busy_hardware = active_hardware
     \<lparr>hw_commands := [0, 0x4014000000000000, 0x4008000000000000],
      command_interfaces := [\<lparr>h_component = ''arm'', h_field = ''mode'', h_value = 0x4000000000000000\<rparr>,
        \<lparr>h_component = ''arm'', h_field = ''velocity'', h_value = quiet_NaN\<rparr>,
        \<lparr>h_component = ''arm'', h_field = ''current'', h_value = 0x3FF0000000000000\<rparr>]\<rparr>"

lemma busy_hardware_ok:
  "hardware_ok busy_hardware" "command_pub busy_hardware" "schema busy_hardware = sample_schema"
  using active_hardware_inv by (simp_all add: hw_inv_def hardware_ok_def busy_hardware_def sample_schema_eq)

lemma busy_values:
  "\<not> isnan 0x4000000000000000" "field_value UINT8 0x4000000000000000 = Some 0x4000000000000000"
  "field_value INT16 0x4008000000000000 = Some 0x4008000000000000"
  by (simp_all add: isnan_def field_value_def double_to_int_def f64_eval)

definition robot_up :: "(int \<times> (unit, unit) client \<times> client_transport) option" where
  "robot_up = client_init raw_init (raw_payload_size 12) raw_init (raw_payload_size 11) tier2_config
     sample_zenoh sample_zenoh sample_zenoh (replicate 96 0) 100 () ()
     (new_client tier2_config 1 () ()) fresh_transport"

lemma robot_up_initialized:
  "case robot_up of None \<Rightarrow> False | Some (r, c, t) \<Rightarrow> initialized c"
  by code_simp

theorem host_command_reaches_firmware_witness:
  "\<exists>r b t h' payload b'. robot_up = Some (r, b, t) \<and>
    hw_write (\<lambda>i. i < 2) busy_hardware = Some h' \<and>
    command_puts h' = command_puts busy_hardware @ [payload] \<and>
    on_transport_cmd_cb tier2_config payload (word_of_nat (length payload)) b = Some b' \<and>
    read_command (raw_read 11) tier2_config (replicate 96 0) b' (replicate 11 0) = Some (True, payload) \<and>
    read_command_field sample_schema payload 0 = Some 0x4000000000000000 \<and>
    read_command_field sample_schema payload 1 = Some 0x4014000000000000 \<and>
    read_command_field sample_schema payload 2 = Some 0x4008000000000000"
proof -
  obtain r b t where up: "robot_up = Some (r, b, t)" "initialized b"
    using robot_up_initialized by (auto split: option.splits prod.splits)
  let ?s = "fresh_sub\<lparr>user_cb := Some On_Transport_Cmd_Cb\<rparr>" and ?h = busy_hardware
  let ?v = "\<lambda>i. if i < 2 \<and> \<not> isnan (h_value (command_interfaces ?h ! i))
    then h_value (command_interfaces ?h ! i) else hw_commands ?h ! i"
  have v: "?v 0 = 0x4000000000000000" "?v 1 = 0x4014000000000000" "?v 2 = 0x4008000000000000"
    "length (hw_commands ?h) = 3"
    by (simp_all add: busy_hardware_def busy_values denan_NaN)
  have t: "field_type (command_flat_fields (schema ?h) ! 0) = UINT8"
    "field_type (command_flat_fields (schema ?h) ! 1) = FLOAT64"
    "field_type (command_flat_fields (schema ?h) ! 2) = INT16"
    by (simp_all add: busy_hardware_ok sample_schema_eq)
  have k: "field_value (field_type (command_flat_fields (schema ?h) ! 0)) (?v 0) = Some 0x4000000000000000"
    "field_value (field_type (command_flat_fields (schema ?h) ! 1)) (?v 1) = Some 0x4014000000000000"
    "field_value (field_type (command_flat_fields (schema ?h) ! 2)) (?v 2) = Some 0x4008000000000000"
    unfolding v t busy_values by (simp_all add: field_value_def)
  have i: "i \<in> {0, 1, 2}" if "i < length (hw_commands ?h)" for i
    using that v(4) by auto
  have fits: "\<forall>i < length (hw_commands ?h). field_value (field_type (command_flat_fields (schema ?h) ! i)) (?v i) \<noteq> None"
    using i k by blast
  have ok: "\<exists>h' payload b'. hw_write (\<lambda>i. i < 2) ?h = Some h' \<and>
    command_puts h' = command_puts ?h @ [payload] \<and>
    internal_sub_handler sample_config (Some ?s) payload = Some (On_Transport_Cmd_Cb, payload, user_data ?s) \<and>
    on_transport_cmd_cb tier2_config payload (word_of_nat (length payload)) b = Some b' \<and>
    read_command (raw_read 11) tier2_config (replicate 96 0) b' (replicate 11 0) = Some (True, payload) \<and>
    (\<forall>i < length (hw_commands ?h). let v = ?v i in hw_commands h' ! i = v \<and>
       read_command_field (schema ?h) payload i = field_value (field_type (command_flat_fields (schema ?h) ! i)) v)"
    by (rule host_command_reaches_firmware [OF busy_hardware_ok(1,2) fits new_client_wf
          _ _ _ _ _ _ _ up [unfolded robot_up_def]])
      (simp_all add: new_client_def sample_config_def tier2_config_def tier1_config_def
        busy_hardware_ok(3) sample_schema_eq)
  have lt: "(0 :: nat) < length (hw_commands ?h)" "1 < length (hw_commands ?h)" "2 < length (hw_commands ?h)"
    using v(4) by simp_all
  from ok obtain h' payload b' where x: "hw_write (\<lambda>i. i < 2) ?h = Some h'"
    "command_puts h' = command_puts ?h @ [payload]"
    "on_transport_cmd_cb tier2_config payload (word_of_nat (length payload)) b = Some b'"
    "read_command (raw_read 11) tier2_config (replicate 96 0) b' (replicate 11 0) = Some (True, payload)"
    "\<forall>i < length (hw_commands ?h). read_command_field (schema ?h) payload i =
       field_value (field_type (command_flat_fields (schema ?h) ! i)) (?v i)"
    unfolding Let_def by blast
  have "read_command_field sample_schema payload 0 = Some 0x4000000000000000"
    "read_command_field sample_schema payload 1 = Some 0x4014000000000000"
    "read_command_field sample_schema payload 2 = Some 0x4008000000000000"
    using x(5) lt k unfolding busy_hardware_ok(3) by metis+
  with x(1-4) up(1) show ?thesis by blast
qed

end
